(* ===== verification/Kernel_Prelude.thy ===== *)
theory Kernel_Prelude
  imports Main "HOL-Library.Word" "HOL-Library.Multiset"
begin

unbundle bit_operations_syntax

text \<open>
  The prelude of the development: the machine integer types of the C sources, the ways in which a
  C function can go wrong (\<open>fault\<close>), sequencing of fallible code, Linux error numbers, the
  decimal printing of the \<^verbatim>\<open>"%d\n"\<close> formats, the contract "a step function keeps an
  invariant and never faults" as a locale, and the lemmas on lists and words that the component
  theories share.
\<close>

section \<open>Machine integers\<close>

type_synonym u8 = "8 word"
type_synonym u16 = "16 word"
type_synonym u32 = "32 word"
type_synonym u64 = "64 word"

section \<open>Ways to go wrong and sequencing\<close>

text \<open>
  A C function that dereferences a null or an invalid pointer, indexes outside an array, divides by zero,
  overruns a socket buffer, reaches \<^verbatim>\<open>BUG()\<close> or never leaves a loop does not return a value. Each is a
  value of \<open>fault\<close>, on the left of a sum.
\<close>

datatype fault = NullDeref | BadPointer | OutOfBounds | DivideByZero | SkbOverPanic | KernelBug | Diverges

type_synonym 'a result = "fault + 'a"

text \<open>Sequencing, also for code that fails with something else than a \<open>fault\<close>.\<close>

fun rbind :: "'e + 'a \<Rightarrow> ('a \<Rightarrow> 'e + 'b) \<Rightarrow> 'e + 'b" where
  "rbind (Inl e) f = Inl e"
| "rbind (Inr x) f = f x"

lemma rbind_Inr_conv [simp]: "rbind m f = Inr y \<longleftrightarrow> (\<exists>x. m = Inr x \<and> f x = Inr y)"
  by (cases m) auto

lemma guard_Inr: "(if b then Inl e else m) = Inr y \<longleftrightarrow> \<not> b \<and> m = Inr y"
  by simp

lemma rbind_assoc: "rbind (rbind m f) g = rbind m (\<lambda>x. rbind (f x) g)"
  by (cases m) auto

lemma rbind_cong [fundef_cong]:
  "m = m' \<Longrightarrow> (\<And>x. m' = Inr x \<Longrightarrow> f x = f' x) \<Longrightarrow> rbind m f = rbind m' f'"
  by (cases m') auto

fun run_steps :: "('s \<Rightarrow> 'e \<Rightarrow> 's result) \<Rightarrow> 's \<Rightarrow> 'e list \<Rightarrow> 's result" where
  "run_steps step s [] = Inr s"
| "run_steps step s (e # es) = rbind (step s e) (\<lambda>t. run_steps step t es)"

lemma run_steps_append:
  "run_steps step s (xs @ ys) = rbind (run_steps step s xs) (\<lambda>t. run_steps step t ys)"
  by (induction xs arbitrary: s) (simp_all add: rbind_assoc)

section \<open>The contract of a safe step function\<close>

text \<open>
  The contract a component gives to whoever drives it with a sequence of events: an event that the
  environment may legitimately produce (\<open>ok\<close>) never faults and keeps the invariant.
\<close>

locale safe_steps =
  fixes step :: "'s \<Rightarrow> 'e \<Rightarrow> 's result"
    and inv :: "'s \<Rightarrow> bool"
    and ok :: "'e \<Rightarrow> bool"
  assumes step_safe: "inv s \<Longrightarrow> ok e \<Longrightarrow> \<exists>t. step s e = Inr t \<and> inv t"
begin

lemma run_safe: "inv s \<Longrightarrow> list_all ok es \<Longrightarrow> \<exists>t. run_steps step s es = Inr t \<and> inv t"
proof (induction es arbitrary: s)
  case Nil
  then show ?case by simp
next
  case (Cons e es)
  then obtain t where "step s e = Inr t" and "inv t"
    using step_safe by fastforce
  with Cons show ?case by simp
qed

lemma run_inv: "inv s \<Longrightarrow> list_all ok es \<Longrightarrow> run_steps step s es = Inr t \<Longrightarrow> inv t"
  using run_safe by fastforce

lemma run_not_fault: "inv s \<Longrightarrow> list_all ok es \<Longrightarrow> run_steps step s es \<noteq> Inl e"
  using run_safe by fastforce

end

section \<open>The contract of a transition relation\<close>

locale inductive_invariant =
  fixes init :: "'s \<Rightarrow> bool"
    and trans :: "'s \<Rightarrow> 's \<Rightarrow> bool"
    and inv :: "'s \<Rightarrow> bool"
  assumes init_inv: "init s \<Longrightarrow> inv s"
    and trans_inv: "inv s \<Longrightarrow> trans s t \<Longrightarrow> inv t"
begin

lemma reach_inv: "init s \<Longrightarrow> trans\<^sup>*\<^sup>* s t \<Longrightarrow> inv t"
  by (rotate_tac 1, induction rule: rtranclp_induct) (auto intro: init_inv trans_inv)

end

section \<open>Linux error numbers\<close>

definition ENOENT :: int where "ENOENT = 2"
definition EIO :: int where "EIO = 5"
definition ENXIO :: int where "ENXIO = 6"
definition ENOMEM :: int where "ENOMEM = 12"
definition EFAULT :: int where "EFAULT = 14"
definition ENODEV :: int where "ENODEV = 19"
definition EINVAL :: int where "EINVAL = 22"

named_theorems errno_defs
lemmas [errno_defs] = ENOENT_def EIO_def ENXIO_def ENOMEM_def EFAULT_def ENODEV_def EINVAL_def

section \<open>Decimal printing\<close>

fun digit_char :: "nat \<Rightarrow> char" where
  "digit_char d = char_of (48 + d)"

fun decimal :: "nat \<Rightarrow> string" where
  "decimal n = (if n < 10 then [digit_char n] else decimal (n div 10) @ [digit_char (n mod 10)])"

declare decimal.simps [simp del]

definition newline :: char where
  "newline = CHR 0x0A"

text \<open>Reading decimal digits back: the inverse that the sysfs round trips use.\<close>

definition undecimal :: "string \<Rightarrow> nat" where
  "undecimal cs = foldl (\<lambda>n c. 10 * n + (of_char c - 48)) 0 cs"

lemma of_char_digit [simp]: "d < 10 \<Longrightarrow> (of_char (digit_char d) :: nat) = 48 + d"
  by simp

lemma undecimal_decimal [simp]: "undecimal (decimal n) = n"
proof (induction n rule: decimal.induct)
  case (1 n)
  show ?case
  proof (cases "n < 10")
    case True
    then show ?thesis by (simp add: decimal.simps [of n] undecimal_def)
  next
    case False
    with "1.IH" have ih: "undecimal (decimal (n div 10)) = n div 10" by simp
    have "undecimal (decimal n) = 10 * undecimal (decimal (n div 10)) + n mod 10"
      using False by (simp add: decimal.simps [of n] undecimal_def)
    with ih show ?thesis by simp
  qed
qed

lemma decimal_inject: "decimal m = decimal n \<Longrightarrow> m = n"
  by (metis undecimal_decimal)

lemma decimal_range: "c \<in> set (decimal n) \<Longrightarrow> 48 \<le> (of_char c :: nat) \<and> (of_char c :: nat) < 58"
proof (induction n rule: decimal.induct)
  case (1 n)
  have d: "48 \<le> (of_char (digit_char d) :: nat) \<and> (of_char (digit_char d) :: nat) < 58" if "d < 10" for d
    unfolding of_char_digit [OF that] using that by simp
  show ?case
    using 1 d by (cases "n < 10") (auto simp: decimal.simps [of n] simp del: digit_char.simps)
qed

lemma decimal_not_Nil [simp]: "decimal n \<noteq> []" "[] \<noteq> decimal n"
  by (simp_all add: decimal.simps [of n])

text \<open>Numbers in a path end at the next separator.\<close>

lemma decimal_slash:
  assumes "decimal a @ CHR ''/'' # xs = decimal b @ CHR ''/'' # ys"
  shows "a = b \<and> xs = ys"
proof -
  have no: "CHR ''/'' \<notin> set (decimal n)" for n
    using decimal_range [of "CHR ''/''" n] by auto
  have tw: "takeWhile (\<lambda>c. c \<noteq> CHR ''/'') (decimal n @ CHR ''/'' # zs) = decimal n" for n zs
    using no by (subst takeWhile_append2) auto
  have "decimal a = decimal b" using arg_cong [OF assms, of "takeWhile (\<lambda>c. c \<noteq> CHR ''/'')"] unfolding tw .
  with assms show ?thesis by (auto dest: decimal_inject)
qed

lemma length_decimal_le3: "n < 256 \<Longrightarrow> length (decimal n) \<le> 3"
  by (simp add: decimal.simps [of n] decimal.simps [of "n div 10"] decimal.simps [of "n div 10 div 10"])

definition signed_decimal :: "int \<Rightarrow> string" where
  "signed_decimal i = (if i < 0 then CHR ''-'' # decimal (nat (- i)) else decimal (nat i))"

text \<open>The text of an attribute file, and the kernel's macro that limits a value.\<close>

definition clamp_val :: "nat \<Rightarrow> nat \<Rightarrow> nat \<Rightarrow> nat" where
  "clamp_val v lo hi = min (max v lo) hi"

definition line_of :: "nat \<Rightarrow> string" where
  "line_of n = decimal n @ [newline]"

section \<open>Lists and words\<close>

lemma concat_single:
  assumes "k \<in> set xs" "distinct xs" "\<And>x. x \<in> set xs \<Longrightarrow> x \<noteq> k \<Longrightarrow> f x = []"
  shows "concat (map f xs) = f k"
  using assms
proof (induction xs)
  case (Cons x xs)
  show ?case
  proof (cases "x = k")
    case True
    then have "\<forall>y\<in>set xs. f y = []" using Cons.prems by auto
    then have "concat (map f xs) = []" by simp
    with True show ?thesis by simp
  qed (use Cons in auto)
qed simp

lemma two_digits: "(p :: nat) * 256 + r = q * 256 + t \<Longrightarrow> r < 256 \<Longrightarrow> t < 256 \<Longrightarrow> p = q \<and> r = t"
  using div_mult_self3 [of 256 r p] div_mult_self3 [of 256 t q] by (cases "p = q") simp_all

lemma find_upt_None: "find P [0..<n] = None \<longleftrightarrow> (\<forall>i<n. \<not> P i)"
  by (auto simp: find_None_iff)

lemma find_upt_SomeD: "find P [0..<n] = Some i \<Longrightarrow> i < n \<and> P i \<and> (\<forall>j<i. \<not> P j)"
  by (auto simp: find_Some_iff)

lemma unat_of_nat_small [simp]: "n < 2 ^ LENGTH('a) \<Longrightarrow> unat (of_nat n :: 'a::len word) = n"
  by (simp add: unat_of_nat take_bit_nat_eq_self)

lemma unat_bounds:
  "unat (x8 :: u8) < 256" "unat (x16 :: u16) < 65536" "unat (x32 :: u32) < 4294967296"
  using unsigned_less [of x8, where ?'a = nat] unsigned_less [of x16, where ?'a = nat]
    unsigned_less [of x32, where ?'a = nat]
  by simp_all

lemma unat_inc:
  assumes "(a :: 'a::len word) < b"
  shows "unat (a + 1) = unat a + 1"
proof -
  have "unat a < unat b" using assms by (simp add: word_less_nat_alt)
  moreover have "unat b < 2 ^ LENGTH('a)" by (rule unsigned_less)
  ultimately have "unat a + 1 < 2 ^ LENGTH('a)" by linarith
  then show ?thesis by (cases "LENGTH('a)") (simp_all add: unat_word_ariths)
qed

lemma unat_dec: "(a :: 'a::len word) \<noteq> 0 \<Longrightarrow> unat (a - 1) = unat a - 1"
  by (metis unat_minus_one)

lemma unat_ucast_up: "LENGTH('a) \<le> LENGTH('b) \<Longrightarrow> unat (ucast (x :: 'a::len word) :: 'b::len word) = unat x"
  by (simp add: unsigned_ucast_eq take_bit_nat_eq_self order_less_le_trans [OF unsigned_less])

lemma ucast_u8_u32 [simp]: "ucast (ucast (b :: u8) :: u32) = b"
  by (rule bit_word_eqI) (simp add: bit_simps)

lemma low_byte_u32: "unat (ucast ((x :: u32) AND 0xFF) :: u8) = unat x mod 256"
proof -
  have "x AND 0xFF = take_bit 8 x"
    by (simp add: take_bit_eq_mask mask_eq_exp_minus_1)
  then show ?thesis
    by (simp add: unsigned_ucast_eq unsigned_take_bit_eq) (simp add: take_bit_nat_def)
qed

end
