(* ===== verification/Uart_Types.thy ===== *)
theory Uart_Types
  imports Kernel_Prelude
begin

text \<open>
  The data of \<^verbatim>\<open>src/infected/modules/uart_net/uart_net.c\<close>: the two state enumerations, the
  private structure \<^verbatim>\<open>struct uartnet_priv\<close>, the parts of the network device, the interrupt
  and work queue state the driver changes, and the PL011 registers. Registers that the driver
  reads back (\<^verbatim>\<open>IMSC\<close>) hold the value last written; the registers the hardware drives
  (\<^verbatim>\<open>FR\<close>, \<^verbatim>\<open>MIS\<close>, the receive side of \<^verbatim>\<open>DR\<close>) are inputs of the
  operations. Every register write and every socket buffer handed to or released into the kernel is
  appended to \<open>calls\<close>.
\<close>

section \<open>Constants\<close>

definition UARTNET_MTU :: nat where "UARTNET_MTU = 256"
definition FRAME_HEADER :: u8 where "FRAME_HEADER = 0xAA"
definition FRAME_FOOTER :: u8 where "FRAME_FOOTER = 0x55"
definition ESCAPE_CHAR :: u8 where "ESCAPE_CHAR = 0x5A"
definition NAPI_WEIGHT :: int where "NAPI_WEIGHT = 64"
definition TX_QUEUE_LEN :: nat where "TX_QUEUE_LEN = 1"

text \<open>From \<^verbatim>\<open>linux/amba/serial.h\<close> and \<^verbatim>\<open>linux/if_ether.h\<close>.\<close>

definition UART01x_FR_TXFF :: u32 where "UART01x_FR_TXFF = 0x20"
definition UART01x_FR_RXFE :: u32 where "UART01x_FR_RXFE = 0x10"
definition UART011_RXIM :: u32 where "UART011_RXIM = 0x10"
definition UART011_TXIM :: u32 where "UART011_TXIM = 0x20"
definition UART011_RTIM :: u32 where "UART011_RTIM = 0x40"
definition UART011_RXIS :: u32 where "UART011_RXIS = 0x10"
definition UART011_TXIS :: u32 where "UART011_TXIS = 0x20"
definition UART011_RTIS :: u32 where "UART011_RTIS = 0x40"
definition UART01x_CR_UARTEN :: u32 where "UART01x_CR_UARTEN = 0x1"
definition UART011_CR_TXE :: u32 where "UART011_CR_TXE = 0x100"
definition UART011_CR_RXE :: u32 where "UART011_CR_RXE = 0x200"
definition UART011_IFLS_TX4_8 :: u32 where "UART011_IFLS_TX4_8 = 0x2"
definition UART011_IFLS_RX7_8 :: u32 where "UART011_IFLS_RX7_8 = 0x20"
definition ETH_HLEN :: nat where "ETH_HLEN = 14"
definition ETH_MIN_MTU :: nat where "ETH_MIN_MTU = 68"

named_theorems uart_consts
lemmas [uart_consts] = UARTNET_MTU_def FRAME_HEADER_def FRAME_FOOTER_def ESCAPE_CHAR_def
  ETH_HLEN_def

named_theorems uart_bits
lemmas [uart_bits] = UART01x_FR_TXFF_def UART01x_FR_RXFE_def UART011_RXIM_def UART011_TXIM_def
  UART011_RTIM_def UART011_RXIS_def UART011_TXIS_def UART011_RTIS_def

section \<open>State machines and structures\<close>

datatype uartnet_rx_state =
    UARTNET_STATE_IDLE
  | UARTNET_STATE_LENGTH
  | UARTNET_STATE_DATA
  | UARTNET_STATE_ESCAPE
  | UARTNET_STATE_END

datatype uartnet_tx_state =
    TX_STATE_IDLE
  | TX_STATE_HEADER
  | TX_STATE_LENGTH
  | TX_STATE_DATA
  | TX_STATE_FOOTER

text \<open>
  A linear socket buffer: the bytes from \<^verbatim>\<open>skb->data\<close> on (so \<^verbatim>\<open>skb->len\<close> is their
  number) and, for a buffer the driver fills itself, the room it was allocated with.
\<close>

record sk_buff =
  skb_data :: "u8 list"
  skb_room :: nat

definition skb_len :: "sk_buff \<Rightarrow> u32" where
  "skb_len skb = of_nat (length (skb_data skb))"

text \<open>
  \<^verbatim>\<open>const u8 *tx_current_ptr\<close> points into \<^verbatim>\<open>tx_length_bytes\<close> or into the data of
  \<^verbatim>\<open>tx_skb\<close>.
\<close>

datatype tx_ptr = NullPtr | LengthPtr nat | DataPtr nat

record uartnet_priv =
  rx_state :: uartnet_rx_state
  saved_state :: uartnet_rx_state
  rx_skb :: "sk_buff option"
  rx_frame_length :: u16
  rx_data_received :: u16
  rx_length_bytes :: "u8 list"
  rx_length_index :: u8
  tx_skb :: "sk_buff option"
  tx_state :: uartnet_tx_state
  tx_length_bytes :: "u8 list"
  tx_current_ptr :: tx_ptr
  tx_current_count :: u16
  tx_escape_next :: u8
  tx_intr :: u32
  rx_intr :: u32

record net_stats =
  tx_packets :: u64
  tx_bytes :: u64
  tx_dropped :: u64
  rx_packets :: u64
  rx_bytes :: u64
  rx_errors :: u64
  rx_dropped :: u64
  rx_length_errors :: u64
  rx_over_errors :: u64

datatype uart_reg = UART_DR | UART_LCRH | UART_CR | UART_IFLS | UART_IMSC | UART_ICR

datatype kcall =
    Writel u32 uart_reg
  | Dev_kfree_skb sk_buff
  | Netif_receive_skb sk_buff
  | Napi_complete_done int

record uart_sys =
  priv :: uartnet_priv
  stats :: net_stats
  regs :: "uart_reg \<Rightarrow> u32"
  netif_running :: bool
  netif_device_present :: bool
  queue_stopped :: bool
  napi_enabled :: bool
  napi_scheduled :: bool
  work_queued :: bool
  irq_actions :: nat
  alloc_count :: nat
  calls :: "kcall list"

text \<open>
  What the driver asks of the kernel and cannot know: whether the n-th buffer allocation succeeds,
  and what it reads from \<^verbatim>\<open>rx_skb->len\<close> after the buffer was handed to
  \<^verbatim>\<open>eth_type_trans\<close> and \<^verbatim>\<open>netif_receive_skb\<close>.
\<close>

record uart_env =
  alloc_ok :: "nat \<Rightarrow> bool"
  len_after_receive :: "sk_buff \<Rightarrow> u32"

section \<open>Access to the device and the kernel\<close>

abbreviation with_priv :: "(uartnet_priv \<Rightarrow> uartnet_priv) \<Rightarrow> uart_sys \<Rightarrow> uart_sys" where
  "with_priv f s \<equiv> s\<lparr>priv := f (priv s)\<rparr>"

abbreviation with_stats :: "(net_stats \<Rightarrow> net_stats) \<Rightarrow> uart_sys \<Rightarrow> uart_sys" where
  "with_stats f s \<equiv> s\<lparr>stats := f (stats s)\<rparr>"

definition call :: "kcall \<Rightarrow> uart_sys \<Rightarrow> uart_sys" where
  "call c s = s\<lparr>calls := calls s @ [c]\<rparr>"

definition writel :: "u32 \<Rightarrow> uart_reg \<Rightarrow> uart_sys \<Rightarrow> uart_sys" where
  "writel v r s = (call (Writel v r) s)\<lparr>regs := (regs s)(r := v)\<rparr>"

definition kfree_skb :: "sk_buff \<Rightarrow> uart_sys \<Rightarrow> uart_sys" where
  "kfree_skb skb s = call (Dev_kfree_skb skb) s"

text \<open>\<^verbatim>\<open>if (p) dev_kfree_skb(p)\<close>.\<close>

definition kfree_skb_opt :: "sk_buff option \<Rightarrow> uart_sys \<Rightarrow> uart_sys" where
  "kfree_skb_opt p s = (case p of None \<Rightarrow> s | Some skb \<Rightarrow> kfree_skb skb s)"

lemma call_sel [simp]:
  "priv (call c s) = priv s" "stats (call c s) = stats s" "regs (call c s) = regs s"
  "netif_running (call c s) = netif_running s" "netif_device_present (call c s) = netif_device_present s"
  "queue_stopped (call c s) = queue_stopped s" "napi_enabled (call c s) = napi_enabled s"
  "napi_scheduled (call c s) = napi_scheduled s" "work_queued (call c s) = work_queued s"
  "irq_actions (call c s) = irq_actions s" "alloc_count (call c s) = alloc_count s"
  "calls (call c s) = calls s @ [c]"
  by (simp_all add: call_def)

lemma writel_sel [simp]:
  "priv (writel v r s) = priv s" "stats (writel v r s) = stats s"
  "regs (writel v r s) = (regs s)(r := v)"
  "netif_running (writel v r s) = netif_running s"
  "netif_device_present (writel v r s) = netif_device_present s"
  "queue_stopped (writel v r s) = queue_stopped s" "napi_enabled (writel v r s) = napi_enabled s"
  "napi_scheduled (writel v r s) = napi_scheduled s" "work_queued (writel v r s) = work_queued s"
  "irq_actions (writel v r s) = irq_actions s" "alloc_count (writel v r s) = alloc_count s"
  "calls (writel v r s) = calls s @ [Writel v r]"
  by (simp_all add: writel_def)

lemma kfree_skb_opt_sel [simp]:
  "priv (kfree_skb_opt p s) = priv s" "stats (kfree_skb_opt p s) = stats s"
  "regs (kfree_skb_opt p s) = regs s"
  "netif_running (kfree_skb_opt p s) = netif_running s"
  "netif_device_present (kfree_skb_opt p s) = netif_device_present s"
  "queue_stopped (kfree_skb_opt p s) = queue_stopped s"
  "napi_enabled (kfree_skb_opt p s) = napi_enabled s"
  "napi_scheduled (kfree_skb_opt p s) = napi_scheduled s"
  "work_queued (kfree_skb_opt p s) = work_queued s"
  "irq_actions (kfree_skb_opt p s) = irq_actions s" "alloc_count (kfree_skb_opt p s) = alloc_count s"
  "calls (kfree_skb_opt p s) = calls s @ (case p of None \<Rightarrow> [] | Some skb \<Rightarrow> [Dev_kfree_skb skb])"
  by (simp_all add: kfree_skb_opt_def kfree_skb_def split: option.splits)

lemma kfree_skb_sel [simp]:
  "priv (kfree_skb p s) = priv s" "stats (kfree_skb p s) = stats s" "regs (kfree_skb p s) = regs s"
  "netif_running (kfree_skb p s) = netif_running s"
  "netif_device_present (kfree_skb p s) = netif_device_present s"
  "queue_stopped (kfree_skb p s) = queue_stopped s" "napi_enabled (kfree_skb p s) = napi_enabled s"
  "napi_scheduled (kfree_skb p s) = napi_scheduled s" "work_queued (kfree_skb p s) = work_queued s"
  "irq_actions (kfree_skb p s) = irq_actions s" "alloc_count (kfree_skb p s) = alloc_count s"
  "calls (kfree_skb p s) = calls s @ [Dev_kfree_skb p]"
  by (simp_all add: kfree_skb_def)

section \<open>Views of the call history\<close>

text \<open>The bytes written to the data register, and the buffers delivered and released, in order.\<close>

fun dr_of :: "kcall \<Rightarrow> u8 list" where
  "dr_of (Writel v UART_DR) = [ucast v]"
| "dr_of _ = []"

fun delivered_of :: "kcall \<Rightarrow> sk_buff list" where
  "delivered_of (Netif_receive_skb skb) = [skb]"
| "delivered_of _ = []"

fun freed_of :: "kcall \<Rightarrow> sk_buff list" where
  "freed_of (Dev_kfree_skb skb) = [skb]"
| "freed_of _ = []"

definition line_out :: "uart_sys \<Rightarrow> u8 list" where
  "line_out s = concat (map dr_of (calls s))"

definition delivered :: "uart_sys \<Rightarrow> sk_buff list" where
  "delivered s = concat (map delivered_of (calls s))"

definition freed :: "uart_sys \<Rightarrow> sk_buff list" where
  "freed s = concat (map freed_of (calls s))"

lemmas history_defs = line_out_def delivered_def freed_def

lemma history_upd [simp]:
  "line_out (s\<lparr>priv := p\<rparr>) = line_out s" "delivered (s\<lparr>priv := p\<rparr>) = delivered s" "freed (s\<lparr>priv := p\<rparr>) = freed s"
  "line_out (s\<lparr>stats := st\<rparr>) = line_out s" "delivered (s\<lparr>stats := st\<rparr>) = delivered s" "freed (s\<lparr>stats := st\<rparr>) = freed s"
  "line_out (s\<lparr>queue_stopped := b\<rparr>) = line_out s" "delivered (s\<lparr>queue_stopped := b\<rparr>) = delivered s"
  "freed (s\<lparr>queue_stopped := b\<rparr>) = freed s"
  "line_out (s\<lparr>work_queued := b\<rparr>) = line_out s" "delivered (s\<lparr>work_queued := b\<rparr>) = delivered s"
  "freed (s\<lparr>work_queued := b\<rparr>) = freed s"
  "line_out (s\<lparr>napi_scheduled := b\<rparr>) = line_out s" "delivered (s\<lparr>napi_scheduled := b\<rparr>) = delivered s"
  "freed (s\<lparr>napi_scheduled := b\<rparr>) = freed s"
  "line_out (s\<lparr>napi_enabled := b\<rparr>) = line_out s" "delivered (s\<lparr>napi_enabled := b\<rparr>) = delivered s"
  "freed (s\<lparr>napi_enabled := b\<rparr>) = freed s"
  "line_out (s\<lparr>irq_actions := n\<rparr>) = line_out s" "delivered (s\<lparr>irq_actions := n\<rparr>) = delivered s"
  "freed (s\<lparr>irq_actions := n\<rparr>) = freed s"
  "line_out (s\<lparr>alloc_count := n\<rparr>) = line_out s" "delivered (s\<lparr>alloc_count := n\<rparr>) = delivered s"
  "freed (s\<lparr>alloc_count := n\<rparr>) = freed s"
  "line_out (s\<lparr>netif_running := b\<rparr>) = line_out s" "delivered (s\<lparr>netif_running := b\<rparr>) = delivered s"
  "freed (s\<lparr>netif_running := b\<rparr>) = freed s"
  by (simp_all add: history_defs)

lemma history_call [simp]:
  "line_out (call c s) = line_out s @ dr_of c" "delivered (call c s) = delivered s @ delivered_of c"
  "freed (call c s) = freed s @ freed_of c"
  by (simp_all add: history_defs)

lemma history_writel [simp]:
  "line_out (writel v r s) = line_out s @ (if r = UART_DR then [ucast v] else [])"
  "delivered (writel v r s) = delivered s" "freed (writel v r s) = freed s"
  by (cases r; simp add: history_defs)+

lemma history_kfree [simp]:
  "line_out (kfree_skb q s) = line_out s" "delivered (kfree_skb q s) = delivered s"
  "freed (kfree_skb q s) = freed s @ [q]"
  by (simp_all add: kfree_skb_def)

lemma history_kfree_opt [simp]:
  "line_out (kfree_skb_opt qo s) = line_out s" "delivered (kfree_skb_opt qo s) = delivered s"
  "freed (kfree_skb_opt qo s) = freed s @ (case qo of None \<Rightarrow> [] | Some q \<Rightarrow> [q])"
  by (simp_all add: kfree_skb_opt_def split: option.splits)

text \<open>A state before the driver did anything: memory is zeroed, no call was made.\<close>

definition zero_priv :: uartnet_priv where
  "zero_priv = \<lparr>rx_state = UARTNET_STATE_IDLE, saved_state = UARTNET_STATE_IDLE, rx_skb = None,
     rx_frame_length = 0, rx_data_received = 0, rx_length_bytes = [0, 0], rx_length_index = 0,
     tx_skb = None, tx_state = TX_STATE_IDLE, tx_length_bytes = [0, 0], tx_current_ptr = NullPtr,
     tx_current_count = 0, tx_escape_next = 0, tx_intr = 0, rx_intr = 0\<rparr>"

definition zero_stats :: net_stats where
  "zero_stats = \<lparr>tx_packets = 0, tx_bytes = 0, tx_dropped = 0, rx_packets = 0, rx_bytes = 0,
     rx_errors = 0, rx_dropped = 0, rx_length_errors = 0, rx_over_errors = 0\<rparr>"

definition zero_sys :: uart_sys where
  "zero_sys = \<lparr>priv = zero_priv, stats = zero_stats, regs = (\<lambda>_. 0), netif_running = False,
     netif_device_present = True, queue_stopped = True, napi_enabled = False,
     napi_scheduled = False, work_queued = False, irq_actions = 0, alloc_count = 0, calls = []\<rparr>"

end
