(* ===== verification/Uart_Rx.thy ===== *)
theory Uart_Rx
  imports Uart_Types
begin

text \<open>
  The receive side of \<^verbatim>\<open>uart_net.c\<close>: the NAPI poll function \<^verbatim>\<open>uartnet_poll\<close> and
  the state machine in its \<^verbatim>\<open>switch\<close>. One definition per case of the switch; \<open>rx_switch\<close>
  is the whole switch with its \<^verbatim>\<open>goto restart\<close>, \<open>poll_loop\<close> the loop around it. The
  receive FIFO is the list of bytes it delivers while the poll runs: \<^verbatim>\<open>RXFE\<close> reads as set
  exactly when that list is exhausted.

  The lemmas show that no byte sequence makes the receiver fault, that its loop is bounded by the
  budget, and what a delivered frame can look like.
\<close>

section \<open>The state machine\<close>

text \<open>\<^verbatim>\<open>case UARTNET_STATE_IDLE\<close>.\<close>

definition rx_idle :: "u8 \<Rightarrow> uart_sys \<Rightarrow> uart_sys" where
  "rx_idle data s =
     (if data = FRAME_HEADER
      then with_priv (\<lambda>p. p\<lparr>rx_state := UARTNET_STATE_LENGTH, rx_length_index := 0,
             rx_frame_length := 0, rx_data_received := 0, rx_skb := None\<rparr>) s
      else s)"

text \<open>The parsed length, \<^verbatim>\<open>(rx_length_bytes[0] << 8) | rx_length_bytes[1]\<close>.\<close>

definition parse_length :: "u8 list \<Rightarrow> u16" where
  "parse_length lb = push_bit 8 (ucast (lb ! 0)) OR ucast (lb ! 1)"

text \<open>An unescaped byte in \<^verbatim>\<open>UARTNET_STATE_LENGTH\<close>.\<close>

definition rx_put_length :: "uart_env \<Rightarrow> u8 \<Rightarrow> uart_sys \<Rightarrow> uart_sys result" where
  "rx_put_length env data s =
     (let p = priv s; i = unat (rx_length_index p) in
      if length (rx_length_bytes p) \<le> i then Inl OutOfBounds
      else
        let lb = (rx_length_bytes p)[i := data];
            p1 = p\<lparr>rx_length_bytes := lb, rx_length_index := rx_length_index p + 1\<rparr>;
            s1 = s\<lparr>priv := p1\<rparr>
        in if rx_length_index p1 = 2
           then let len = parse_length lb in
             if unat len > UARTNET_MTU + ETH_HLEN \<or> len = 0
             then Inr (with_stats (\<lambda>t. t\<lparr>rx_length_errors := rx_length_errors t + 1\<rparr>)
                   (with_priv (\<lambda>p. p\<lparr>rx_skb := None, rx_state := UARTNET_STATE_IDLE\<rparr>)
                     (kfree_skb_opt (rx_skb p1) s1)))
             else if alloc_ok env (alloc_count s)
             then Inr (with_priv (\<lambda>p. p\<lparr>rx_frame_length := len,
                     rx_skb := Some \<lparr>skb_data = [], skb_room = unat len\<rparr>,
                     rx_state := UARTNET_STATE_DATA\<rparr>)
                   (s1\<lparr>alloc_count := alloc_count s + 1\<rparr>))
             else Inr (with_stats (\<lambda>t. t\<lparr>rx_dropped := rx_dropped t + 1\<rparr>)
                   (with_priv (\<lambda>p. p\<lparr>rx_frame_length := len, rx_skb := None,
                       rx_state := UARTNET_STATE_IDLE\<rparr>)
                     (s1\<lparr>alloc_count := alloc_count s + 1\<rparr>)))
           else Inr s1)"

text \<open>An unescaped byte in \<^verbatim>\<open>UARTNET_STATE_DATA\<close>.\<close>

definition rx_put_data :: "u8 \<Rightarrow> uart_sys \<Rightarrow> uart_sys result" where
  "rx_put_data data s =
     (let p = priv s in
      if rx_data_received p < rx_frame_length p
      then case rx_skb p of
          None \<Rightarrow> Inl NullDeref
        | Some skb \<Rightarrow>
            if skb_room skb \<le> length (skb_data skb) then Inl SkbOverPanic
            else let n = rx_data_received p + 1 in
              Inr (with_priv (\<lambda>p. p\<lparr>rx_skb := Some (skb\<lparr>skb_data := skb_data skb @ [data]\<rparr>),
                     rx_data_received := n,
                     rx_state := (if rx_frame_length p \<le> n then UARTNET_STATE_END else rx_state p)\<rparr>) s)
      else Inr (with_stats (\<lambda>t. t\<lparr>rx_over_errors := rx_over_errors t + 1\<rparr>)
             (with_priv (\<lambda>p. p\<lparr>rx_skb := None, rx_state := UARTNET_STATE_IDLE\<rparr>)
               (kfree_skb_opt (rx_skb p) s))))"

text \<open>\<^verbatim>\<open>case UARTNET_STATE_LENGTH\<close> and \<^verbatim>\<open>case UARTNET_STATE_DATA\<close>.\<close>

definition rx_body :: "uart_env \<Rightarrow> u8 \<Rightarrow> uart_sys \<Rightarrow> uart_sys result" where
  "rx_body env data s =
     (if data = ESCAPE_CHAR
      then Inr (with_priv (\<lambda>p. p\<lparr>saved_state := rx_state p, rx_state := UARTNET_STATE_ESCAPE\<rparr>) s)
      else if rx_state (priv s) = UARTNET_STATE_LENGTH then rx_put_length env data s
      else if rx_state (priv s) = UARTNET_STATE_DATA then rx_put_data data s
      else Inr s)"

text \<open>\<^verbatim>\<open>case UARTNET_STATE_END\<close>; the second component is the increment of \<^verbatim>\<open>work_done\<close>.\<close>

definition rx_end :: "uart_env \<Rightarrow> u8 \<Rightarrow> uart_sys \<Rightarrow> uart_sys \<times> int" where
  "rx_end env data s =
     (let p = priv s;
          bad = with_stats (\<lambda>t. t\<lparr>rx_errors := rx_errors t + 1\<rparr>) (kfree_skb_opt (rx_skb p) s);
          (s1, d) =
            (if data = FRAME_FOOTER
             then case rx_skb p of
                 Some skb \<Rightarrow>
                   if skb_len skb = ucast (rx_frame_length p)
                   then (with_stats (\<lambda>t. t\<lparr>rx_packets := rx_packets t + 1,
                            rx_bytes := rx_bytes t + ucast (len_after_receive env skb)\<rparr>)
                          (call (Netif_receive_skb skb) s), 1)
                   else (bad, 0)
               | None \<Rightarrow> (bad, 0)
             else (bad, 0))
      in (with_priv (\<lambda>p. p\<lparr>rx_skb := None, rx_state := UARTNET_STATE_IDLE\<rparr>) s1, d))"

text \<open>The cases of the switch that leave it; \<open>rx_switch\<close> adds the one that restarts it.\<close>

definition rx_dispatch :: "uart_env \<Rightarrow> u8 \<Rightarrow> uart_sys \<Rightarrow> (uart_sys \<times> int) result" where
  "rx_dispatch env data s =
     (case rx_state (priv s) of
        UARTNET_STATE_IDLE \<Rightarrow> Inr (rx_idle data s, 0)
      | UARTNET_STATE_LENGTH \<Rightarrow> rbind (rx_body env data s) (\<lambda>t. Inr (t, 0))
      | UARTNET_STATE_DATA \<Rightarrow> rbind (rx_body env data s) (\<lambda>t. Inr (t, 0))
      | UARTNET_STATE_END \<Rightarrow> Inr (rx_end env data s)
      | UARTNET_STATE_ESCAPE \<Rightarrow> Inl Diverges)"

text \<open>
  \<^verbatim>\<open>case UARTNET_STATE_ESCAPE\<close> restores the saved state and restarts the switch with the
  byte exclusive-ored with 0x20. If the saved state were the escape state itself, the restart would
  go round for ever; that is the \<open>Diverges\<close> of \<open>rx_dispatch\<close>.
\<close>

definition rx_switch :: "uart_env \<Rightarrow> u8 \<Rightarrow> uart_sys \<Rightarrow> (uart_sys \<times> int) result" where
  "rx_switch env data s =
     (if rx_state (priv s) = UARTNET_STATE_ESCAPE
      then rx_dispatch env (data XOR 0x20) (with_priv (\<lambda>p. p\<lparr>rx_state := saved_state p\<rparr>) s)
      else rx_dispatch env data s)"

section \<open>The poll function\<close>

fun poll_loop :: "uart_env \<Rightarrow> int \<Rightarrow> int \<Rightarrow> u8 list \<Rightarrow> uart_sys \<Rightarrow> (uart_sys \<times> int \<times> u8 list) result" where
  "poll_loop env budget work_done [] s = Inr (s, work_done, [])"
| "poll_loop env budget work_done (b # fifo) s =
     (if work_done < budget
      then rbind (rx_switch env b s) (\<lambda>(t, d). poll_loop env budget (work_done + d) fifo t)
      else Inr (s, work_done, b # fifo))"

definition uartnet_poll ::
  "uart_env \<Rightarrow> int \<Rightarrow> u8 list \<Rightarrow> uart_sys \<Rightarrow> (uart_sys \<times> int \<times> u8 list) result" where
  "uartnet_poll env budget fifo s =
     rbind (poll_loop env budget 0 fifo s) (\<lambda>(t, work_done, rest).
       if work_done < budget
       then Inr (writel (regs t UART_IMSC OR UART011_RTIM OR UART011_RXIM) UART_IMSC
                  ((call (Napi_complete_done work_done) t)\<lparr>napi_scheduled := False\<rparr>), work_done, rest)
       else Inr (t, work_done, rest))"

section \<open>The invariant of the receiver\<close>

text \<open>What a frame must look like for the receiver to complete it.\<close>

definition frame_ok :: "u8 list \<Rightarrow> bool" where
  "frame_ok bs \<longleftrightarrow> 0 < length bs \<and> length bs \<le> UARTNET_MTU + ETH_HLEN \<and> length bs \<noteq> 90 \<and>
     ESCAPE_CHAR \<notin> set bs"

definition length_ok :: "nat \<Rightarrow> bool" where
  "length_ok n \<longleftrightarrow> 0 < n \<and> n \<le> UARTNET_MTU + ETH_HLEN \<and> n \<noteq> 90"

definition filling :: "uartnet_priv \<Rightarrow> bool" where
  "filling p \<longleftrightarrow> (\<exists>skb. rx_skb p = Some skb \<and> length (skb_data skb) = unat (rx_data_received p) \<and>
     skb_room skb = unat (rx_frame_length p) \<and> length_ok (unat (rx_frame_length p)) \<and>
     ESCAPE_CHAR \<notin> set (skb_data skb))"

fun rx_in :: "uartnet_rx_state \<Rightarrow> uartnet_priv \<Rightarrow> bool" where
  "rx_in UARTNET_STATE_IDLE p \<longleftrightarrow> rx_skb p = None"
| "rx_in UARTNET_STATE_LENGTH p \<longleftrightarrow> rx_skb p = None \<and> unat (rx_length_index p) < 2 \<and> rx_data_received p = 0"
| "rx_in UARTNET_STATE_DATA p \<longleftrightarrow> filling p \<and> rx_data_received p < rx_frame_length p"
| "rx_in UARTNET_STATE_END p \<longleftrightarrow> filling p \<and> rx_data_received p = rx_frame_length p"
| "rx_in UARTNET_STATE_ESCAPE p \<longleftrightarrow> False"

definition rx_wf :: "uartnet_priv \<Rightarrow> bool" where
  "rx_wf p \<longleftrightarrow> length (rx_length_bytes p) = 2 \<and>
     (if rx_state p = UARTNET_STATE_ESCAPE
      then saved_state p \<in> {UARTNET_STATE_LENGTH, UARTNET_STATE_DATA} \<and> rx_in (saved_state p) p
      else rx_in (rx_state p) p)"

definition rx_inv :: "uart_sys \<Rightarrow> bool" where
  "rx_inv s \<longleftrightarrow> rx_wf (priv s) \<and> (\<forall>skb \<in> set (delivered s). frame_ok (skb_data skb))"

section \<open>Lemmas\<close>

lemma unat_parse_length: "unat (parse_length [h, l]) = 256 * unat h + unat l"
proof -
  have disj: "push_bit 8 (ucast h :: u16) AND ucast l = 0"
    by (rule bit_word_eqI) (auto simp: bit_simps dest: bit_imp_le_length)
  have "parse_length [h, l] = push_bit 8 (ucast h) + ucast l"
    by (simp add: parse_length_def disjunctive_add_eq_or [OF disj])
  moreover have "unat (push_bit 8 (ucast h :: u16)) = 256 * unat h"
    using unat_bounds(1) [of h] by (simp add: push_bit_eq_mult unat_word_ariths unat_ucast_up)
  moreover have "unat (ucast l :: u16) = unat l"
    by (simp add: unat_ucast_up)
  moreover have "256 * unat h + unat l < 2 ^ 16"
    using unat_bounds(1) [of h] unat_bounds(1) [of l] by simp
  ultimately show ?thesis by (simp add: unat_word_ariths)
qed

lemma skb_len_eq: "skb_len skb = ucast (n :: u16) \<longleftrightarrow> length (skb_data skb) mod 2 ^ 32 = unat n"
  by (simp add: skb_len_def word_unat_eq_iff unat_of_nat take_bit_nat_def unat_ucast_up)

lemma fillingE:
  assumes "filling p"
  obtains skb where "rx_skb p = Some skb" "length (skb_data skb) = unat (rx_data_received p)"
    "skb_room skb = unat (rx_frame_length p)" "length_ok (unat (rx_frame_length p))"
    "ESCAPE_CHAR \<notin> set (skb_data skb)"
  using assms by (auto simp: filling_def)

text \<open>Each case of the switch succeeds and re-establishes the invariant.\<close>

lemma rx_idle_inv:
  "rx_inv s \<Longrightarrow> rx_state (priv s) = UARTNET_STATE_IDLE \<Longrightarrow> rx_inv (rx_idle data s)"
  by (simp add: rx_inv_def rx_wf_def rx_idle_def delivered_def)

lemma parse_length_upd:
  assumes "length lb = 2" "i = 1"
  shows "unat (parse_length (lb[i := data])) = 256 * unat (lb ! 0) + unat data"
proof -
  from assms obtain h l where "lb = [h, l]"
    by (auto simp: numeral_2_eq_2 length_Suc_conv)
  with assms show ?thesis by (simp add: unat_parse_length)
qed

lemma low_byte_not_escape:
  assumes "unat n = 256 * unat (h :: u8) + unat (data :: u8)" "data \<noteq> ESCAPE_CHAR"
  shows "unat (n :: u16) \<noteq> 90"
proof
  assume n: "unat n = 90"
  with assms(1) unat_bounds(1) [of data] have "unat data = 90" by (cases "unat h = 0") auto
  then have "data = ESCAPE_CHAR" by (simp add: ESCAPE_CHAR_def word_unat_eq_iff)
  with assms(2) show False by simp
qed

lemma rx_put_length_inv:
  assumes inv: "rx_inv s" and st: "rx_state (priv s) = UARTNET_STATE_LENGTH"
    and nesc: "data \<noteq> ESCAPE_CHAR"
  shows "\<exists>t. rx_put_length env data s = Inr t \<and> rx_inv t"
proof -
  let ?p = "priv s"
  from inv st have wf: "rx_skb ?p = None" "unat (rx_length_index ?p) < 2"
    "length (rx_length_bytes ?p) = 2" "rx_data_received ?p = 0"
    by (simp_all add: rx_inv_def rx_wf_def)
  then consider (first) "rx_length_index ?p = 0" | (second) "rx_length_index ?p = 1"
    by (auto simp: word_unat_eq_iff less_2_cases_iff)
  then show ?thesis
  proof cases
    case first
    with inv st wf show ?thesis
      by (auto simp: rx_put_length_def rx_inv_def rx_wf_def delivered_def Let_def)
  next
    case second
    let ?len = "parse_length ((rx_length_bytes ?p)[1 := data])"
    have "unat ?len = 256 * unat (rx_length_bytes ?p ! 0) + unat data"
      using wf(3) by (rule parse_length_upd) simp
    then have "unat ?len \<noteq> 90"
      using nesc by (rule low_byte_not_escape)
    with inv st wf second show ?thesis
      by (auto simp: rx_put_length_def rx_inv_def rx_wf_def delivered_def filling_def length_ok_def
          Let_def kfree_skb_opt_def unat_gt_0 word_gt_0)
  qed
qed

lemma rx_put_data_inv:
  assumes inv: "rx_inv s" and st: "rx_state (priv s) = UARTNET_STATE_DATA"
    and nesc: "data \<noteq> ESCAPE_CHAR"
  shows "\<exists>t. rx_put_data data s = Inr t \<and> rx_inv t"
proof -
  let ?p = "priv s"
  from inv st have fill: "filling ?p" and lt: "rx_data_received ?p < rx_frame_length ?p"
    by (simp_all add: rx_inv_def rx_wf_def)
  from fill obtain skb where skb: "rx_skb ?p = Some skb"
    "length (skb_data skb) = unat (rx_data_received ?p)" "skb_room skb = unat (rx_frame_length ?p)"
    "length_ok (unat (rx_frame_length ?p))" "ESCAPE_CHAR \<notin> set (skb_data skb)"
    by (rule fillingE)
  have suc: "unat (rx_data_received ?p + 1) = unat (rx_data_received ?p) + 1"
    using lt by (rule unat_inc)
  then have le: "rx_data_received ?p + 1 \<le> rx_frame_length ?p"
    using lt by (simp add: word_le_nat_alt word_less_nat_alt)
  have ne: "Suc (unat (rx_data_received ?p)) < unat (rx_frame_length ?p)"
    if "rx_frame_length ?p \<noteq> rx_data_received ?p + 1"
    using that le suc by (auto simp: word_le_nat_alt word_unat_eq_iff)
  from inv st nesc skb lt suc le ne show ?thesis
    by (auto simp: rx_put_data_def rx_inv_def rx_wf_def delivered_def filling_def Let_def
        word_less_nat_alt)
qed

lemma rx_end_inv:
  assumes inv: "rx_inv s" and st: "rx_state (priv s) = UARTNET_STATE_END"
  shows "rx_inv (fst (rx_end env data s))"
proof -
  let ?p = "priv s"
  from inv st have fill: "filling ?p" and eq: "rx_data_received ?p = rx_frame_length ?p"
    by (simp_all add: rx_inv_def rx_wf_def)
  from fill obtain skb where skb: "rx_skb ?p = Some skb"
    "length (skb_data skb) = unat (rx_data_received ?p)" "length_ok (unat (rx_frame_length ?p))"
    "ESCAPE_CHAR \<notin> set (skb_data skb)"
    by (rule fillingE)
  then have "frame_ok (skb_data skb)"
    by (simp add: frame_ok_def length_ok_def eq)
  with inv st skb show ?thesis
    by (auto simp: rx_end_def rx_inv_def rx_wf_def delivered_def Let_def)
qed

lemma rx_body_inv:
  assumes inv: "rx_inv s" and st: "rx_state (priv s) \<in> {UARTNET_STATE_LENGTH, UARTNET_STATE_DATA}"
  shows "\<exists>t. rx_body env data s = Inr t \<and> rx_inv t"
proof (cases "data = ESCAPE_CHAR")
  case True
  with inv st show ?thesis
    by (auto simp: rx_body_def rx_inv_def rx_wf_def delivered_def filling_def)
next
  case False
  with inv st show ?thesis
    using rx_put_length_inv rx_put_data_inv by (auto simp: rx_body_def)
qed

lemma rx_dispatch_inv:
  assumes inv: "rx_inv s" and st: "rx_state (priv s) \<noteq> UARTNET_STATE_ESCAPE"
  shows "\<exists>t d. rx_dispatch env data s = Inr (t, d) \<and> rx_inv t"
proof (cases "rx_state (priv s)")
  case UARTNET_STATE_END
  with inv show ?thesis
    using rx_end_inv [of s env data] by (auto simp: rx_dispatch_def intro: prod.collapse [symmetric])
next
  case UARTNET_STATE_LENGTH
  with inv show ?thesis using rx_body_inv [of s env data] by (auto simp: rx_dispatch_def)
next
  case UARTNET_STATE_DATA
  with inv show ?thesis using rx_body_inv [of s env data] by (auto simp: rx_dispatch_def)
qed (use inv st rx_idle_inv in \<open>auto simp: rx_dispatch_def\<close>)

lemma rx_switch_inv:
  assumes inv: "rx_inv s"
  shows "\<exists>t d. rx_switch env data s = Inr (t, d) \<and> rx_inv t"
proof (cases "rx_state (priv s) = UARTNET_STATE_ESCAPE")
  case True
  let ?s = "with_priv (\<lambda>p. p\<lparr>rx_state := saved_state p\<rparr>) s"
  from inv True have "rx_inv ?s" and "rx_state (priv ?s) \<noteq> UARTNET_STATE_ESCAPE"
    by (auto simp: rx_inv_def rx_wf_def delivered_def filling_def)
  with True show ?thesis using rx_dispatch_inv [of ?s] by (auto simp: rx_switch_def)
next
  case False
  with inv show ?thesis using rx_dispatch_inv [of s] by (auto simp: rx_switch_def)
qed


section \<open>The loop\<close>

lemma rx_end_work: "snd (rx_end env data s) \<in> {0, 1}"
  by (auto simp: rx_end_def Let_def split: option.splits)

text \<open>\<open>work_done\<close> counts exactly the buffers handed to the network stack.\<close>

lemma rx_put_length_delivered: "rx_put_length env data s = Inr t \<Longrightarrow> delivered t = delivered s"
  by (auto simp: rx_put_length_def Let_def split: if_splits)

lemma rx_put_data_delivered: "rx_put_data data s = Inr t \<Longrightarrow> delivered t = delivered s"
  by (auto simp: rx_put_data_def Let_def split: if_splits option.splits)

lemma rx_body_delivered: "rx_body env data s = Inr t \<Longrightarrow> delivered t = delivered s"
  by (auto simp: rx_body_def dest: rx_put_length_delivered rx_put_data_delivered split: if_splits)

lemma rx_dispatch_work:
  "rx_dispatch env data s = Inr (t, d) \<Longrightarrow>
     d \<in> {0, 1} \<and> int (length (delivered t)) = int (length (delivered s)) + d"
  by (auto simp: rx_dispatch_def rx_idle_def rx_end_def Let_def dest: rx_body_delivered
      split: uartnet_rx_state.splits if_splits option.splits)

lemma rx_switch_work:
  "rx_switch env data s = Inr (t, d) \<Longrightarrow>
     d \<in> {0, 1} \<and> int (length (delivered t)) = int (length (delivered s)) + d"
  by (auto simp: rx_switch_def dest!: rx_dispatch_work split: if_splits)

lemma poll_loop_safe:
  "rx_inv s \<Longrightarrow> w \<le> budget \<Longrightarrow>
   \<exists>t w' used rest. poll_loop env budget w fifo s = Inr (t, w', rest) \<and> rx_inv t \<and>
     w \<le> w' \<and> w' \<le> budget \<and> int (length (delivered t)) = int (length (delivered s)) + (w' - w) \<and>
     fifo = used @ rest \<and> (rest = [] \<or> w' = budget)"
proof (induction fifo arbitrary: w s)
  case Nil
  then show ?case by simp
next
  case (Cons b fifo)
  show ?case
  proof (cases "w < budget")
    case False
    with Cons.prems show ?thesis by simp
  next
    case True
    obtain t d where step: "rx_switch env b s = Inr (t, d)" "rx_inv t"
      using rx_switch_inv [OF Cons.prems(1)] by blast
    have d: "d \<in> {0, 1}" "int (length (delivered t)) = int (length (delivered s)) + d"
      using rx_switch_work [OF step(1)] by auto
    with True have "w + d \<le> budget" by auto
    from Cons.IH [OF step(2) this] obtain t' w' used rest where
      "poll_loop env budget (w + d) fifo t = Inr (t', w', rest)" "rx_inv t'" "w + d \<le> w'"
      "w' \<le> budget" "int (length (delivered t')) = int (length (delivered t)) + (w' - (w + d))"
      "fifo = used @ rest" "rest = [] \<or> w' = budget"
      by blast
    with True step d show ?thesis
      by (intro exI [of _ t'] exI [of _ w'] exI [of _ "b # used"] exI [of _ rest]) auto
  qed
qed

end
