(* ===== verification/Uart_Tx.thy ===== *)
theory Uart_Tx
  imports Uart_Types
begin

text \<open>
  The transmit side of \<^verbatim>\<open>uart_net.c\<close>: the work function \<^verbatim>\<open>uartnet_tx_task\<close>, one
  definition per case of its \<^verbatim>\<open>switch\<close> (\<open>tx_step\<close>) and the loop around it
  (\<open>tx_loop\<close>). The values the flag register shows to the successive reads of the loop are the
  function \<open>fr\<close>; the loop has fuel, and running out of it is \<open>Diverges\<close>. \<open>frame_bytes\<close> is the
  reference encoding: header, escaped big-endian length, escaped data, footer. The lemmas show that
  every round of the loop writes the next byte of that encoding, that the loop stops within as many
  rounds as bytes are left, and that any interleaving with a full FIFO puts exactly the frame on
  the line.
\<close>

section \<open>The work function\<close>

definition special :: "u8 \<Rightarrow> bool" where
  "special byte \<longleftrightarrow> byte = FRAME_HEADER \<or> byte = FRAME_FOOTER \<or> byte = ESCAPE_CHAR"

text \<open>\<^verbatim>\<open>*priv->tx_current_ptr\<close>.\<close>

fun tx_deref :: "uartnet_priv \<Rightarrow> u8 result" where
  "tx_deref p = (case tx_current_ptr p of
      NullPtr \<Rightarrow> Inl NullDeref
    | LengthPtr i \<Rightarrow> if i < length (tx_length_bytes p) then Inr (tx_length_bytes p ! i) else Inl OutOfBounds
    | DataPtr i \<Rightarrow> (case tx_skb p of
          None \<Rightarrow> Inl NullDeref
        | Some skb \<Rightarrow> if i < length (skb_data skb) then Inr (skb_data skb ! i) else Inl OutOfBounds))"

declare tx_deref.simps [simp del]

fun tx_ptr_inc :: "tx_ptr \<Rightarrow> tx_ptr" where
  "tx_ptr_inc NullPtr = NullPtr"
| "tx_ptr_inc (LengthPtr i) = LengthPtr (Suc i)"
| "tx_ptr_inc (DataPtr i) = DataPtr (Suc i)"

text \<open>The byte stuffing that the length and the data cases share.\<close>

definition tx_send_byte :: "uart_sys \<Rightarrow> uart_sys result" where
  "tx_send_byte s = rbind (tx_deref (priv s)) (\<lambda>byte.
     if tx_escape_next (priv s) \<noteq> 0
     then Inr (with_priv (\<lambda>p. p\<lparr>tx_escape_next := 0, tx_current_ptr := tx_ptr_inc (tx_current_ptr p),
                 tx_current_count := tx_current_count p - 1\<rparr>)
            (writel (ucast (byte XOR 0x20)) UART_DR s))
     else if byte = FRAME_HEADER \<or> byte = FRAME_FOOTER \<or> byte = ESCAPE_CHAR
     then Inr (with_priv (\<lambda>p. p\<lparr>tx_escape_next := 1\<rparr>) (writel (ucast ESCAPE_CHAR) UART_DR s))
     else Inr (with_priv (\<lambda>p. p\<lparr>tx_current_ptr := tx_ptr_inc (tx_current_ptr p),
                 tx_current_count := tx_current_count p - 1\<rparr>)
            (writel (ucast byte) UART_DR s)))"

text \<open>The switch; the second component is the \<^verbatim>\<open>goto unlock\<close> of the footer case.\<close>

definition tx_step :: "uart_sys \<Rightarrow> (uart_sys \<times> bool) result" where
  "tx_step s = (case tx_state (priv s) of
      TX_STATE_HEADER \<Rightarrow>
        Inr (with_priv (\<lambda>p. p\<lparr>tx_state := TX_STATE_LENGTH\<rparr>) (writel (ucast FRAME_HEADER) UART_DR s), False)
    | TX_STATE_LENGTH \<Rightarrow>
        if 0 < tx_current_count (priv s)
        then rbind (tx_send_byte s) (\<lambda>t.
          if tx_current_count (priv t) = 0
          then case tx_skb (priv t) of
              None \<Rightarrow> Inl NullDeref
            | Some skb \<Rightarrow> Inr (with_priv (\<lambda>p. p\<lparr>tx_state := TX_STATE_DATA, tx_current_ptr := DataPtr 0,
                  tx_current_count := ucast (skb_len skb), tx_escape_next := 0\<rparr>) t, False)
          else Inr (t, False))
        else Inr (s, False)
    | TX_STATE_DATA \<Rightarrow>
        if 0 < tx_current_count (priv s)
        then rbind (tx_send_byte s) (\<lambda>t.
          if tx_current_count (priv t) = 0
          then Inr (with_priv (\<lambda>p. p\<lparr>tx_state := TX_STATE_FOOTER\<rparr>) t, False)
          else Inr (t, False))
        else Inr (s, False)
    | TX_STATE_FOOTER \<Rightarrow>
        (case tx_skb (priv s) of
           None \<Rightarrow> Inl NullDeref
         | Some skb \<Rightarrow>
             Inr ((with_priv (\<lambda>p. p\<lparr>tx_skb := None, tx_state := TX_STATE_IDLE\<rparr>)
               (kfree_skb skb
                 (with_stats (\<lambda>t. t\<lparr>tx_packets := tx_packets t + 1,
                      tx_bytes := tx_bytes t + ucast (skb_len skb)\<rparr>)
                   (writel (ucast FRAME_FOOTER) UART_DR s))))\<lparr>queue_stopped := False\<rparr>, True))
    | TX_STATE_IDLE \<Rightarrow> Inr (s, False))"

fun tx_loop :: "nat \<Rightarrow> (nat \<Rightarrow> u32) \<Rightarrow> nat \<Rightarrow> uart_sys \<Rightarrow> uart_sys result" where
  "tx_loop 0 fr k s = Inl Diverges"
| "tx_loop (Suc fuel) fr k s =
     (if fr k AND UART01x_FR_TXFF \<noteq> 0 \<or> tx_state (priv s) = TX_STATE_IDLE then Inr s
      else rbind (tx_step s) (\<lambda>(t, quit). if quit then Inr t else tx_loop fuel fr (Suc k) t))"

definition uartnet_tx_task :: "nat \<Rightarrow> (nat \<Rightarrow> u32) \<Rightarrow> uart_sys \<Rightarrow> uart_sys result" where
  "uartnet_tx_task fuel fr s = rbind (tx_loop fuel fr 0 s) (\<lambda>t.
     if tx_state (priv t) = TX_STATE_IDLE
     then Inr (writel (regs t UART_IMSC AND NOT UART011_TXIM) UART_IMSC t)
     else Inr t)"

section \<open>The frame on the line\<close>

definition escape :: "u8 \<Rightarrow> u8 list" where
  "escape b = (if special b then [ESCAPE_CHAR, b XOR 0x20] else [b])"

definition stuff :: "u8 list \<Rightarrow> u8 list" where
  "stuff bs = concat (map escape bs)"

text \<open>\<^verbatim>\<open>tx_length_bytes\<close> as \<^verbatim>\<open>uartnet_start_xmit\<close> fills it.\<close>

definition length_bytes :: "sk_buff \<Rightarrow> u8 list" where
  "length_bytes skb = [ucast (drop_bit 8 (skb_len skb) AND 0xFF), ucast (skb_len skb AND 0xFF)]"

definition frame_bytes :: "sk_buff \<Rightarrow> u8 list" where
  "frame_bytes skb = FRAME_HEADER # stuff (length_bytes skb) @ stuff (skb_data skb) @ [FRAME_FOOTER]"

text \<open>What is left to write: a function of the private structure alone.\<close>

definition rest_of :: "uartnet_priv \<Rightarrow> u8 list \<Rightarrow> u8 list" where
  "rest_of p bs = (if tx_escape_next p = 0 then stuff bs else tl (stuff bs))"

fun ptr_offset :: "tx_ptr \<Rightarrow> nat" where
  "ptr_offset NullPtr = 0"
| "ptr_offset (LengthPtr i) = i"
| "ptr_offset (DataPtr i) = i"

fun tx_data :: "uartnet_priv \<Rightarrow> u8 list" where
  "tx_data p = (case tx_skb p of None \<Rightarrow> [] | Some skb \<Rightarrow> skb_data skb)"

definition tx_pending :: "uartnet_priv \<Rightarrow> u8 list" where
  "tx_pending p = (case tx_state p of
      TX_STATE_IDLE \<Rightarrow> []
    | TX_STATE_HEADER \<Rightarrow> FRAME_HEADER # stuff (tx_length_bytes p) @ stuff (tx_data p) @ [FRAME_FOOTER]
    | TX_STATE_LENGTH \<Rightarrow> rest_of p (drop (ptr_offset (tx_current_ptr p)) (tx_length_bytes p))
        @ stuff (tx_data p) @ [FRAME_FOOTER]
    | TX_STATE_DATA \<Rightarrow> rest_of p (drop (ptr_offset (tx_current_ptr p)) (tx_data p)) @ [FRAME_FOOTER]
    | TX_STATE_FOOTER \<Rightarrow> [FRAME_FOOTER])"

section \<open>The invariant of the transmitter\<close>

definition sendable :: "sk_buff \<Rightarrow> bool" where
  "sendable skb \<longleftrightarrow> 0 < length (skb_data skb) \<and> length (skb_data skb) < 2 ^ 16"

definition at_byte :: "uartnet_priv \<Rightarrow> u8 list \<Rightarrow> nat \<Rightarrow> bool" where
  "at_byte p bs i \<longleftrightarrow> i < length bs \<and> unat (tx_current_count p) = length bs - i \<and>
     (tx_escape_next p \<noteq> 0 \<longrightarrow> special (bs ! i))"

definition tx_wf :: "uartnet_priv \<Rightarrow> bool" where
  "tx_wf p \<longleftrightarrow>
     (case tx_skb p of
        None \<Rightarrow> tx_state p = TX_STATE_IDLE
      | Some skb \<Rightarrow> sendable skb \<and> tx_length_bytes p = length_bytes skb \<and>
          (case tx_state p of
             TX_STATE_IDLE \<Rightarrow> False
           | TX_STATE_HEADER \<Rightarrow> tx_current_ptr p = LengthPtr 0 \<and> tx_current_count p = 2 \<and> tx_escape_next p = 0
           | TX_STATE_LENGTH \<Rightarrow> (\<exists>i. tx_current_ptr p = LengthPtr i \<and> at_byte p (length_bytes skb) i)
           | TX_STATE_DATA \<Rightarrow> (\<exists>i. tx_current_ptr p = DataPtr i \<and> at_byte p (skb_data skb) i)
           | TX_STATE_FOOTER \<Rightarrow> True))"

section \<open>Lemmas\<close>

lemma stuff_simps [simp]:
  "stuff [] = []" "stuff (b # bs) = escape b @ stuff bs"
  by (simp_all add: stuff_def)

lemma length_length_bytes [simp]: "length (length_bytes skb) = 2"
  by (simp add: length_bytes_def)

text \<open>The pointer moves on after a plain byte or the second half of an escape.\<close>

definition tx_advance :: "uartnet_priv \<Rightarrow> uartnet_priv" where
  "tx_advance p = p\<lparr>tx_escape_next := 0, tx_current_ptr := tx_ptr_inc (tx_current_ptr p),
     tx_current_count := tx_current_count p - 1\<rparr>"

lemma tx_advance_sel [simp]:
  "tx_escape_next (tx_advance p) = 0" "tx_current_ptr (tx_advance p) = tx_ptr_inc (tx_current_ptr p)"
  "tx_current_count (tx_advance p) = tx_current_count p - 1" "tx_skb (tx_advance p) = tx_skb p"
  "tx_state (tx_advance p) = tx_state p" "tx_length_bytes (tx_advance p) = tx_length_bytes p"
  by (simp_all add: tx_advance_def)

lemma tx_send_byte_eq:
  assumes "tx_deref (priv s) = Inr b"
  shows "tx_send_byte s = Inr
    (if tx_escape_next (priv s) = 0 \<and> special b
     then with_priv (\<lambda>p. p\<lparr>tx_escape_next := 1\<rparr>) (writel (ucast ESCAPE_CHAR) UART_DR s)
     else with_priv tx_advance
        (writel (ucast (if tx_escape_next (priv s) = 0 then b else b XOR 0x20)) UART_DR s))"
  using assms by (simp add: tx_send_byte_def tx_advance_def special_def)

text \<open>
  One byte of a buffer: the first byte of what is left is the byte written, and what is left
  afterwards is the tail.
\<close>

lemma rest_of_split:
  assumes "at_byte p bs i"
  shows "rest_of p (drop i bs) =
    (if tx_escape_next p = 0 \<and> special (bs ! i)
     then ESCAPE_CHAR # rest_of (p\<lparr>tx_escape_next := 1\<rparr>) (drop i bs)
     else (if tx_escape_next p = 0 then bs ! i else bs ! i XOR 0x20)
          # stuff (drop (Suc i) bs))"
  using assms by (auto simp: rest_of_def at_byte_def escape_def Cons_nth_drop_Suc [symmetric])

lemma at_byte_advance:
  assumes "at_byte p bs i" "tx_current_count p - 1 \<noteq> 0"
  shows "at_byte (tx_advance p) bs (Suc i)"
proof -
  from assms have "tx_current_count p \<noteq> 0" by (auto simp: at_byte_def)
  then have "unat (tx_current_count p - 1) = unat (tx_current_count p) - 1" by (rule unat_dec)
  with assms show ?thesis
    by (auto simp: at_byte_def word_unat_eq_iff)
qed

lemma at_byte_last:
  assumes "at_byte p bs i" "tx_current_count p - 1 = 0"
  shows "drop (Suc i) bs = []"
proof -
  from assms have "unat (tx_current_count p) = 1" by (metis diff_eq_eq add_0 unat_1)
  with assms show ?thesis by (auto simp: at_byte_def)
qed

lemma at_byte_pos: "at_byte p bs i \<Longrightarrow> 0 < tx_current_count p"
  by (auto simp: at_byte_def word_gt_0)

lemma sendable_count: "sendable skb \<Longrightarrow> unat (ucast (skb_len skb) :: u16) = length (skb_data skb)"
  by (simp add: sendable_def skb_len_def unat_of_nat take_bit_nat_eq_self unsigned_ucast_eq)

lemma at_byte_0:
  "sendable skb \<Longrightarrow> tx_escape_next p = 0 \<Longrightarrow> tx_current_count p = ucast (skb_len skb) \<Longrightarrow>
     at_byte p (skb_data skb) 0"
  by (simp add: at_byte_def sendable_count) (simp add: sendable_def)

text \<open>
  The step lemma: in every busy state the switch succeeds, keeps the invariant, and moves the first
  pending byte to the line; it leaves the loop exactly when it goes idle.
\<close>

definition tx_step_ok :: "uart_sys \<Rightarrow> bool" where
  "tx_step_ok s \<longleftrightarrow> (\<exists>t q b. tx_step s = Inr (t, q) \<and> tx_wf (priv t) \<and> line_out t = line_out s @ [b] \<and>
     tx_pending (priv s) = b # tx_pending (priv t) \<and> (q \<longleftrightarrow> tx_state (priv t) = TX_STATE_IDLE))"

lemma tx_step_header:
  assumes "tx_wf (priv s)" "tx_state (priv s) = TX_STATE_HEADER"
  shows "tx_step_ok s"
  using assms
  by (auto simp: tx_step_ok_def tx_step_def tx_wf_def tx_pending_def rest_of_def at_byte_def
      split: option.splits)

lemma tx_step_footer:
  assumes "tx_wf (priv s)" "tx_state (priv s) = TX_STATE_FOOTER"
  shows "tx_step_ok s"
  using assms
  by (auto simp: tx_step_ok_def tx_step_def tx_wf_def tx_pending_def split: option.splits)

lemma tx_step_length:
  assumes wf: "tx_wf (priv s)" and st: "tx_state (priv s) = TX_STATE_LENGTH"
  shows "tx_step_ok s"
proof -
  let ?p = "priv s"
  from wf st obtain skb i where skb: "tx_skb ?p = Some skb" "sendable skb"
    "tx_length_bytes ?p = length_bytes skb" "tx_current_ptr ?p = LengthPtr i"
    and at: "at_byte ?p (length_bytes skb) i"
    by (auto simp: tx_wf_def split: option.splits)
  from at skb have deref: "tx_deref ?p = Inr (length_bytes skb ! i)"
    by (simp add: at_byte_def tx_deref.simps)
  note send = tx_send_byte_eq [OF deref] and rest = rest_of_split [OF at] and pos = at_byte_pos [OF at]
  consider (esc) "tx_escape_next ?p = 0" "special (length_bytes skb ! i)"
    | (mid) "\<not> (tx_escape_next ?p = 0 \<and> special (length_bytes skb ! i))" "tx_current_count ?p - 1 \<noteq> 0"
    | (last) "\<not> (tx_escape_next ?p = 0 \<and> special (length_bytes skb ! i))" "tx_current_count ?p - 1 = 0"
    by blast
  then show ?thesis
  proof cases
    case esc
    with skb st at send rest pos show ?thesis
      by (auto simp: tx_step_ok_def tx_step_def tx_pending_def tx_wf_def rest_of_def at_byte_def)
  next
    case mid
    from at_byte_advance [OF at mid(2)] skb st send rest pos mid show ?thesis
      by (auto simp: tx_step_ok_def tx_step_def tx_pending_def tx_wf_def rest_of_def)
  next
    case last
    from at_byte_last [OF at last(2)] skb st send rest pos last show ?thesis
      by (auto simp: tx_step_ok_def tx_step_def tx_pending_def tx_wf_def rest_of_def intro: at_byte_0)
  qed
qed

lemma tx_step_data:
  assumes wf: "tx_wf (priv s)" and st: "tx_state (priv s) = TX_STATE_DATA"
  shows "tx_step_ok s"
proof -
  let ?p = "priv s"
  from wf st obtain skb i where skb: "tx_skb ?p = Some skb" "sendable skb"
    "tx_length_bytes ?p = length_bytes skb" "tx_current_ptr ?p = DataPtr i"
    and at: "at_byte ?p (skb_data skb) i"
    by (auto simp: tx_wf_def split: option.splits)
  from at skb have deref: "tx_deref ?p = Inr (skb_data skb ! i)"
    by (simp add: at_byte_def tx_deref.simps)
  note send = tx_send_byte_eq [OF deref] and rest = rest_of_split [OF at] and pos = at_byte_pos [OF at]
  consider (esc) "tx_escape_next ?p = 0" "special (skb_data skb ! i)"
    | (mid) "\<not> (tx_escape_next ?p = 0 \<and> special (skb_data skb ! i))" "tx_current_count ?p - 1 \<noteq> 0"
    | (last) "\<not> (tx_escape_next ?p = 0 \<and> special (skb_data skb ! i))" "tx_current_count ?p - 1 = 0"
    by blast
  then show ?thesis
  proof cases
    case esc
    with skb st at send rest pos show ?thesis
      by (auto simp: tx_step_ok_def tx_step_def tx_pending_def tx_wf_def rest_of_def at_byte_def)
  next
    case mid
    from at_byte_advance [OF at mid(2)] skb st send rest pos mid show ?thesis
      by (auto simp: tx_step_ok_def tx_step_def tx_pending_def tx_wf_def rest_of_def)
  next
    case last
    from at_byte_last [OF at last(2)] skb st send rest pos last show ?thesis
      by (auto simp: tx_step_ok_def tx_step_def tx_pending_def tx_wf_def rest_of_def)
  qed
qed

lemma tx_step_emits:
  assumes "tx_wf (priv s)" "tx_state (priv s) \<noteq> TX_STATE_IDLE"
  shows "tx_step_ok s"
  using assms tx_step_header tx_step_length tx_step_data tx_step_footer
  by (cases "tx_state (priv s)") auto

text \<open>What the switch leaves alone, and what becomes of the buffer.\<close>

definition rx_part ::
  "uartnet_priv \<Rightarrow> uartnet_rx_state \<times> uartnet_rx_state \<times> sk_buff option \<times> u16 \<times> u16 \<times> u8 list \<times> u8" where
  "rx_part p = (rx_state p, saved_state p, rx_skb p, rx_frame_length p, rx_data_received p,
     rx_length_bytes p, rx_length_index p)"

definition same_env :: "uart_sys \<Rightarrow> uart_sys \<Rightarrow> bool" where
  "same_env s t \<longleftrightarrow> rx_part (priv t) = rx_part (priv s) \<and> delivered t = delivered s \<and>
     netif_running t = netif_running s \<and> netif_device_present t = netif_device_present s \<and>
     napi_enabled t = napi_enabled s \<and> napi_scheduled t = napi_scheduled s \<and>
     work_queued t = work_queued s \<and> irq_actions t = irq_actions s \<and> alloc_count t = alloc_count s \<and>
     tx_dropped (stats t) = tx_dropped (stats s)"

lemma same_env_refl [simp]: "same_env s s"
  by (simp add: same_env_def)

lemma same_env_trans: "same_env s t \<Longrightarrow> same_env t u \<Longrightarrow> same_env s u"
  by (simp add: same_env_def)

lemma tx_send_byte_frame:
  assumes "tx_send_byte s = Inr t"
  shows "same_env s t" "regs t UART_IMSC = regs s UART_IMSC"
    "queue_stopped t = queue_stopped s" "freed t = freed s" "tx_skb (priv t) = tx_skb (priv s)"
    "tx_state (priv t) = tx_state (priv s)" "stats t = stats s"
proof -
  obtain b where "tx_deref (priv s) = Inr b"
    using assms by (auto simp: tx_send_byte_def)
  from tx_send_byte_eq [OF this] assms
  have "t \<in> {with_priv (\<lambda>p. p\<lparr>tx_escape_next := 1\<rparr>) (writel (ucast ESCAPE_CHAR) UART_DR s),
      with_priv tx_advance
        (writel (ucast (if tx_escape_next (priv s) = 0 then b else b XOR 0x20)) UART_DR s)}"
    by (simp split: if_splits)
  then show "same_env s t" "regs t UART_IMSC = regs s UART_IMSC"
    "queue_stopped t = queue_stopped s" "freed t = freed s" "tx_skb (priv t) = tx_skb (priv s)"
    "tx_state (priv t) = tx_state (priv s)" "stats t = stats s"
    by (auto simp: same_env_def rx_part_def tx_advance_def)
qed

text \<open>Inversion of the switch: which case was taken.\<close>

lemma tx_stepE:
  assumes "tx_step s = Inr (t, q)"
  obtains
    (nothing) "t = s" "\<not> q"
  | (header) "t = with_priv (\<lambda>p. p\<lparr>tx_state := TX_STATE_LENGTH\<rparr>) (writel (ucast FRAME_HEADER) UART_DR s)" "\<not> q"
  | (byte) "tx_send_byte s = Inr t" "\<not> q"
  | (last_length) u skb where "tx_send_byte s = Inr u" "\<not> q"
      "t = with_priv (\<lambda>p. p\<lparr>tx_state := TX_STATE_DATA, tx_current_ptr := DataPtr 0,
         tx_current_count := ucast (skb_len skb), tx_escape_next := 0\<rparr>) u"
  | (last_data) u where "tx_send_byte s = Inr u" "\<not> q"
      "t = with_priv (\<lambda>p. p\<lparr>tx_state := TX_STATE_FOOTER\<rparr>) u"
  | (footer) skb where "tx_skb (priv s) = Some skb" q
      "t = (with_priv (\<lambda>p. p\<lparr>tx_skb := None, tx_state := TX_STATE_IDLE\<rparr>)
               (kfree_skb skb
                 (with_stats (\<lambda>t. t\<lparr>tx_packets := tx_packets t + 1,
                      tx_bytes := tx_bytes t + ucast (skb_len skb)\<rparr>)
                   (writel (ucast FRAME_FOOTER) UART_DR s))))\<lparr>queue_stopped := False\<rparr>"
proof (cases "tx_state (priv s)")
  case TX_STATE_IDLE
  with assms have "t = s" "\<not> q" by (simp_all add: tx_step_def)
  then show thesis by (rule nothing)
next
  case TX_STATE_HEADER
  with assms header show thesis by (auto simp: tx_step_def)
next
  case TX_STATE_LENGTH
  show thesis
  proof (cases "0 < tx_current_count (priv s)")
    case True
    with TX_STATE_LENGTH assms byte last_length show thesis
      by (auto simp: tx_step_def split: if_splits option.splits)
  next
    case False
    with TX_STATE_LENGTH assms have "t = s" "\<not> q" by (simp_all add: tx_step_def)
    then show thesis by (rule nothing)
  qed
next
  case TX_STATE_DATA
  show thesis
  proof (cases "0 < tx_current_count (priv s)")
    case True
    with TX_STATE_DATA assms byte last_data show thesis
      by (auto simp: tx_step_def split: if_splits)
  next
    case False
    with TX_STATE_DATA assms have "t = s" "\<not> q" by (simp_all add: tx_step_def)
    then show thesis by (rule nothing)
  qed
next
  case TX_STATE_FOOTER
  with assms footer show thesis by (auto simp: tx_step_def split: option.splits)
qed

lemma tx_step_frame:
  assumes "tx_step s = Inr (t, q)"
  shows "same_env s t" "regs t UART_IMSC = regs s UART_IMSC"
proof -
  have "same_env s t \<and> regs t UART_IMSC = regs s UART_IMSC"
    using assms
  proof (cases rule: tx_stepE)
    case byte
    then show ?thesis using tx_send_byte_frame by simp
  next
    case (last_length u skb)
    then show ?thesis using tx_send_byte_frame [of s u] by (simp add: same_env_def rx_part_def)
  next
    case (last_data u)
    then show ?thesis using tx_send_byte_frame [of s u] by (simp add: same_env_def rx_part_def)
  qed (simp_all add: same_env_def rx_part_def)
  then show "same_env s t" "regs t UART_IMSC = regs s UART_IMSC" by simp_all
qed

lemma tx_step_busy:
  assumes "tx_step s = Inr (t, False)"
  shows "queue_stopped t = queue_stopped s \<and> freed t = freed s \<and> tx_skb (priv t) = tx_skb (priv s) \<and>
     stats t = stats s"
  using assms by (cases rule: tx_stepE) (auto dest: tx_send_byte_frame)

lemma tx_step_quit:
  assumes "tx_step s = Inr (t, True)" "tx_skb (priv s) = Some skb"
  shows "\<not> queue_stopped t \<and> freed t = freed s @ [skb] \<and> tx_packets (stats t) = tx_packets (stats s) + 1"
  using assms by (cases rule: tx_stepE) auto

lemma tx_pending_idle: "tx_wf p \<Longrightarrow> tx_pending p = [] \<longleftrightarrow> tx_state p = TX_STATE_IDLE"
  by (auto simp: tx_pending_def split: uartnet_tx_state.splits)

lemma tx_wf_skb: "tx_wf p \<Longrightarrow> tx_skb p = None \<longleftrightarrow> tx_state p = TX_STATE_IDLE"
  by (auto simp: tx_wf_def split: option.splits uartnet_tx_state.splits)

section \<open>The loop and the work function\<close>

text \<open>
  The outcome of a run of the loop from \<open>s\<close> to \<open>t\<close> that wrote \<open>n\<close> bytes.
\<close>

definition tx_outcome :: "uart_sys \<Rightarrow> nat \<Rightarrow> uart_sys \<Rightarrow> bool" where
  "tx_outcome s n t \<longleftrightarrow> tx_wf (priv t) \<and> n \<le> length (tx_pending (priv s)) \<and>
     line_out t = line_out s @ take n (tx_pending (priv s)) \<and>
     tx_pending (priv t) = drop n (tx_pending (priv s)) \<and> same_env s t \<and>
     (if tx_state (priv t) = TX_STATE_IDLE \<and> tx_state (priv s) \<noteq> TX_STATE_IDLE
      then freed t = freed s @ [the (tx_skb (priv s))] \<and> \<not> queue_stopped t \<and>
           tx_packets (stats t) = tx_packets (stats s) + 1
      else freed t = freed s \<and> tx_skb (priv t) = tx_skb (priv s) \<and> queue_stopped t = queue_stopped s \<and>
           stats t = stats s)"

lemma tx_outcome_refl: "tx_wf (priv s) \<Longrightarrow> tx_outcome s 0 s"
  by (simp add: tx_outcome_def)

lemma tx_outcome_Cons:
  assumes step: "tx_step s = Inr (t, False)" "tx_pending (priv s) = b # tx_pending (priv t)"
    "line_out t = line_out s @ [b]" "tx_state (priv s) \<noteq> TX_STATE_IDLE"
    "tx_state (priv t) \<noteq> TX_STATE_IDLE" and out: "tx_outcome t n u"
  shows "tx_outcome s (Suc n) u"
  using out step(2-) tx_step_busy [OF step(1)] same_env_trans [OF tx_step_frame(1) [OF step(1)]]
  by (auto simp: tx_outcome_def)

lemma tx_loop_outcome:
  "tx_wf (priv s) \<Longrightarrow> length (tx_pending (priv s)) < fuel \<Longrightarrow>
   \<exists>n t. tx_loop fuel fr k s = Inr t \<and> tx_outcome s n t \<and> regs t UART_IMSC = regs s UART_IMSC \<and>
     (tx_state (priv t) = TX_STATE_IDLE \<or> fr (k + n) AND UART01x_FR_TXFF \<noteq> 0) \<and>
     (\<forall>j<n. fr (k + j) AND UART01x_FR_TXFF = 0)"
proof (induction fuel arbitrary: k s)
  case 0
  then show ?case by simp
next
  case (Suc fuel)
  show ?case
  proof (cases "fr k AND UART01x_FR_TXFF \<noteq> 0 \<or> tx_state (priv s) = TX_STATE_IDLE")
    case True
    then show ?thesis
      using tx_outcome_refl [OF Suc.prems(1)] by (intro exI [of _ 0]) auto
  next
    case go: False
    then obtain t q b where step: "tx_step s = Inr (t, q)" "tx_wf (priv t)" "line_out t = line_out s @ [b]"
      "tx_pending (priv s) = b # tx_pending (priv t)" "q \<longleftrightarrow> tx_state (priv t) = TX_STATE_IDLE"
      using tx_step_emits [OF Suc.prems(1)] by (auto simp: tx_step_ok_def)
    have frame: "same_env s t" "regs t UART_IMSC = regs s UART_IMSC"
      using tx_step_frame [OF step(1)] by auto
    show ?thesis
    proof (cases q)
      case True
      from go obtain skb where skb: "tx_skb (priv s) = Some skb"
        using tx_wf_skb [OF Suc.prems(1)] by auto
      have "tx_outcome s 1 t"
        using step True frame(1) skb tx_step_quit [OF step(1) [unfolded eqTrueI [OF True]] skb]
          tx_pending_idle [OF step(2)] go
        by (auto simp: tx_outcome_def)
      with go step True frame show ?thesis by (intro exI [of _ 1] exI [of _ t]) auto
    next
      case False
      with Suc.prems step have "length (tx_pending (priv t)) < fuel" by simp
      from Suc.IH [OF step(2) this, of "Suc k"] obtain n u where
        u: "tx_loop fuel fr (Suc k) t = Inr u" "tx_outcome t n u" "regs u UART_IMSC = regs t UART_IMSC"
          "tx_state (priv u) = TX_STATE_IDLE \<or> fr (Suc k + n) AND UART01x_FR_TXFF \<noteq> 0"
          "\<forall>j<n. fr (Suc k + j) AND UART01x_FR_TXFF = 0"
        by blast
      have "tx_outcome s (Suc n) u"
        using False step go u(2) by (intro tx_outcome_Cons [of s t b]) auto
      moreover have "\<forall>j<Suc n. fr (k + j) AND UART01x_FR_TXFF = 0"
        using u(5) go by (auto simp: less_Suc_eq_0_disj)
      ultimately show ?thesis
        using go step(1) False frame u by (intro exI [of _ "Suc n"] exI [of _ u]) auto
    qed
  qed
qed

lemma tx_task_outcome:
  assumes "tx_wf (priv s)" "length (tx_pending (priv s)) < fuel"
  obtains n t where "uartnet_tx_task fuel fr s = Inr t" "tx_outcome s n t"
    "tx_state (priv t) = TX_STATE_IDLE \<or> fr n AND UART01x_FR_TXFF \<noteq> 0"
    "\<forall>j<n. fr j AND UART01x_FR_TXFF = 0"
    "regs t UART_IMSC = (if tx_state (priv t) = TX_STATE_IDLE
       then regs s UART_IMSC AND NOT UART011_TXIM else regs s UART_IMSC)"
proof -
  from tx_loop_outcome [OF assms, of fr 0] obtain n t where
    t: "tx_loop fuel fr 0 s = Inr t" "tx_outcome s n t" "regs t UART_IMSC = regs s UART_IMSC"
      "tx_state (priv t) = TX_STATE_IDLE \<or> fr n AND UART01x_FR_TXFF \<noteq> 0"
      "\<forall>j<n. fr j AND UART01x_FR_TXFF = 0"
    by auto
  let ?u = "if tx_state (priv t) = TX_STATE_IDLE
    then writel (regs t UART_IMSC AND NOT UART011_TXIM) UART_IMSC t else t"
  show thesis
  proof (rule that [of ?u n])
    show "uartnet_tx_task fuel fr s = Inr ?u"
      using t(1) by (simp add: uartnet_tx_task_def)
    show "tx_outcome s n ?u"
      using t(2) by (simp add: tx_outcome_def same_env_def)
  qed (use t in auto)
qed

text \<open>
  A frame with no data never leaves \<^verbatim>\<open>TX_STATE_DATA\<close>: with room in the FIFO the loop, which
  holds the transmit lock, goes round for ever.
\<close>

lemma tx_loop_stuck:
  assumes "tx_state (priv s) = TX_STATE_DATA" "tx_current_count (priv s) = 0"
    and "\<And>j. fr j AND UART01x_FR_TXFF = 0"
  shows "tx_loop fuel fr k s = Inl Diverges"
  using assms by (induction fuel arbitrary: k) (simp_all add: tx_step_def)

end
