(* ===== verification/Uart_Link.thy ===== *)
theory Uart_Link
  imports Uart_Rx Uart_Tx
begin

text \<open>
  The wire between two \<^verbatim>\<open>uart_net\<close> drivers: the receiver of \<open>Uart_Rx\<close> fed with the
  bytes that the transmitter of \<open>Uart_Tx\<close> writes. The theory shows which frames survive the link:
  exactly those in which the escape character does not occur, because the receiver restarts its
  state machine on the unescaped byte and takes an unescaped 0x5A for the start of a new escape.
\<close>

section \<open>Feeding bytes to the receiver\<close>

definition rx_feed :: "uart_env \<Rightarrow> uart_sys \<Rightarrow> u8 \<Rightarrow> uart_sys result" where
  "rx_feed env s b = rbind (rx_switch env b s) (\<lambda>(t, d). Inr t)"

interpretation rx: safe_steps "rx_feed env" rx_inv "\<lambda>_. True" for env
proof
  fix s b
  assume "rx_inv s"
  then show "\<exists>t. rx_feed env s b = Inr t \<and> rx_inv t"
    using rx_switch_inv [of s env b] by (auto simp: rx_feed_def)
qed

text \<open>The poll loop consumes its bytes as a run of the receiver, whatever its budget.\<close>

lemma poll_loop_feeds:
  "poll_loop env budget w fifo s = Inr (t, w', rest) \<Longrightarrow>
     \<exists>used. fifo = used @ rest \<and> run_steps (rx_feed env) s used = Inr t"
proof (induction fifo arbitrary: w s)
  case Nil
  then show ?case by simp
next
  case (Cons b fifo)
  show ?case
  proof (cases "w < budget")
    case True
    with Cons.prems obtain u d where u: "rx_switch env b s = Inr (u, d)"
      "poll_loop env budget (w + d) fifo u = Inr (t, w', rest)"
      by auto
    from Cons.IH [OF u(2)] obtain used where
      "fifo = used @ rest" "run_steps (rx_feed env) u used = Inr t" by blast
    moreover have "rx_feed env s b = Inr u" using u(1) by (simp add: rx_feed_def)
    ultimately show ?thesis by (intro exI [of _ "b # used"]) simp
  next
    case False
    with Cons.prems show ?thesis by simp
  qed
qed

lemma feed_Inr: "rx_feed env s b = Inr t \<longleftrightarrow> (\<exists>d. rx_switch env b s = Inr (t, d))"
  by (auto simp: rx_feed_def)

lemma feed_delivers_more: "run_steps (rx_feed env) s bs = Inr t \<Longrightarrow> length (delivered s) \<le> length (delivered t)"
proof (induction bs arbitrary: s)
  case (Cons b bs)
  then obtain u d where "rx_switch env b s = Inr (u, d)" "run_steps (rx_feed env) u bs = Inr t" by (auto simp: feed_Inr)
  then show ?case using rx_switch_work [of env b s u d] Cons.IH [of u] by auto
qed simp

text \<open>With more budget than frames, the poll loop feeds all bytes of the FIFO to the state machine.\<close>

lemma poll_loop_all:
  assumes "run_steps (rx_feed env) s fifo = Inr t" "w + int (length (delivered t)) - int (length (delivered s)) < budget"
  shows "poll_loop env budget w fifo s = Inr (t, w + int (length (delivered t)) - int (length (delivered s)), [])"
  using assms
proof (induction fifo arbitrary: w s)
  case (Cons b fifo)
  from Cons.prems(1) obtain u d where u: "rx_switch env b s = Inr (u, d)" "run_steps (rx_feed env) u fifo = Inr t"
    by (auto simp: feed_Inr)
  have d: "d \<in> {0, 1}" "int (length (delivered u)) = int (length (delivered s)) + d" using rx_switch_work [OF u(1)] by auto
  have "int (length (delivered u)) \<le> int (length (delivered t))"
    using feed_delivers_more [OF u(2)] by simp
  with d Cons.prems(2) have "w < budget" by auto
  moreover have "w + d + int (length (delivered t)) - int (length (delivered u)) < budget"
    using d(2) Cons.prems(2) by simp
  ultimately show ?case using u Cons.IH [OF u(2), of "w + d"] d(2) by simp
qed simp

text \<open>What the state machine sees of a state; it depends on nothing else.\<close>

definition same_rx :: "uart_sys \<Rightarrow> uart_sys \<Rightarrow> bool" where
  "same_rx s t \<longleftrightarrow> rx_part (priv t) = rx_part (priv s) \<and> delivered t = delivered s \<and> alloc_count t = alloc_count s"

lemma same_rx_refl [simp]: "same_rx s s"
  by (simp add: same_rx_def)

lemma same_rx_trans: "same_rx s t \<Longrightarrow> same_rx t u \<Longrightarrow> same_rx s u"
  by (simp add: same_rx_def)

lemma put_length_sim:
  "same_rx s s' \<Longrightarrow> rx_put_length env b s = Inr t \<Longrightarrow> \<exists>t'. rx_put_length env b s' = Inr t' \<and> same_rx t t'"
  by (auto simp: rx_put_length_def same_rx_def rx_part_def Let_def split: if_splits)

lemma put_data_sim:
  "same_rx s s' \<Longrightarrow> rx_put_data b s = Inr t \<Longrightarrow> \<exists>t'. rx_put_data b s' = Inr t' \<and> same_rx t t'"
  by (auto simp: rx_put_data_def same_rx_def rx_part_def Let_def split: if_splits option.splits)

lemma body_sim:
  "same_rx s s' \<Longrightarrow> rx_body env b s = Inr t \<Longrightarrow> \<exists>t'. rx_body env b s' = Inr t' \<and> same_rx t t'"
  using put_length_sim [of s s' env b t] put_data_sim [of s s' b t]
  by (auto simp: rx_body_def same_rx_def rx_part_def split: if_splits)

lemma end_sim:
  assumes "same_rx s s'"
  shows "same_rx (fst (rx_end env b s)) (fst (rx_end env b s'))" "snd (rx_end env b s') = snd (rx_end env b s)"
  using assms by (auto simp: rx_end_def same_rx_def rx_part_def Let_def split: option.splits)

lemma dispatch_sim:
  assumes "same_rx s s'" "rx_dispatch env b s = Inr (t, d)"
  shows "\<exists>t'. rx_dispatch env b s' = Inr (t', d) \<and> same_rx t t'"
proof -
  have st: "rx_state (priv s') = rx_state (priv s)" using assms(1) by (simp add: same_rx_def rx_part_def)
  show ?thesis
  proof (cases "rx_state (priv s)")
    case UARTNET_STATE_IDLE
    with assms st show ?thesis by (auto simp: rx_dispatch_def rx_idle_def same_rx_def rx_part_def)
  next
    case UARTNET_STATE_END
    with assms st show ?thesis using end_sim [OF assms(1), of env b]
      by (cases "rx_end env b s'") (auto simp: rx_dispatch_def)
  qed (use assms st body_sim [OF assms(1)] in \<open>fastforce simp: rx_dispatch_def\<close>)+
qed

lemma feed_sim:
  assumes "same_rx s s'" "rx_feed env s b = Inr t"
  shows "\<exists>t'. rx_feed env s' b = Inr t' \<and> same_rx t t'"
proof -
  obtain d where d: "rx_switch env b s = Inr (t, d)" using assms(2) by (auto simp: rx_feed_def)
  have st: "rx_state (priv s') = rx_state (priv s)" using assms(1) by (simp add: same_rx_def rx_part_def)
  have restored: "same_rx (with_priv (\<lambda>p. p\<lparr>rx_state := saved_state p\<rparr>) s) (with_priv (\<lambda>p. p\<lparr>rx_state := saved_state p\<rparr>) s')"
    using assms(1) by (simp add: same_rx_def rx_part_def)
  obtain t' where "rx_switch env b s' = Inr (t', d)" "same_rx t t'"
    using d st dispatch_sim [OF restored, of env "b XOR 0x20" t d] dispatch_sim [OF assms(1), of env b t d]
    by (auto simp: rx_switch_def split: if_splits)
  then show ?thesis by (simp add: rx_feed_def)
qed

lemma feeds_sim:
  "same_rx s s' \<Longrightarrow> run_steps (rx_feed env) s bs = Inr t \<Longrightarrow> \<exists>t'. run_steps (rx_feed env) s' bs = Inr t' \<and> same_rx t t'"
proof (induction bs arbitrary: s s')
  case (Cons b bs)
  then obtain u where u: "rx_feed env s b = Inr u" "run_steps (rx_feed env) u bs = Inr t" by auto
  with Cons.prems obtain u' where "rx_feed env s' b = Inr u'" "same_rx u u'" using feed_sim by blast
  with u(2) Cons.IH show ?case by auto
qed simp

section \<open>One frame\<close>

lemma xor_20_20 [simp]: "((b :: u8) XOR 0x20) XOR 0x20 = b"
  by (simp add: xor.assoc)

text \<open>An escaped byte has the effect of the byte itself, unless it is the escape character.\<close>

lemma feed_escape:
  assumes st: "rx_state (priv s) \<in> {UARTNET_STATE_LENGTH, UARTNET_STATE_DATA}"
  shows "run_steps (rx_feed env) s (escape b) =
    rx_body env b (if special b then with_priv (\<lambda>p. p\<lparr>saved_state := rx_state p\<rparr>) s else s)"
proof -
  have one: "rx_feed env u c = rx_body env c u"
    if "rx_state (priv u) \<in> {UARTNET_STATE_LENGTH, UARTNET_STATE_DATA}" for u c
    using that by (cases "rx_body env c u") (auto simp: rx_feed_def rx_switch_def rx_dispatch_def)
  show ?thesis
  proof (cases "special b")
    case False
    with st show ?thesis by (cases "rx_body env b s") (auto simp: escape_def one)
  next
    case True
    let ?e = "with_priv (\<lambda>p. p\<lparr>saved_state := rx_state p, rx_state := UARTNET_STATE_ESCAPE\<rparr>) s"
    let ?r = "with_priv (\<lambda>p. p\<lparr>saved_state := rx_state p\<rparr>) s"
    have "rx_feed env s ESCAPE_CHAR = Inr ?e"
      using st by (simp add: one rx_body_def)
    moreover have "rx_feed env ?e (b XOR 0x20) = rx_body env b ?r"
      using st by (cases "rx_body env b ?r") (auto simp: rx_feed_def rx_switch_def rx_dispatch_def)
    ultimately show ?thesis
      using True by (cases "rx_body env b ?r") (simp_all add: escape_def)
  qed
qed

text \<open>The receiver in the middle of a frame: \<open>pre\<close> has arrived of \<open>n\<close> announced bytes.\<close>

definition rx_at :: "uart_sys \<Rightarrow> uartnet_rx_state \<Rightarrow> u8 list \<Rightarrow> nat \<Rightarrow> bool" where
  "rx_at s st pre n \<longleftrightarrow> rx_state (priv s) = st \<and>
     rx_skb (priv s) = Some \<lparr>skb_data = pre, skb_room = n\<rparr> \<and>
     unat (rx_data_received (priv s)) = length pre \<and> unat (rx_frame_length (priv s)) = n"

lemma body_data_byte:
  assumes at: "rx_at s UARTNET_STATE_DATA pre n" and lt: "length pre < n" and b: "b \<noteq> ESCAPE_CHAR"
  shows "\<exists>t. rx_body env b s = Inr t \<and>
    rx_at t (if Suc (length pre) = n then UARTNET_STATE_END else UARTNET_STATE_DATA) (pre @ [b]) n \<and>
    delivered t = delivered s \<and> alloc_count t = alloc_count s \<and> stats t = stats s"
proof -
  let ?p = "priv s"
  from at lt have less: "rx_data_received ?p < rx_frame_length ?p"
    by (simp add: rx_at_def word_less_nat_alt)
  have suc: "unat (rx_data_received ?p + 1) = Suc (length pre)"
    using unat_inc [OF less] at by (simp add: rx_at_def)
  have le: "rx_frame_length ?p \<le> rx_data_received ?p + 1 \<longleftrightarrow> Suc (length pre) = n"
    using at lt suc by (auto simp: rx_at_def word_le_nat_alt)
  from at lt b less suc le show ?thesis
    by (auto simp: rx_body_def rx_put_data_def rx_at_def Let_def)
qed

lemma feed_data_byte:
  assumes at: "rx_at s UARTNET_STATE_DATA pre n" and lt: "length pre < n" and b: "b \<noteq> ESCAPE_CHAR"
  obtains t where "run_steps (rx_feed env) s (escape b) = Inr t"
    "rx_at t (if Suc (length pre) = n then UARTNET_STATE_END else UARTNET_STATE_DATA) (pre @ [b]) n"
    "delivered t = delivered s" "alloc_count t = alloc_count s" "stats t = stats s"
proof -
  let ?s = "if special b then with_priv (\<lambda>p. p\<lparr>saved_state := rx_state p\<rparr>) s else s"
  have eq: "run_steps (rx_feed env) s (escape b) = rx_body env b ?s"
    using at by (intro feed_escape) (simp add: rx_at_def)
  have "rx_at ?s UARTNET_STATE_DATA pre n" using at by (simp add: rx_at_def)
  from body_data_byte [OF this lt b, of env] obtain t where t: "rx_body env b ?s = Inr t"
    "rx_at t (if Suc (length pre) = n then UARTNET_STATE_END else UARTNET_STATE_DATA) (pre @ [b]) n"
    "delivered t = delivered ?s" "alloc_count t = alloc_count ?s" "stats t = stats ?s"
    by blast
  show thesis by (rule that [of t]) (use t eq in \<open>simp_all split: if_splits\<close>)
qed

lemma feed_data:
  "rest \<noteq> [] \<Longrightarrow> rx_at s UARTNET_STATE_DATA pre (length pre + length rest) \<Longrightarrow>
   ESCAPE_CHAR \<notin> set rest \<Longrightarrow>
   \<exists>t. run_steps (rx_feed env) s (stuff rest) = Inr t \<and>
     rx_at t UARTNET_STATE_END (pre @ rest) (length pre + length rest) \<and>
     delivered t = delivered s \<and> alloc_count t = alloc_count s \<and> stats t = stats s"
proof (induction rest arbitrary: s pre)
  case Nil
  then show ?case by simp
next
  case (Cons b rest)
  from Cons.prems obtain u where u: "run_steps (rx_feed env) s (escape b) = Inr u"
    "rx_at u (if Suc (length pre) = length pre + length (b # rest) then UARTNET_STATE_END
       else UARTNET_STATE_DATA) (pre @ [b]) (length pre + length (b # rest))"
    "delivered u = delivered s" "alloc_count u = alloc_count s" "stats u = stats s"
    using feed_data_byte [of s pre "length pre + length (b # rest)" b env] by auto
  show ?case
  proof (cases "rest = []")
    case True
    with u show ?thesis by (simp add: run_steps_append)
  next
    case False
    with u have "rx_at u UARTNET_STATE_DATA (pre @ [b]) (length (pre @ [b]) + length rest)"
      by (cases rest) auto
    with Cons.IH [OF False this] Cons.prems u show ?thesis
      by (auto simp: run_steps_append)
  qed
qed

text \<open>The two length bytes, in escaped form.\<close>

lemma feed_length_byte:
  assumes "rx_state (priv s) = UARTNET_STATE_LENGTH" "b \<noteq> ESCAPE_CHAR"
  shows "\<exists>sv. run_steps (rx_feed env) s (escape b) = rx_put_length env b (with_priv (\<lambda>p. p\<lparr>saved_state := sv\<rparr>) s)"
proof (cases "special b")
  case True
  have "run_steps (rx_feed env) s (escape b) = rx_body env b (with_priv (\<lambda>p. p\<lparr>saved_state := rx_state p\<rparr>) s)"
    using assms True by (simp add: feed_escape)
  with assms show ?thesis
    by (intro exI [of _ "rx_state (priv s)"]) (simp add: rx_body_def)
next
  case False
  have "run_steps (rx_feed env) s (escape b) = rx_body env b s"
    using assms False by (simp add: feed_escape)
  with assms show ?thesis
    by (intro exI [of _ "saved_state (priv s)"]) (simp add: rx_body_def)
qed

lemma feed_length:
  assumes st: "rx_state (priv s) = UARTNET_STATE_LENGTH" "rx_length_index (priv s) = 0"
      "length (rx_length_bytes (priv s)) = 2" "rx_data_received (priv s) = 0"
    and ne: "h \<noteq> ESCAPE_CHAR" "l \<noteq> ESCAPE_CHAR"
    and n: "n = 256 * unat h + unat l" "0 < n" "n \<le> UARTNET_MTU + ETH_HLEN"
    and alloc: "alloc_ok env (alloc_count s)"
  shows "\<exists>t. run_steps (rx_feed env) s (stuff [h, l]) = Inr t \<and> rx_at t UARTNET_STATE_DATA [] n \<and>
    delivered t = delivered s \<and> alloc_count t = Suc (alloc_count s) \<and> stats t = stats s"
proof -
  from feed_length_byte [OF st(1) ne(1), of env] obtain sv where
    sv: "run_steps (rx_feed env) s (escape h) = rx_put_length env h (with_priv (\<lambda>p. p\<lparr>saved_state := sv\<rparr>) s)"
    by blast
  define u where "u = with_priv (\<lambda>p. p\<lparr>saved_state := sv, rx_length_bytes := (rx_length_bytes p)[0 := h],
     rx_length_index := 1\<rparr>) s"
  have u: "run_steps (rx_feed env) s (escape h) = Inr u"
    using sv st by (simp add: rx_put_length_def Let_def u_def)
  have "rx_state (priv u) = UARTNET_STATE_LENGTH" using st by (simp add: u_def)
  from feed_length_byte [OF this ne(2), of env] obtain sv' where
    sv': "run_steps (rx_feed env) u (escape l) = rx_put_length env l (with_priv (\<lambda>p. p\<lparr>saved_state := sv'\<rparr>) u)"
    by blast
  obtain x y where lb: "rx_length_bytes (priv s) = [x, y]"
    using st(3) by (auto simp: numeral_2_eq_2 length_Suc_conv)
  have len: "unat (parse_length [h, l]) = n" using n(1) by (simp add: unat_parse_length)
  then have nz: "parse_length [h, l] \<noteq> 0" using n(2) by auto
  have "\<exists>t. rx_put_length env l (with_priv (\<lambda>p. p\<lparr>saved_state := sv'\<rparr>) u) = Inr t \<and>
      rx_at t UARTNET_STATE_DATA [] n \<and> delivered t = delivered s \<and>
      alloc_count t = Suc (alloc_count s) \<and> stats t = stats s"
    using st lb len nz n(3) alloc by (simp add: rx_put_length_def Let_def u_def rx_at_def)
  then show ?thesis using u sv' by (simp add: run_steps_append)
qed

lemma feed_footer:
  assumes at: "rx_at s UARTNET_STATE_END bs (length bs)" and len: "length bs < 2 ^ 16"
  shows "\<exists>t. rx_feed env s FRAME_FOOTER = Inr t \<and>
    delivered t = delivered s @ [\<lparr>skb_data = bs, skb_room = length bs\<rparr>] \<and>
    rx_state (priv t) = UARTNET_STATE_IDLE \<and> alloc_count t = alloc_count s \<and>
    rx_packets (stats t) = rx_packets (stats s) + 1"
proof -
  from at len have "skb_len \<lparr>skb_data = bs, skb_room = length bs\<rparr> = ucast (rx_frame_length (priv s))"
    by (simp add: skb_len_eq rx_at_def)
  with at show ?thesis
    by (auto simp: rx_feed_def rx_switch_def rx_dispatch_def rx_end_def rx_at_def Let_def)
qed

lemma feed_header:
  assumes "rx_state (priv s) = UARTNET_STATE_IDLE" "length (rx_length_bytes (priv s)) = 2"
  shows "\<exists>t. rx_feed env s FRAME_HEADER = Inr t \<and> rx_state (priv t) = UARTNET_STATE_LENGTH \<and>
    rx_length_index (priv t) = 0 \<and> length (rx_length_bytes (priv t)) = 2 \<and> rx_data_received (priv t) = 0 \<and>
    delivered t = delivered s \<and> alloc_count t = alloc_count s \<and> stats t = stats s"
  using assms by (simp add: rx_feed_def rx_switch_def rx_dispatch_def rx_idle_def)

section \<open>What survives the link\<close>

lemma length_bytes_value:
  assumes "length (skb_data skb) \<le> UARTNET_MTU + ETH_HLEN"
  obtains h l where "length_bytes skb = [h, l]" "length (skb_data skb) = 256 * unat h + unat l" "unat h < 2"
proof -
  let ?n = "length (skb_data skb)"
  have n: "?n \<le> 270" using assms by (simp add: uart_consts)
  have un: "unat (skb_len skb) = ?n" using n by (simp add: skb_len_def)
  have "unat (ucast (drop_bit 8 (skb_len skb) AND 0xFF) :: u8) = ?n div 256 mod 256"
    by (simp only: low_byte_u32) (simp add: drop_bit_eq_div unat_div_distrib un)
  moreover have "unat (ucast (skb_len skb AND 0xFF) :: u8) = ?n mod 256"
    by (simp only: low_byte_u32 un)
  ultimately show thesis
    using n by (intro that [OF length_bytes_def]) (simp_all add: div_mod_decomp)
qed

text \<open>A frame the receiver can represent arrives intact.\<close>

lemma link_delivers:
  assumes st: "rx_state (priv s) = UARTNET_STATE_IDLE" "length (rx_length_bytes (priv s)) = 2"
    and ok: "frame_ok (skb_data skb)" and alloc: "alloc_ok env (alloc_count s)"
  shows "\<exists>t. run_steps (rx_feed env) s (frame_bytes skb) = Inr t \<and>
    delivered t = delivered s @ [\<lparr>skb_data = skb_data skb, skb_room = length (skb_data skb)\<rparr>] \<and>
    rx_state (priv t) = UARTNET_STATE_IDLE \<and> rx_packets (stats t) = rx_packets (stats s) + 1"
proof -
  let ?d = "skb_data skb"
  from ok have d: "?d \<noteq> []" "length ?d \<le> UARTNET_MTU + ETH_HLEN" "length ?d \<noteq> 90" "ESCAPE_CHAR \<notin> set ?d"
    by (auto simp: frame_ok_def)
  from d(2) obtain h l where hl: "length_bytes skb = [h, l]" "length ?d = 256 * unat h + unat l" "unat h < 2"
    by (rule length_bytes_value)
  have h: "h \<noteq> ESCAPE_CHAR" using hl(3) by (auto simp: ESCAPE_CHAR_def)
  have l: "l \<noteq> ESCAPE_CHAR"
    using hl(2,3) d(2,3) by (auto simp: ESCAPE_CHAR_def uart_consts less_2_cases_iff)
  from feed_header [OF st, of env] obtain s1 where s1: "rx_feed env s FRAME_HEADER = Inr s1"
    "rx_state (priv s1) = UARTNET_STATE_LENGTH" "rx_length_index (priv s1) = 0"
    "length (rx_length_bytes (priv s1)) = 2" "rx_data_received (priv s1) = 0"
    "delivered s1 = delivered s" "alloc_count s1 = alloc_count s" "stats s1 = stats s"
    by blast
  have "0 < length ?d" using d(1) by simp
  from feed_length [OF s1(2-5) h l hl(2) this d(2), of env] obtain s2 where
    s2: "run_steps (rx_feed env) s1 (stuff [h, l]) = Inr s2" "rx_at s2 UARTNET_STATE_DATA [] (length ?d)"
      "delivered s2 = delivered s" "stats s2 = stats s"
    using alloc s1 by auto
  from feed_data [OF d(1), of s2 "[]" env] obtain s3 where
    s3: "run_steps (rx_feed env) s2 (stuff ?d) = Inr s3" "rx_at s3 UARTNET_STATE_END ?d (length ?d)"
      "delivered s3 = delivered s" "stats s3 = stats s"
    using s2 d(4) by auto
  have "length ?d < 2 ^ 16" using d(2) by (simp add: uart_consts)
  from feed_footer [OF s3(2) this, of env] obtain s4 where
    s4: "rx_feed env s3 FRAME_FOOTER = Inr s4"
      "delivered s4 = delivered s @ [\<lparr>skb_data = ?d, skb_room = length ?d\<rparr>]"
      "rx_state (priv s4) = UARTNET_STATE_IDLE" "rx_packets (stats s4) = rx_packets (stats s) + 1"
    using s3 by auto
  have "run_steps (rx_feed env) s (frame_bytes skb) = Inr s4"
    using s1(1) s2(1) s3(1) s4(1) by (simp add: frame_bytes_def hl(1) run_steps_append del: stuff_simps)
  with s4 show ?thesis by blast
qed

end
