(* ===== verification/Uart_Driver.thy ===== *)
theory Uart_Driver
  imports Uart_Link
begin

text \<open>
  The entry points of \<^verbatim>\<open>uart_net.c\<close> that the kernel calls: the transmit function, the
  interrupt handler, open and stop, and \<open>uart_step\<close>, the sequence of such calls that the kernel can
  make. Each entry point is one definition of what the C function does to the driver, the device
  and the kernel objects; the network stack, the work queue and NAPI appear only as the guards of
  \<open>uart_step\<close> (a work item runs when it is queued, the poll function when NAPI is scheduled).
\<close>

section \<open>Entry points\<close>

definition uartnet_start_xmit :: "sk_buff \<Rightarrow> uart_sys \<Rightarrow> uart_sys" where
  "uartnet_start_xmit skb s =
     (if \<not> netif_running s \<or> \<not> netif_device_present s then kfree_skb skb s
      else let s1 = s\<lparr>queue_stopped := True\<rparr> in
        if tx_state (priv s1) = TX_STATE_IDLE
        then let s2 = with_priv (\<lambda>p. p\<lparr>tx_skb := Some skb, tx_state := TX_STATE_HEADER,
                   tx_length_bytes := [ucast (drop_bit 8 (skb_len skb) AND 0xFF), ucast (skb_len skb AND 0xFF)],
                   tx_current_ptr := LengthPtr 0, tx_current_count := 2, tx_escape_next := 0\<rparr>) s1
             in (writel (regs s2 UART_IMSC OR UART011_TXIM) UART_IMSC s2)\<lparr>work_queued := True\<rparr>
        else with_stats (\<lambda>t. t\<lparr>tx_dropped := tx_dropped t + 1\<rparr>) (kfree_skb skb s1))"

text \<open>The receive part and the transmit part of \<^verbatim>\<open>uartnet_interrupt\<close>.\<close>

definition irq_rx :: "uart_sys \<Rightarrow> uart_sys" where
  "irq_rx s =
     (let s1 = with_priv (\<lambda>p. p\<lparr>rx_intr := rx_intr p + 1\<rparr>) s;
          s2 = writel (UART011_RTIS OR UART011_RXIS) UART_ICR s1;
          s3 = writel (regs s2 UART_IMSC AND NOT (UART011_RTIM OR UART011_RXIM)) UART_IMSC s2
      in s3\<lparr>napi_scheduled := napi_scheduled s3 \<or> napi_enabled s3\<rparr>)"

definition irq_tx :: "uart_sys \<Rightarrow> uart_sys" where
  "irq_tx s =
     (let s1 = with_priv (\<lambda>p. p\<lparr>tx_intr := tx_intr p + 1\<rparr>) s;
          s2 = writel UART011_TXIS UART_ICR s1
      in if tx_state (priv s2) \<noteq> TX_STATE_IDLE then s2\<lparr>work_queued := True\<rparr> else s2)"

definition uartnet_interrupt :: "u32 \<Rightarrow> uart_sys \<Rightarrow> uart_sys" where
  "uartnet_interrupt mis s =
     (let rx = mis AND (UART011_RTIS OR UART011_RXIS) \<noteq> 0;
          s1 = (if rx then irq_rx s else s);
          st1 = (if rx then mis AND NOT (UART011_RTIS OR UART011_RXIS) else mis);
          tx = st1 AND UART011_TXIS \<noteq> 0;
          s2 = (if tx then irq_tx s1 else s1);
          st2 = (if tx then st1 AND NOT UART011_TXIS else st1)
      in if st2 \<noteq> 0 then writel st2 UART_ICR s2 else s2)"

text \<open>
  \<^verbatim>\<open>uartnet_open\<close> up to and including the write that unmasks the receive interrupts; \<open>err\<close>
  is what \<^verbatim>\<open>devm_request_irq\<close> returns.
\<close>

definition open_reset :: "uart_sys \<Rightarrow> uart_sys" where
  "open_reset s =
     (let s1 = with_priv (\<lambda>p. p\<lparr>rx_state := UARTNET_STATE_IDLE, rx_skb := None,
                  tx_state := TX_STATE_IDLE\<rparr>) s
      in with_priv (\<lambda>p. p\<lparr>tx_skb := None\<rparr>) (kfree_skb_opt (tx_skb (priv s1)) s1))"

definition open_hw :: "uart_sys \<Rightarrow> uart_sys" where
  "open_hw s = writel (UART011_RTIM OR UART011_RXIM) UART_IMSC
     (writel (UART01x_CR_UARTEN OR UART011_CR_TXE OR UART011_CR_RXE) UART_CR
       (s\<lparr>irq_actions := irq_actions s + 1\<rparr>))"

definition open_enable :: "uart_sys \<Rightarrow> uart_sys" where
  "open_enable s = s\<lparr>napi_enabled := True, queue_stopped := False\<rparr>"

definition uartnet_open :: "int \<Rightarrow> uart_sys \<Rightarrow> uart_sys \<times> int" where
  "uartnet_open err s =
     (let s1 = open_reset s in
      if err \<noteq> 0 then (s1, err) else (open_enable (open_hw s1), 0))"

definition uartnet_stop :: "uart_sys \<Rightarrow> uart_sys \<times> int" where
  "uartnet_stop s =
     (let s1 = s\<lparr>queue_stopped := True, napi_enabled := False, napi_scheduled := False\<rparr>;
          s2 = writel 0 UART_CR (writel 0 UART_IMSC s1);
          s3 = with_priv (\<lambda>p. p\<lparr>rx_skb := None, rx_state := UARTNET_STATE_IDLE\<rparr>)
                 (kfree_skb_opt (rx_skb (priv s2)) s2);
          s4 = with_priv (\<lambda>p. p\<lparr>tx_skb := None, tx_state := TX_STATE_IDLE\<rparr>)
                 (kfree_skb_opt (tx_skb (priv s3)) s3)
      in (s4\<lparr>work_queued := False\<rparr>, 0))"

section \<open>The kernel drives the driver\<close>

datatype uart_event =
    Xmit sk_buff
  | Irq u32
  | Work "nat \<Rightarrow> u32"
  | Poll int "u8 list"
  | DevOpen int
  | DevClose

text \<open>
  Fuel for the work function: one round per pending byte and one to find the machine idle.
\<close>

definition tx_fuel :: "uart_sys \<Rightarrow> nat" where
  "tx_fuel s = Suc (length (tx_pending (priv s)))"

fun uart_step :: "uart_env \<Rightarrow> uart_sys \<Rightarrow> uart_event \<Rightarrow> uart_sys result" where
  "uart_step env s (Xmit skb) = Inr (uartnet_start_xmit skb s)"
| "uart_step env s (Irq mis) = Inr (if 0 < irq_actions s then uartnet_interrupt mis s else s)"
| "uart_step env s (Work fr) =
     (if work_queued s then uartnet_tx_task (tx_fuel s) fr (s\<lparr>work_queued := False\<rparr>) else Inr s)"
| "uart_step env s (Poll budget fifo) =
     (if napi_scheduled s
      then rbind (uartnet_poll env budget fifo s) (\<lambda>(t, work_done, rest). Inr t) else Inr s)"
| "uart_step env s (DevOpen err) =
     (if netif_running s then Inr s
      else case uartnet_open err (s\<lparr>netif_running := True\<rparr>) of
          (t, ret) \<Rightarrow> Inr (if ret = 0 then t else t\<lparr>netif_running := False\<rparr>))"
| "uart_step env s DevClose =
     (if netif_running s then Inr (fst (uartnet_stop (s\<lparr>netif_running := False\<rparr>))) else Inr s)"

text \<open>What the network stack promises: buffers are neither empty nor larger than a u16 length.\<close>

fun event_ok :: "uart_event \<Rightarrow> bool" where
  "event_ok (Xmit skb) \<longleftrightarrow> sendable skb"
| "event_ok (Poll budget fifo) \<longleftrightarrow> 0 \<le> budget"
| "event_ok _ \<longleftrightarrow> True"

section \<open>The invariant of the driver\<close>

definition tx_busy :: "uart_sys \<Rightarrow> bool" where
  "tx_busy s \<longleftrightarrow> tx_state (priv s) \<noteq> TX_STATE_IDLE"

definition txim_on :: "uart_sys \<Rightarrow> bool" where
  "txim_on s \<longleftrightarrow> regs s UART_IMSC AND UART011_TXIM \<noteq> 0"

definition drv_inv :: "uart_sys \<Rightarrow> bool" where
  "drv_inv s \<longleftrightarrow> rx_inv s \<and> tx_wf (priv s) \<and> (tx_busy s \<longrightarrow> txim_on s \<and> netif_running s) \<and>
     (netif_running s \<longrightarrow> (queue_stopped s \<longleftrightarrow> tx_busy s))"

lemma txim_bit: "txim_on s \<longleftrightarrow> bit (regs s UART_IMSC) 5"
  using and_exp_eq_0_iff_not_bit [of "regs s UART_IMSC" 5] by (simp add: txim_on_def UART011_TXIM_def)

lemma rx_inv_part:
  "rx_part (priv t) = rx_part (priv s) \<Longrightarrow> delivered t = delivered s \<Longrightarrow> rx_inv t \<longleftrightarrow> rx_inv s"
proof -
  assume part: "rx_part (priv t) = rx_part (priv s)" and del: "delivered t = delivered s"
  have "rx_in st (priv t) \<longleftrightarrow> rx_in st (priv s)" for st
    using part by (cases st) (simp_all add: rx_part_def filling_def)
  with part del show "rx_inv t \<longleftrightarrow> rx_inv s"
    by (simp add: rx_inv_def rx_wf_def rx_part_def)
qed

definition tx_part ::
  "uartnet_priv \<Rightarrow> sk_buff option \<times> uartnet_tx_state \<times> u8 list \<times> tx_ptr \<times> u16 \<times> u8" where
  "tx_part p = (tx_skb p, tx_state p, tx_length_bytes p, tx_current_ptr p, tx_current_count p, tx_escape_next p)"

definition same_tx :: "uart_sys \<Rightarrow> uart_sys \<Rightarrow> bool" where
  "same_tx s t \<longleftrightarrow> tx_part (priv t) = tx_part (priv s) \<and> regs t = regs s \<and> line_out t = line_out s \<and>
     netif_running t = netif_running s \<and> queue_stopped t = queue_stopped s \<and>
     work_queued t = work_queued s \<and> tx_dropped (stats t) = tx_dropped (stats s) \<and>
     irq_actions t = irq_actions s \<and> napi_enabled t = napi_enabled s \<and> napi_scheduled t = napi_scheduled s"

lemma same_tx_refl [simp]: "same_tx s s"
  by (simp add: same_tx_def)

lemma same_tx_trans: "same_tx s t \<Longrightarrow> same_tx t u \<Longrightarrow> same_tx s u"
  by (simp add: same_tx_def)

lemma tx_wf_part: "tx_part p = tx_part q \<Longrightarrow> tx_wf p \<longleftrightarrow> tx_wf q"
  by (cases "tx_skb q"; cases "tx_state q") (simp_all add: tx_part_def tx_wf_def at_byte_def)

text \<open>The receiver does not touch the transmitter.\<close>

lemma rx_put_length_tx: "rx_put_length env b s = Inr t \<Longrightarrow> same_tx s t"
  by (auto simp: rx_put_length_def Let_def same_tx_def tx_part_def split: if_splits)

lemma rx_put_data_tx: "rx_put_data b s = Inr t \<Longrightarrow> same_tx s t"
  by (auto simp: rx_put_data_def Let_def same_tx_def tx_part_def split: if_splits option.splits)

lemma rx_body_tx: "rx_body env b s = Inr t \<Longrightarrow> same_tx s t"
  by (auto simp: rx_body_def dest: rx_put_length_tx rx_put_data_tx split: if_splits)
     (simp add: same_tx_def tx_part_def)

lemma rx_end_tx: "same_tx s (fst (rx_end env b s))"
  by (auto simp: rx_end_def Let_def same_tx_def tx_part_def split: option.splits)

lemma rx_dispatch_tx: "rx_dispatch env b s = Inr (t, d) \<Longrightarrow> same_tx s t"
  using rx_end_tx [of s env b]
  by (auto simp: rx_dispatch_def rx_idle_def dest: rx_body_tx split: uartnet_rx_state.splits if_splits)
     (simp_all add: same_tx_def tx_part_def)

lemma rx_switch_tx: "rx_switch env b s = Inr (t, d) \<Longrightarrow> same_tx s t"
  by (auto simp: rx_switch_def dest!: rx_dispatch_tx split: if_splits)
     (simp add: same_tx_def tx_part_def)

lemma poll_loop_tx: "poll_loop env budget w fifo s = Inr (t, w', rest) \<Longrightarrow> same_tx s t"
proof (induction fifo arbitrary: w s)
  case (Cons b fifo)
  then show ?case
    by (auto split: if_splits dest!: rx_switch_tx intro: same_tx_trans)
qed simp

section \<open>Every entry point keeps the invariant\<close>

lemma imsc_bits:
  "bit (x OR UART011_RTIM OR UART011_RXIM) 5 \<longleftrightarrow> bit x 5"
  "bit (x AND NOT (UART011_RTIM OR UART011_RXIM)) 5 \<longleftrightarrow> bit x 5"
  "bit (x AND NOT UART011_RTIM AND NOT UART011_RXIM) 5 \<longleftrightarrow> bit x 5"
  "bit (x OR UART011_TXIM) 5"
  by (simp_all add: uart_bits bit_simps)

lemma xmit_inv:
  assumes inv: "drv_inv s" and ok: "sendable skb"
  shows "drv_inv (uartnet_start_xmit skb s)"
proof (cases "netif_running s \<and> netif_device_present s")
  case False
  then have eq: "uartnet_start_xmit skb s = kfree_skb skb s"
    by (auto simp: uartnet_start_xmit_def)
  have "rx_inv (kfree_skb skb s) \<longleftrightarrow> rx_inv s" by (rule rx_inv_part) simp_all
  with inv show ?thesis by (simp add: eq drv_inv_def tx_busy_def txim_on_def)
next
  case True
  let ?t = "uartnet_start_xmit skb s"
  have rx: "rx_inv ?t \<longleftrightarrow> rx_inv s"
    by (rule rx_inv_part) (simp_all add: uartnet_start_xmit_def rx_part_def Let_def)
  show ?thesis
  proof (cases "tx_state (priv s) = TX_STATE_IDLE")
    case True
    with inv ok rx show ?thesis
      using \<open>netif_running s \<and> netif_device_present s\<close>
      by (simp add: drv_inv_def uartnet_start_xmit_def Let_def tx_busy_def txim_bit imsc_bits tx_wf_def
          length_bytes_def)
  next
    case False
    with inv rx show ?thesis
      using \<open>netif_running s \<and> netif_device_present s\<close>
      by (simp add: drv_inv_def uartnet_start_xmit_def Let_def tx_busy_def txim_bit)
  qed
qed

lemma irq_rx_inv: "drv_inv s \<Longrightarrow> drv_inv (irq_rx s)"
  using rx_inv_part [of "irq_rx s" s] tx_wf_part [of "priv (irq_rx s)" "priv s"]
  by (simp add: drv_inv_def irq_rx_def Let_def rx_part_def tx_part_def tx_busy_def txim_bit imsc_bits)

lemma irq_tx_inv: "drv_inv s \<Longrightarrow> drv_inv (irq_tx s)"
  using rx_inv_part [of "irq_tx s" s] tx_wf_part [of "priv (irq_tx s)" "priv s"]
  by (simp add: drv_inv_def irq_tx_def Let_def rx_part_def tx_part_def tx_busy_def txim_bit)

lemma writel_other_inv: "drv_inv s \<Longrightarrow> r \<noteq> UART_IMSC \<Longrightarrow> drv_inv (writel v r s)"
  using rx_inv_part [of "writel v r s" s]
  by (simp add: drv_inv_def tx_busy_def txim_on_def)

lemma interrupt_inv: "drv_inv s \<Longrightarrow> drv_inv (uartnet_interrupt mis s)"
  by (simp add: uartnet_interrupt_def Let_def irq_rx_inv irq_tx_inv writel_other_inv)

lemma open_reset_inv:
  assumes "drv_inv s"
  shows "rx_inv (open_reset s)" "tx_wf (priv (open_reset s))" "\<not> tx_busy (open_reset s)"
  using assms
  by (simp_all add: open_reset_def Let_def drv_inv_def rx_inv_def rx_wf_def tx_wf_def tx_busy_def)

lemma open_inv:
  assumes "drv_inv s" "\<not> netif_running s"
  shows "drv_inv (case uartnet_open err (s\<lparr>netif_running := True\<rparr>) of
      (t, ret) \<Rightarrow> if ret = 0 then t else t\<lparr>netif_running := False\<rparr>)"
proof -
  let ?s = "s\<lparr>netif_running := True\<rparr>"
  from assms have "rx_inv (open_reset ?s)" "tx_wf (priv (open_reset ?s))" "\<not> tx_busy (open_reset ?s)"
    using open_reset_inv [OF assms(1)]
    by (simp_all add: open_reset_def Let_def rx_inv_def tx_busy_def)
  then show ?thesis
    using rx_inv_part [of "open_enable (open_hw (open_reset ?s))" "open_reset ?s"]
      rx_inv_part [of "(open_reset ?s)\<lparr>netif_running := False\<rparr>" "open_reset ?s"]
    by (simp add: uartnet_open_def Let_def drv_inv_def open_hw_def open_enable_def tx_busy_def)
qed

lemma stop_inv: "drv_inv s \<Longrightarrow> drv_inv (fst (uartnet_stop (s\<lparr>netif_running := False\<rparr>)))"
  by (simp add: uartnet_stop_def Let_def drv_inv_def rx_inv_def rx_wf_def tx_wf_def tx_busy_def)

lemma work_inv:
  assumes inv: "drv_inv s"
  shows "\<exists>t. uartnet_tx_task (tx_fuel s) fr (s\<lparr>work_queued := False\<rparr>) = Inr t \<and> drv_inv t"
proof -
  let ?s = "s\<lparr>work_queued := False\<rparr>"
  from inv have wf: "tx_wf (priv ?s)" by (simp add: drv_inv_def)
  have fuel: "length (tx_pending (priv ?s)) < tx_fuel s" by (simp add: tx_fuel_def)
  obtain n t where t: "uartnet_tx_task (tx_fuel s) fr ?s = Inr t" "tx_outcome ?s n t"
    "regs t UART_IMSC = (if tx_state (priv t) = TX_STATE_IDLE
       then regs ?s UART_IMSC AND NOT UART011_TXIM else regs ?s UART_IMSC)"
    by (rule tx_task_outcome [OF wf fuel])
  from t(2) have rx: "rx_inv t \<longleftrightarrow> rx_inv s"
    by (intro rx_inv_part) (simp_all add: tx_outcome_def same_env_def)
  have busy: "tx_busy t \<Longrightarrow> tx_busy s"
    using t(2) tx_pending_idle [OF wf] tx_pending_idle [of "priv t"]
    by (auto simp: tx_busy_def tx_outcome_def)
  have "drv_inv t"
    using inv rx busy t(2,3)
    by (auto simp: drv_inv_def tx_outcome_def same_env_def tx_busy_def txim_on_def split: if_splits)
  with t(1) show ?thesis by blast
qed

lemma poll_inv:
  assumes inv: "drv_inv s" and b: "0 \<le> budget"
  shows "\<exists>t w rest. uartnet_poll env budget fifo s = Inr (t, w, rest) \<and> drv_inv t"
proof -
  from inv have "rx_inv s" by (simp add: drv_inv_def)
  from poll_loop_safe [OF this b, of env fifo] obtain t w rest where
    t: "poll_loop env budget 0 fifo s = Inr (t, w, rest)" "rx_inv t" by blast
  have same: "same_tx s t" by (rule poll_loop_tx [OF t(1)])
  then have wf: "tx_wf (priv t) \<longleftrightarrow> tx_wf (priv s)" and st: "tx_state (priv t) = tx_state (priv s)"
    using tx_wf_part [of "priv t" "priv s"] by (simp_all add: same_tx_def tx_part_def)
  let ?u = "writel (regs t UART_IMSC OR UART011_RTIM OR UART011_RXIM) UART_IMSC
    ((call (Napi_complete_done w) t)\<lparr>napi_scheduled := False\<rparr>)"
  have "rx_inv ?u \<longleftrightarrow> rx_inv t" by (rule rx_inv_part) simp_all
  with inv t same wf st show ?thesis
    by (auto simp: uartnet_poll_def drv_inv_def tx_busy_def txim_bit same_tx_def imsc_bits)
qed

interpretation drv: safe_steps "uart_step env" drv_inv event_ok for env
proof
  fix s e
  assume inv: "drv_inv s" and ok: "event_ok e"
  show "\<exists>t. uart_step env s e = Inr t \<and> drv_inv t"
  proof (cases e)
    case (Work fr)
    with inv show ?thesis using work_inv [OF inv, of fr] by simp
  next
    case (Poll budget fifo)
    with inv ok show ?thesis using poll_inv [OF inv, of budget env fifo] by auto
  next
    case (DevOpen err)
    with inv show ?thesis using open_inv [OF inv, of err] by (auto split: prod.splits if_splits)
  qed (use inv ok xmit_inv interrupt_inv stop_inv in auto)
qed

section \<open>Conservation of the bytes of a frame\<close>

text \<open>Between two calls of the transmit function, bytes only move from the buffer to the line.\<close>

fun line_event :: "uart_event \<Rightarrow> bool" where
  "line_event (Irq mis) \<longleftrightarrow> True"
| "line_event (Work fr) \<longleftrightarrow> True"
| "line_event (Poll budget fifo) \<longleftrightarrow> 0 \<le> budget"
| "line_event _ \<longleftrightarrow> False"

lemma line_event_ok: "line_event e \<Longrightarrow> event_ok e"
  by (cases e) simp_all

definition wire :: "uart_sys \<Rightarrow> u8 list" where
  "wire s = line_out s @ tx_pending (priv s)"

lemma tx_pending_part: "tx_part p = tx_part q \<Longrightarrow> tx_pending p = tx_pending q"
  by (cases "tx_state q") (simp_all add: tx_part_def tx_pending_def rest_of_def)

lemma interrupt_tx:
  "tx_part (priv (uartnet_interrupt mis s)) = tx_part (priv s)"
  "line_out (uartnet_interrupt mis s) = line_out s"
  "irq_actions (uartnet_interrupt mis s) = irq_actions s"
  by (simp_all add: uartnet_interrupt_def irq_rx_def irq_tx_def Let_def tx_part_def)

lemma step_wire:
  assumes inv: "drv_inv s" and ev: "line_event e" and step: "uart_step env s e = Inr t"
  shows "wire t = wire s"
proof (cases e)
  case (Irq mis)
  have "tx_pending (priv (uartnet_interrupt mis s)) = tx_pending (priv s)"
    by (rule tx_pending_part) (rule interrupt_tx)
  with Irq step show ?thesis by (auto simp: wire_def interrupt_tx split: if_splits)
next
  case (Work fr)
  let ?s = "s\<lparr>work_queued := False\<rparr>"
  show ?thesis
  proof (cases "work_queued s")
    case True
    from inv have "tx_wf (priv ?s)" by (simp add: drv_inv_def)
    then obtain n u where "uartnet_tx_task (tx_fuel s) fr ?s = Inr u" "tx_outcome ?s n u"
      by (rule tx_task_outcome [of ?s "tx_fuel s" fr]) (simp_all add: tx_fuel_def)
    with Work True step show ?thesis by (simp add: wire_def tx_outcome_def)
  next
    case False
    with Work step show ?thesis by simp
  qed
next
  case (Poll budget fifo)
  show ?thesis
  proof (cases "napi_scheduled s")
    case True
    with Poll step obtain u w rest where u: "poll_loop env budget 0 fifo s = Inr (u, w, rest)"
      by (auto simp: uartnet_poll_def)
    with Poll True step
    have t: "t = (if w < budget then writel (regs u UART_IMSC OR UART011_RTIM OR UART011_RXIM) UART_IMSC
        ((call (Napi_complete_done w) u)\<lparr>napi_scheduled := False\<rparr>) else u)"
      by (simp add: uartnet_poll_def split: if_splits)
    from poll_loop_tx [OF u] have "line_out u = line_out s" "tx_pending (priv u) = tx_pending (priv s)"
      by (auto simp: same_tx_def dest: tx_pending_part)
    with t show ?thesis by (simp add: wire_def)
  next
    case False
    with Poll step show ?thesis by simp
  qed
qed (use ev in auto)

lemma run_wire:
  "drv_inv s \<Longrightarrow> list_all line_event es \<Longrightarrow> run_steps (uart_step env) s es = Inr t \<Longrightarrow>
     drv_inv t \<and> wire t = wire s"
proof (induction es arbitrary: s)
  case (Cons e es)
  then obtain u where u: "uart_step env s e = Inr u" "run_steps (uart_step env) u es = Inr t" by auto
  with Cons.prems have "drv_inv u" using drv.step_safe [of s e env] line_event_ok by fastforce
  moreover have "wire u = wire s" using Cons.prems u by (intro step_wire [of s e env u]) auto
  ultimately show ?case using Cons u by auto
qed simp

lemma xmit_pending:
  assumes "drv_inv s" "netif_running s" "netif_device_present s" "\<not> tx_busy s"
  shows "wire (uartnet_start_xmit skb s) = line_out s @ frame_bytes skb"
  using assms
  by (simp add: wire_def uartnet_start_xmit_def tx_busy_def tx_pending_def frame_bytes_def
      length_bytes_def Let_def)

lemma idle_wire: "drv_inv s \<Longrightarrow> \<not> tx_busy s \<Longrightarrow> wire s = line_out s"
  by (simp add: wire_def tx_busy_def tx_pending_idle drv_inv_def)

section \<open>An interface that is up\<close>

definition up_sys :: uart_sys where
  "up_sys = fst (uartnet_open 0 (zero_sys\<lparr>netif_running := True\<rparr>))"

lemma zero_inv: "drv_inv zero_sys"
  by (simp add: drv_inv_def zero_sys_def zero_priv_def rx_inv_def rx_wf_def tx_wf_def tx_busy_def
      delivered_def)

lemma up_inv: "drv_inv up_sys"
  using open_inv [OF zero_inv, of 0]
  by (simp add: up_sys_def uartnet_open_def Let_def zero_sys_def)

lemma up_simps [simp]:
  "netif_running up_sys" "netif_device_present up_sys" "\<not> tx_busy up_sys" "\<not> queue_stopped up_sys"
  "rx_state (priv up_sys) = UARTNET_STATE_IDLE" "length (rx_length_bytes (priv up_sys)) = 2"
  "irq_actions up_sys = 1" "alloc_count up_sys = 0" "delivered up_sys = []" "line_out up_sys = []"
  by (simp_all add: up_sys_def uartnet_open_def open_reset_def open_hw_def open_enable_def Let_def
      zero_sys_def zero_priv_def tx_busy_def delivered_def line_out_def kfree_skb_opt_def)

lemma up_napi: "napi_enabled up_sys"
  by (simp add: up_sys_def uartnet_open_def open_enable_def Let_def)

lemma up_freed: "freed up_sys = []"
  by (simp add: up_sys_def uartnet_open_def open_reset_def open_hw_def open_enable_def Let_def zero_sys_def zero_priv_def
      freed_def kfree_skb_opt_def)

end
