(* ===== verification/Uart_Net.thy ===== *)
theory Uart_Net
  imports Uart_Driver
begin

text \<open>
  What the UART network driver guarantees, as properties of the entry points of \<open>Uart_Driver\<close> and of
  the link of \<open>Uart_Link\<close>: safety under every event sequence, exact transmission, progress, flow
  control, and the limits of the framing protocol.
\<close>

section \<open>Helper lemmas\<close>

lemma rx_inv_idle: "drv_inv s \<Longrightarrow> rx_inv s"
  by (simp add: drv_inv_def)

lemma rx_inv_bytes: "rx_inv s \<Longrightarrow> length (rx_length_bytes (priv s)) = 2"
  by (simp add: rx_inv_def rx_wf_def)

text \<open>
  What becomes of a pending frame: it stays pending, or it is completed, which releases its buffer and counts it, exactly once.
\<close>

definition tx_progress :: "uart_sys \<Rightarrow> uart_sys \<Rightarrow> bool" where
  "tx_progress s t \<longleftrightarrow> netif_running t = netif_running s \<and>
     (if tx_busy s \<and> \<not> tx_busy t
      then freed t = freed s @ [the (tx_skb (priv s))] \<and> tx_packets (stats t) = tx_packets (stats s) + 1
      else tx_busy t = tx_busy s \<and> freed t = freed s \<and> tx_skb (priv t) = tx_skb (priv s) \<and>
           tx_packets (stats t) = tx_packets (stats s))"

lemma tx_progress_trans: "tx_progress s t \<Longrightarrow> tx_progress t u \<Longrightarrow> tx_progress s u"
  by (auto simp: tx_progress_def split: if_splits)

lemma interrupt_progress: "tx_progress s (uartnet_interrupt mis s)"
  by (simp add: tx_progress_def uartnet_interrupt_def irq_rx_def irq_tx_def Let_def tx_busy_def)

lemma outcome_progress:
  assumes "tx_wf (priv s)" "tx_outcome s n t"
  shows "tx_progress s t"
  using assms tx_pending_idle [of "priv s"] tx_pending_idle [of "priv t"]
  by (auto simp: tx_progress_def tx_outcome_def same_env_def tx_busy_def split: if_splits)

lemma tx_round:
  assumes inv: "drv_inv s" and irq: "0 < irq_actions s" and room: "fr 0 AND UART01x_FR_TXFF = 0"
  obtains t where "run_steps (uart_step env) s [Irq UART011_TXIS, Work fr] = Inr t" "drv_inv t" "tx_progress s t"
    "0 < irq_actions t" "length (tx_pending (priv t)) \<le> length (tx_pending (priv s)) - 1"
proof -
  define s1 where "s1 = uartnet_interrupt UART011_TXIS s"
  have inv1: "drv_inv s1" unfolding s1_def using inv by (rule interrupt_inv)
  have part: "tx_part (priv s1) = tx_part (priv s)" "irq_actions s1 = irq_actions s"
    by (simp_all add: s1_def interrupt_tx)
  have prog1: "tx_progress s s1" unfolding s1_def by (rule interrupt_progress)
  from part have pend: "tx_pending (priv s1) = tx_pending (priv s)" by (blast intro: tx_pending_part)
  have queued: "work_queued s1" if "tx_busy s"
    using that by (simp add: s1_def uartnet_interrupt_def irq_tx_def irq_rx_def Let_def tx_busy_def
        UART011_RTIS_def UART011_RXIS_def UART011_TXIS_def)
  show thesis
  proof (cases "work_queued s1")
    case False
    with queued have "tx_pending (priv s) = []"
      using inv by (auto simp: tx_busy_def drv_inv_def tx_pending_idle)
    with False inv1 irq part pend prog1 show thesis
      by (intro that [of s1]) (simp_all add: s1_def [symmetric])
  next
    case True
    let ?s = "s1\<lparr>work_queued := False\<rparr>"
    from inv1 have wf: "tx_wf (priv ?s)" by (simp add: drv_inv_def)
    have fuel: "length (tx_pending (priv ?s)) < tx_fuel s1" by (simp add: tx_fuel_def)
    obtain n t where t: "uartnet_tx_task (tx_fuel s1) fr ?s = Inr t" "tx_outcome ?s n t"
      "tx_state (priv t) = TX_STATE_IDLE \<or> fr n AND UART01x_FR_TXFF \<noteq> 0"
      by (rule tx_task_outcome [OF wf fuel])
    have inv_t: "drv_inv t" using work_inv [OF inv1, of fr] t(1) by auto
    have "tx_progress ?s t" using wf t(2) by (rule outcome_progress)
    then have "tx_progress s1 t" by (auto simp: tx_progress_def tx_busy_def split: if_splits)
    with prog1 have prog: "tx_progress s t" by (rule tx_progress_trans)
    have "length (tx_pending (priv t)) \<le> length (tx_pending (priv s1)) - 1"
    proof (cases "tx_state (priv t) = TX_STATE_IDLE")
      case True
      then have "tx_pending (priv t) = []"
        using inv_t by (simp add: drv_inv_def tx_pending_idle)
      then show ?thesis by simp
    next
      case False
      with t(3) room have "0 < n" by (cases n) auto
      with t(2) show ?thesis by (simp add: tx_outcome_def)
    qed
    moreover have "irq_actions t = irq_actions s1"
      using t(2) by (simp add: tx_outcome_def same_env_def)
    ultimately show thesis
      using True irq part pend t(1) inv_t prog by (intro that [of t]) (simp_all add: s1_def [symmetric])
  qed
qed

abbreviation tx_events :: "(nat \<Rightarrow> u32) list \<Rightarrow> uart_event list" where
  "tx_events frs \<equiv> concat (map (\<lambda>fr. [Irq UART011_TXIS, Work fr]) frs)"

lemma tx_rounds:
  "drv_inv s \<Longrightarrow> 0 < irq_actions s \<Longrightarrow> \<forall>fr \<in> set frs. fr 0 AND UART01x_FR_TXFF = 0 \<Longrightarrow>
   length (tx_pending (priv s)) \<le> length frs \<Longrightarrow>
   \<exists>t. run_steps (uart_step env) s (tx_events frs) = Inr t \<and> \<not> tx_busy t \<and> tx_progress s t"
proof (induction frs arbitrary: s)
  case Nil
  then show ?case by (auto simp: tx_busy_def drv_inv_def tx_pending_idle tx_progress_def)
next
  case (Cons fr frs)
  then obtain u where u: "run_steps (uart_step env) s [Irq UART011_TXIS, Work fr] = Inr u" "drv_inv u" "tx_progress s u"
    "0 < irq_actions u" "length (tx_pending (priv u)) \<le> length (tx_pending (priv s)) - 1"
    using tx_round [of s fr env] by auto
  with Cons.prems have "length (tx_pending (priv u)) \<le> length frs" by simp
  with Cons u obtain t where "run_steps (uart_step env) u (tx_events frs) = Inr t" "\<not> tx_busy t" "tx_progress u t"
    by auto
  with run_steps_append [of "uart_step env" s "[Irq UART011_TXIS, Work fr]"] u(1) tx_progress_trans [OF u(3)] show ?case
    by (auto simp del: run_steps.simps)
qed

section \<open>Reception by polling\<close>

text \<open>A receive interrupt followed by the poll function, for each piece of the received bytes.\<close>

abbreviation rx_events :: "(int \<times> u8 list) list \<Rightarrow> uart_event list" where
  "rx_events polls \<equiv> concat (map (\<lambda>(budget, fifo). [Irq UART011_RXIS, Poll budget fifo]) polls)"

lemma interrupt_rx:
  "same_rx s (uartnet_interrupt mis s)" "irq_actions (uartnet_interrupt mis s) = irq_actions s"
  "napi_enabled (uartnet_interrupt mis s) = napi_enabled s"
  by (simp_all add: same_rx_def uartnet_interrupt_def irq_rx_def irq_tx_def Let_def rx_part_def)

lemma interrupt_schedules: "napi_enabled s \<Longrightarrow> napi_scheduled (uartnet_interrupt UART011_RXIS s)"
  by (simp add: uartnet_interrupt_def irq_rx_def irq_tx_def Let_def UART011_RXIS_def UART011_RTIS_def UART011_TXIS_def)

lemma polls_feed:
  assumes "same_rx s0 s" "run_steps (rx_feed env) s0 (concat (map snd polls)) = Inr t0"
    and "0 < irq_actions s" "napi_enabled s"
    and "\<forall>p \<in> set polls. int (length (delivered t0)) - int (length (delivered s0)) < fst p"
  shows "\<exists>t. run_steps (uart_step env) s (rx_events polls) = Inr t \<and> same_rx t0 t"
  using assms
proof (induction polls arbitrary: s s0)
  case (Cons p polls)
  obtain budget fifo where p: "p = (budget, fifo)" by (cases p)
  let ?s1 = "uartnet_interrupt UART011_RXIS s"
  have s1: "same_rx s0 ?s1" "napi_scheduled ?s1" "0 < irq_actions ?s1" "napi_enabled ?s1"
    using Cons.prems(3,4) same_rx_trans [OF Cons.prems(1) interrupt_rx(1)] interrupt_schedules [of s] by (simp_all add: interrupt_rx(2,3))
  from Cons.prems(2) obtain u0 where u0: "run_steps (rx_feed env) s0 fifo = Inr u0"
    "run_steps (rx_feed env) u0 (concat (map snd polls)) = Inr t0"
    by (auto simp: p run_steps_append)
  obtain u where u: "run_steps (rx_feed env) ?s1 fifo = Inr u" "same_rx u0 u" using feeds_sim [OF s1(1) u0(1)] by blast
  have same: "delivered ?s1 = delivered s0" "delivered u = delivered u0" using s1(1) u(2) by (simp_all add: same_rx_def)
  have mono: "length (delivered s0) \<le> length (delivered u0)" "length (delivered u0) \<le> length (delivered t0)"
    using feed_delivers_more [OF u0(1)] feed_delivers_more [OF u0(2)] .
  let ?w = "int (length (delivered u)) - int (length (delivered ?s1))"
  have w: "?w < budget" using Cons.prems(5) mono same by (simp add: p)
  then have loop: "poll_loop env budget 0 fifo ?s1 = Inr (u, ?w, [])" using poll_loop_all [OF u(1), of 0 budget] by simp
  have u_same: "irq_actions u = irq_actions ?s1" "napi_enabled u = napi_enabled ?s1"
    using poll_loop_tx [OF loop] by (simp_all add: same_tx_def)
  let ?u = "writel (regs u UART_IMSC OR UART011_RTIM OR UART011_RXIM) UART_IMSC
    ((call (Napi_complete_done ?w) u)\<lparr>napi_scheduled := False\<rparr>)"
  have poll: "uartnet_poll env budget fifo ?s1 = Inr (?u, ?w, [])" using loop w by (simp add: uartnet_poll_def)
  have su: "same_rx u0 ?u" using u(2) by (simp add: same_rx_def)
  have "0 < irq_actions ?u" "napi_enabled ?u" using u_same s1 by simp_all
  moreover have "\<forall>q \<in> set polls. int (length (delivered t0)) - int (length (delivered u0)) < fst q"
    using Cons.prems(5) mono(1) by fastforce
  ultimately obtain t where "run_steps (uart_step env) ?u (rx_events polls) = Inr t" "same_rx t0 t"
    using Cons.IH [OF su u0(2)] by blast
  moreover have "run_steps (uart_step env) s [Irq UART011_RXIS, Poll budget fifo] = Inr ?u"
    using Cons.prems(3) s1(2) poll by simp
  ultimately show ?case
    using run_steps_append [of "uart_step env" s "[Irq UART011_RXIS, Poll budget fifo]"] by (simp add: p del: run_steps.simps)
qed simp

section \<open>A concrete transmission\<close>

definition demo_skb :: sk_buff where
  "demo_skb = \<lparr>skb_data = [1, 0xAA, 3], skb_room = 3\<rparr>"

definition demo_env :: uart_env where
  "demo_env = \<lparr>alloc_ok = (\<lambda>_. True), len_after_receive = (\<lambda>_. 0)\<rparr>"

definition demo_events :: "uart_event list" where
  "demo_events = tx_events (replicate 8 (\<lambda>k. if k < 3 then 0 else 0x20))"

lemma demo_skb_ok: "frame_ok (skb_data demo_skb)" "sendable demo_skb"
  by (simp_all add: demo_skb_def frame_ok_def sendable_def uart_consts)

lemma demo_frame: "frame_bytes demo_skb = [0xAA, 0, 3, 1, 0x5A, 0x8A, 3, 0x55]"
  by (simp add: demo_skb_def frame_bytes_def length_bytes_def skb_len_def escape_def special_def uart_consts)

lemma demo_line: "list_all line_event demo_events"
  by (simp add: demo_events_def list_all_iff)

lemma demo_run:
  obtains t where "run_steps (uart_step env) (uartnet_start_xmit demo_skb up_sys) demo_events = Inr t"
    "\<not> tx_busy t"
proof -
  let ?s = "uartnet_start_xmit demo_skb up_sys"
  have inv: "drv_inv ?s" using up_inv demo_skb_ok(2) by (rule xmit_inv)
  have "irq_actions ?s = irq_actions up_sys" by (simp add: uartnet_start_xmit_def Let_def)
  then have irq: "0 < irq_actions ?s" by simp
  have "wire ?s = frame_bytes demo_skb" using xmit_pending [OF up_inv, of demo_skb] by simp
  moreover have "line_out ?s = []" using up_simps by (simp add: uartnet_start_xmit_def Let_def tx_busy_def)
  ultimately have "length (tx_pending (priv ?s)) = 8" by (simp add: wire_def demo_frame)
  with inv irq show thesis
    using tx_rounds [of ?s "replicate 8 (\<lambda>k. if k < 3 then 0 else 0x20)" env] that
    by (auto simp: demo_events_def)
qed

section \<open>Properties\<close>

text \<open>
  C2: End to end. A buffer of 1 to 270 bytes, other than 90, without the byte 0x5A, accepted for transmission on one side is delivered
  unchanged on the other. On the sending side any interrupts, work runs (with any sequence of FIFO-full readings) and polls may happen
  until the transmitter is idle again. The bytes it has put on the line reach the other side, whose interface is up, idle and gets
  memory for the buffer, in any number of pieces: for each there is a receive interrupt and a call of the poll function with a budget of
  at least two. Together these deliver exactly one buffer more, with the same data.
\<close>

theorem uart_end_to_end:
  assumes "drv_inv s" "netif_running s" "netif_device_present s" "\<not> tx_busy s"
    and "frame_ok (skb_data skb)"
    and "list_all line_event es"
    and "run_steps (uart_step env) (uartnet_start_xmit skb s) es = Inr t" "\<not> tx_busy t"
    and "drv_inv r" "0 < irq_actions r" "napi_enabled r" "rx_state (priv r) = UARTNET_STATE_IDLE" "alloc_ok env' (alloc_count r)"
    and "line_out t = line_out s @ concat (map snd polls)" "\<forall>p \<in> set polls. 1 < fst p"
  shows "\<exists>r' skb'. run_steps (uart_step env') r (rx_events polls) = Inr r' \<and>
    delivered r' = delivered r @ [skb'] \<and> skb_data skb' = skb_data skb \<and> drv_inv r'"
proof -
  have "sendable skb" using assms(5) by (simp add: frame_ok_def sendable_def uart_consts)
  with assms(1) have "drv_inv (uartnet_start_xmit skb s)" by (rule xmit_inv)
  from run_wire [OF this assms(6,7)] have "drv_inv t" "wire t = wire (uartnet_start_xmit skb s)" by simp_all
  then have bytes: "concat (map snd polls) = frame_bytes skb"
    using xmit_pending [OF assms(1-4)] idle_wire [OF _ assms(8)] assms(14) by simp
  have rx: "rx_inv r" using assms(9) by (rule rx_inv_idle)
  obtain t0 skb' where t0: "run_steps (rx_feed env') r (frame_bytes skb) = Inr t0" "delivered t0 = delivered r @ [skb']"
    "skb_data skb' = skb_data skb"
    using link_delivers [OF assms(12) rx_inv_bytes [OF rx] assms(5,13)] by fastforce
  then obtain r' where r': "run_steps (uart_step env') r (rx_events polls) = Inr r'" "same_rx t0 r'"
    using polls_feed [OF same_rx_refl, of env' r polls t0] assms(10,11,15) bytes by auto
  have "list_all event_ok (rx_events polls)" using assms(15) by (fastforce simp: list_all_iff)
  then have "drv_inv r'" using drv.run_inv [OF assms(9) _ r'(1)] by blast
  with r' t0 show ?thesis by (auto simp: same_rx_def)
qed

theorem uart_end_to_end_witness:
  "\<exists>t r' skb'.
     run_steps (uart_step demo_env) (uartnet_start_xmit demo_skb up_sys) demo_events = Inr t \<and>
     line_out t = [0xAA, 0, 3, 1, 0x5A, 0x8A, 3, 0x55] \<and>
     run_steps (uart_step demo_env) up_sys (rx_events [(64, [0xAA, 0, 3, 1, 0x5A]), (64, [0x8A, 3, 0x55])]) = Inr r' \<and>
     delivered r' = [skb'] \<and> skb_data skb' = [1, 0xAA, 3]"
proof -
  let ?polls = "[(64, [0xAA, 0, 3, 1, 0x5A]), (64, [0x8A, 3, 0x55])] :: (int \<times> u8 list) list"
  obtain t where t: "run_steps (uart_step demo_env) (uartnet_start_xmit demo_skb up_sys) demo_events = Inr t"
    "\<not> tx_busy t" by (rule demo_run)
  have "drv_inv (uartnet_start_xmit demo_skb up_sys)" using up_inv demo_skb_ok(2) by (rule xmit_inv)
  from run_wire [OF this demo_line t(1)] have "drv_inv t" "wire t = frame_bytes demo_skb"
    using xmit_pending [OF up_inv, of demo_skb] by simp_all
  then have line: "line_out t = line_out up_sys @ concat (map snd ?polls)" using idle_wire [OF _ t(2)] by (simp add: demo_frame)
  have up: "0 < irq_actions up_sys" "alloc_ok demo_env (alloc_count up_sys)" "\<forall>p \<in> set ?polls. 1 < fst p"
    by (simp_all add: demo_env_def)
  obtain r' skb' where r': "run_steps (uart_step demo_env) up_sys (rx_events ?polls) = Inr r'"
    "delivered r' = delivered up_sys @ [skb']" "skb_data skb' = skb_data demo_skb"
    using uart_end_to_end [OF up_inv up_simps(1-3) demo_skb_ok(1) demo_line t up_inv up(1) up_napi up_simps(5) up(2) line up(3)]
    by blast
  have "line_out t = [0xAA, 0, 3, 1, 0x5A, 0x8A, 3, 0x55]" "delivered r' = [skb']" "skb_data skb' = [1, 0xAA, 3]"
    using line r'(2,3) by (simp_all add: demo_skb_def)
  with t(1) r'(1) show ?thesis by blast
qed

text \<open>
  C9: The framing loses frames. The receiver delivers the frame of a buffer of legal size unchanged
  if and only if the buffer does not contain the escape character 0x5A and is not 90 bytes long
  (0x5A again, in the length field): an escaped 0x5A is taken for the start of another escape.
\<close>

theorem link_intact_iff:
  assumes "rx_inv s" "rx_state (priv s) = UARTNET_STATE_IDLE" "alloc_ok env (alloc_count s)"
    and "0 < length (skb_data skb)" "length (skb_data skb) \<le> UARTNET_MTU + ETH_HLEN"
  shows "(\<exists>t skb'. run_steps (rx_feed env) s (frame_bytes skb) = Inr t \<and>
      delivered t = delivered s @ [skb'] \<and> skb_data skb' = skb_data skb) \<longleftrightarrow>
    ESCAPE_CHAR \<notin> set (skb_data skb) \<and> length (skb_data skb) \<noteq> 90"
proof
  assume "\<exists>t skb'. run_steps (rx_feed env) s (frame_bytes skb) = Inr t \<and>
      delivered t = delivered s @ [skb'] \<and> skb_data skb' = skb_data skb"
  then obtain t skb' where t: "run_steps (rx_feed env) s (frame_bytes skb) = Inr t"
    "delivered t = delivered s @ [skb']" "skb_data skb' = skb_data skb" by blast
  then have "rx_inv t" using rx.run_inv [OF assms(1) _ t(1)] by (simp add: list_all_iff)
  with t(2) have "frame_ok (skb_data skb')" by (simp add: rx_inv_def)
  with t(3) show "ESCAPE_CHAR \<notin> set (skb_data skb) \<and> length (skb_data skb) \<noteq> 90"
    by (simp add: frame_ok_def)
next
  assume "ESCAPE_CHAR \<notin> set (skb_data skb) \<and> length (skb_data skb) \<noteq> 90"
  with assms(4,5) have "frame_ok (skb_data skb)" by (simp add: frame_ok_def)
  from link_delivers [OF assms(2) rx_inv_bytes [OF assms(1)] this assms(3)]
  show "\<exists>t skb'. run_steps (rx_feed env) s (frame_bytes skb) = Inr t \<and>
      delivered t = delivered s @ [skb'] \<and> skb_data skb' = skb_data skb"
    by fastforce
qed

theorem link_intact_iff_witness:
  "\<not> (\<exists>t skb'. run_steps (rx_feed demo_env) up_sys (frame_bytes \<lparr>skb_data = [1, 0x5A], skb_room = 2\<rparr>) = Inr t \<and>
     delivered t = delivered up_sys @ [skb'] \<and> skb_data skb' = [1, 0x5A])"
  using link_intact_iff [OF rx_inv_idle [OF up_inv] up_simps(5), of demo_env "\<lparr>skb_data = [1, 0x5A], skb_room = 2\<rparr>"]
  by (simp add: demo_env_def uart_consts)

text \<open>
  Corrupted delivery. For the payload 0x5A 0xAA the receiver does not merely lose the frame: it
  hands a buffer with the bytes 0x7A 0x8A to the network stack.
\<close>

theorem link_corrupts:
  "case run_steps (rx_feed demo_env) up_sys (frame_bytes \<lparr>skb_data = [0x5A, 0xAA], skb_room = 2\<rparr>) of
     Inr t \<Rightarrow> map skb_data (delivered t) = [[0x7A, 0x8A]]
   | Inl e \<Rightarrow> False"
  by code_simp

text \<open>
  C12: The work function always returns. From every state of the invariant and for every sequence of
  flag register readings, as many rounds as bytes are pending (plus one) are enough; it writes a
  prefix of the pending bytes, one per FIFO slot, and stops only when the frame is complete or the
  FIFO is full.
\<close>

theorem tx_task_terminates:
  assumes "tx_wf (priv s)" "length (tx_pending (priv s)) < fuel"
  shows "\<exists>n t. uartnet_tx_task fuel fr s = Inr t \<and> line_out t = line_out s @ take n (tx_pending (priv s)) \<and>
    tx_pending (priv t) = drop n (tx_pending (priv s)) \<and>
    (tx_state (priv t) = TX_STATE_IDLE \<or> fr n AND UART01x_FR_TXFF \<noteq> 0)"
proof -
  obtain n t where "uartnet_tx_task fuel fr s = Inr t" "tx_outcome s n t"
    "tx_state (priv t) = TX_STATE_IDLE \<or> fr n AND UART01x_FR_TXFF \<noteq> 0"
    by (rule tx_task_outcome [OF assms])
  then show ?thesis by (auto simp: tx_outcome_def)
qed

theorem tx_task_terminates_witness:
  "\<exists>n t. uartnet_tx_task 9 (\<lambda>k. if k < 3 then 0 else 0x20) (uartnet_start_xmit demo_skb up_sys) = Inr t \<and>
     line_out t = line_out (uartnet_start_xmit demo_skb up_sys) @
       take n (tx_pending (priv (uartnet_start_xmit demo_skb up_sys))) \<and>
     tx_pending (priv t) = drop n (tx_pending (priv (uartnet_start_xmit demo_skb up_sys))) \<and>
     (tx_state (priv t) = TX_STATE_IDLE \<or> (if n < 3 then 0 else 0x20) AND UART01x_FR_TXFF \<noteq> 0)"
proof -
  let ?s = "uartnet_start_xmit demo_skb up_sys"
  have "drv_inv ?s" using up_inv demo_skb_ok(2) by (rule xmit_inv)
  then have wf: "tx_wf (priv ?s)" by (simp add: drv_inv_def)
  have "wire ?s = frame_bytes demo_skb" using xmit_pending [OF up_inv, of demo_skb] by simp
  moreover have "line_out ?s = []" using up_simps by (simp add: uartnet_start_xmit_def Let_def tx_busy_def)
  ultimately have "length (tx_pending (priv ?s)) < 9" by (simp add: wire_def demo_frame)
  from tx_task_terminates [OF wf this, of "\<lambda>k. if k < 3 then 0 else 0x20"] show ?thesis by simp
qed

text \<open>
  C11: Progress. With a frame pending, rounds of a transmit interrupt followed by the queued work complete it: if at each run of the work
  function the FIFO has room for at least one byte, as many rounds as bytes are pending put exactly the pending bytes on the line,
  release the buffer and count the packet once, and leave the transmitter idle with its queue awake.
\<close>

theorem tx_completes:
  assumes "drv_inv s" "0 < irq_actions s" "tx_skb (priv s) = Some skb"
    and "\<forall>fr \<in> set frs. fr 0 AND UART01x_FR_TXFF = 0" "length (tx_pending (priv s)) \<le> length frs"
  shows "\<exists>t. run_steps (uart_step env) s (tx_events frs) = Inr t \<and> drv_inv t \<and> \<not> tx_busy t \<and> \<not> queue_stopped t \<and>
    line_out t = line_out s @ tx_pending (priv s) \<and> freed t = freed s @ [skb] \<and>
    tx_packets (stats t) = tx_packets (stats s) + 1"
proof -
  have busy: "tx_busy s" using assms(1,3) tx_wf_skb [of "priv s"] by (simp add: drv_inv_def tx_busy_def)
  obtain t where t: "run_steps (uart_step env) s (tx_events frs) = Inr t" "\<not> tx_busy t" "tx_progress s t"
    using tx_rounds [OF assms(1,2,4,5), of env] by blast
  have "list_all line_event (tx_events frs)" by (simp add: list_all_iff)
  from run_wire [OF assms(1) this t(1)] have inv: "drv_inv t" "wire t = wire s" by simp_all
  moreover have "netif_running t" using busy assms(1) t(3) by (simp add: drv_inv_def tx_progress_def)
  ultimately show ?thesis
    using t busy assms(3) idle_wire [OF inv(1) t(2)] by (auto simp: tx_progress_def wire_def drv_inv_def)
qed

theorem tx_completes_witness:
  "\<exists>t. run_steps (uart_step demo_env) (uartnet_start_xmit demo_skb up_sys) demo_events = Inr t \<and> \<not> tx_busy t \<and> \<not> queue_stopped t \<and>
    line_out t = [0xAA, 0, 3, 1, 0x5A, 0x8A, 3, 0x55] \<and> freed t = [demo_skb]"
proof -
  let ?s = "uartnet_start_xmit demo_skb up_sys"
  have inv: "drv_inv ?s" using up_inv demo_skb_ok(2) by (rule xmit_inv)
  have st: "0 < irq_actions ?s" "tx_skb (priv ?s) = Some demo_skb" "line_out ?s = []" "freed ?s = []"
    using up_simps up_freed by (simp_all add: uartnet_start_xmit_def Let_def tx_busy_def)
  have pend: "tx_pending (priv ?s) = [0xAA, 0, 3, 1, 0x5A, 0x8A, 3, 0x55]"
    using xmit_pending [OF up_inv, of demo_skb] st(3) by (simp add: wire_def demo_frame)
  have frs: "\<forall>fr \<in> set (replicate 8 (\<lambda>k :: nat. if k < 3 then 0 else 0x20 :: u32)). fr 0 AND UART01x_FR_TXFF = 0" by simp
  have "length (tx_pending (priv ?s)) \<le> length (replicate 8 (\<lambda>k :: nat. if k < 3 then 0 else 0x20 :: u32))" by (simp add: pend)
  from tx_completes [OF inv st(1,2) frs this, of demo_env] st pend show ?thesis by (auto simp: demo_events_def)
qed



text \<open>
  C25: A frame without data hangs the driver: with an empty buffer the work function reaches the data
  state with nothing to send and, as long as the FIFO has room, never returns (it holds the transmit
  lock with interrupts off meanwhile).
\<close>

theorem tx_empty_hangs:
  assumes "netif_running s" "netif_device_present s" "\<not> tx_busy s" "skb_data skb = []"
    and "\<And>k. fr k AND UART01x_FR_TXFF = 0"
  shows "uartnet_tx_task fuel fr (uartnet_start_xmit skb s) = Inl Diverges"
proof -
  let ?s = "uartnet_start_xmit skb s"
  let ?s1 = "with_priv (\<lambda>p. p\<lparr>tx_state := TX_STATE_LENGTH\<rparr>) (writel (ucast FRAME_HEADER) UART_DR ?s)"
  let ?s2 = "with_priv tx_advance (writel 0 UART_DR ?s1)"
  let ?s3 = "with_priv (\<lambda>p. (tx_advance p)\<lparr>tx_state := TX_STATE_DATA, tx_current_ptr := DataPtr 0,
     tx_current_count := 0, tx_escape_next := 0\<rparr>) (writel 0 UART_DR ?s2)"
  have p: "priv ?s = (priv s)\<lparr>tx_skb := Some skb, tx_state := TX_STATE_HEADER, tx_length_bytes := [0, 0],
      tx_current_ptr := LengthPtr 0, tx_current_count := 2, tx_escape_next := 0\<rparr>"
    using assms(1-4) by (simp add: uartnet_start_xmit_def tx_busy_def skb_len_def Let_def)
  have step1: "tx_step ?s = Inr (?s1, False)" by (simp add: tx_step_def p)
  have step2: "tx_step ?s1 = Inr (?s2, False)"
    by (simp add: tx_step_def p tx_send_byte_def tx_deref.simps tx_advance_def uart_consts)
  have step3: "tx_step ?s2 = Inr (?s3, False)"
    using assms(4)
    by (simp add: tx_step_def p tx_send_byte_def tx_deref.simps tx_advance_def uart_consts skb_len_def)
  have stuck: "tx_loop f fr k ?s3 = Inl Diverges" for f k
    by (rule tx_loop_stuck) (simp_all add: assms(5))
  have "tx_loop fuel fr 0 ?s = Inl Diverges"
    using assms(5) stuck step1 step2 step3
    by (cases fuel; cases "fuel - 1"; cases "fuel - 2") (simp_all add: p tx_advance_def)
  then show ?thesis by (simp add: uartnet_tx_task_def)
qed

theorem tx_empty_hangs_witness:
  "uartnet_tx_task 1000 (\<lambda>_. 0) (uartnet_start_xmit \<lparr>skb_data = [], skb_room = 0\<rparr> up_sys) = Inl Diverges"
  by (rule tx_empty_hangs) simp_all

text \<open>
  C20: The poll function returns within its budget, whatever the line delivers: the count it returns is the number of buffers it handed to
  the network stack, and every buffer delivered has between 1 and 270 bytes. If it used less than its budget, the FIFO is empty, NAPI
  is completed and exactly the two receive interrupts are added to the mask; if it used the whole budget, it neither completes NAPI
  nor touches a register, so that it is called again with the interrupts still masked.
\<close>

theorem poll_within_budget:
  assumes "rx_inv s" "0 \<le> budget"
  shows "\<exists>t w used rest. uartnet_poll env budget fifo s = Inr (t, w, rest) \<and> fifo = used @ rest \<and>
    0 \<le> w \<and> w \<le> budget \<and> int (length (delivered t)) = int (length (delivered s)) + w \<and>
    (if w < budget
     then rest = [] \<and> \<not> napi_scheduled t \<and> last (calls t) = Writel (regs t UART_IMSC) UART_IMSC \<and>
       regs t = (regs s)(UART_IMSC := regs s UART_IMSC OR UART011_RTIM OR UART011_RXIM)
     else napi_scheduled t = napi_scheduled s \<and> regs t = regs s) \<and>
    (\<forall>skb \<in> set (delivered t). skb_data skb \<noteq> [] \<and> length (skb_data skb) \<le> 270)"
proof -
  obtain u w used rest where u: "poll_loop env budget 0 fifo s = Inr (u, w, rest)" "rx_inv u"
    "0 \<le> w" "w \<le> budget" "int (length (delivered u)) = int (length (delivered s)) + w"
    "fifo = used @ rest" "rest = [] \<or> w = budget"
    using poll_loop_safe [OF assms, of env fifo] by auto
  have same: "regs u = regs s" "napi_scheduled u = napi_scheduled s"
    using poll_loop_tx [OF u(1)] by (simp_all add: same_tx_def)
  define t where "t = (if w < budget then writel (regs u UART_IMSC OR UART011_RTIM OR UART011_RXIM) UART_IMSC
    ((call (Napi_complete_done w) u)\<lparr>napi_scheduled := False\<rparr>) else u)"
  have run: "uartnet_poll env budget fifo s = Inr (t, w, rest)"
    using u(1) by (simp add: uartnet_poll_def t_def)
  have del: "delivered t = delivered u" by (simp add: t_def)
  have "if w < budget
     then rest = [] \<and> \<not> napi_scheduled t \<and> last (calls t) = Writel (regs t UART_IMSC) UART_IMSC \<and>
       regs t = (regs s)(UART_IMSC := regs s UART_IMSC OR UART011_RTIM OR UART011_RXIM)
     else napi_scheduled t = napi_scheduled s \<and> regs t = regs s"
    using u(7) same by (auto simp: t_def)
  moreover have "\<forall>skb \<in> set (delivered t). skb_data skb \<noteq> [] \<and> length (skb_data skb) \<le> 270"
    using u(2) by (auto simp: del rx_inv_def frame_ok_def uart_consts)
  moreover have "int (length (delivered t)) = int (length (delivered s)) + w" using u(5) del by simp
  ultimately show ?thesis using run u(3,4,6) by blast
qed

theorem poll_within_budget_witness:
  "\<exists>t w used rest. uartnet_poll demo_env 1 (frame_bytes demo_skb @ [0xAA]) up_sys = Inr (t, w, rest) \<and>
     frame_bytes demo_skb @ [0xAA] = used @ rest \<and> w \<le> 1 \<and>
     (if w < 1 then rest = [] else regs t = regs up_sys \<and> napi_scheduled t = napi_scheduled up_sys)"
proof -
  have "0 \<le> (1 :: int)" by simp
  from poll_within_budget [OF rx_inv_idle [OF up_inv] this, of demo_env "frame_bytes demo_skb @ [0xAA]"]
  show ?thesis by (metis (mono_tags, lifting))
qed

section \<open>Updates of the interrupt mask that overlap\<close>

text \<open>
  The interrupt mask is read and written back by functions that hold different locks or none. The second half of the update at the end
  of the poll function, for the value that the first half has read:
\<close>

definition poll_unmask :: "u32 \<Rightarrow> uart_sys \<Rightarrow> uart_sys" where
  "poll_unmask imsc s = writel (imsc OR UART011_RTIM OR UART011_RXIM) UART_IMSC s"

text \<open>A frame is pending, and nothing is left that would run the work function.\<close>

definition stalled :: "uart_sys \<Rightarrow> bool" where
  "stalled s \<longleftrightarrow> rx_inv s \<and> tx_busy s \<and> queue_stopped s \<and> netif_running s \<and> \<not> work_queued s \<and> \<not> txim_on s"

text \<open>Everything but a transmit interrupt, which is masked, and closing the interface.\<close>

fun txim_masked_event :: "uart_event \<Rightarrow> bool" where
  "txim_masked_event (Irq mis) \<longleftrightarrow> mis AND UART011_TXIS = 0"
| "txim_masked_event (Poll budget fifo) \<longleftrightarrow> 0 \<le> budget"
| "txim_masked_event DevClose \<longleftrightarrow> False"
| "txim_masked_event _ \<longleftrightarrow> True"

lemma masked_status: "mis AND UART011_TXIS = 0 \<Longrightarrow> (mis AND NOT (UART011_RTIS OR UART011_RXIS)) AND UART011_TXIS = 0"
  using and_exp_eq_0_iff_not_bit [of mis 5] and_exp_eq_0_iff_not_bit [of "mis AND NOT (UART011_RTIS OR UART011_RXIS)" 5]
  by (simp add: UART011_TXIS_def bit_simps)

lemma stalled_step:
  assumes "stalled s" "txim_masked_event e"
  shows "\<exists>t. uart_step env s e = Inr t \<and> stalled t \<and> line_out t = line_out s"
proof (cases e)
  case (Xmit skb)
  have "rx_inv (uartnet_start_xmit skb s) \<longleftrightarrow> rx_inv s"
    by (rule rx_inv_part) (simp_all add: uartnet_start_xmit_def rx_part_def Let_def)
  with Xmit assms show ?thesis by (auto simp: stalled_def uartnet_start_xmit_def tx_busy_def txim_on_def Let_def)
next
  case (Irq mis)
  have "rx_inv (uartnet_interrupt mis s) \<longleftrightarrow> rx_inv s"
    using interrupt_rx(1) [of s mis] by (intro rx_inv_part) (simp_all add: same_rx_def)
  with Irq assms masked_status [of mis] show ?thesis
    by (simp add: stalled_def uartnet_interrupt_def irq_rx_def tx_busy_def txim_bit imsc_bits Let_def)
next
  case (Work fr)
  with assms show ?thesis by (simp add: stalled_def)
next
  case (Poll budget fifo)
  then have b: "0 \<le> budget" using assms(2) by simp
  obtain u w rest where u: "poll_loop env budget 0 fifo s = Inr (u, w, rest)" "rx_inv u"
    using poll_loop_safe [of s 0 budget env fifo] assms(1) b by (auto simp: stalled_def)
  have same: "same_tx s u" by (rule poll_loop_tx [OF u(1)])
  let ?u = "writel (regs u UART_IMSC OR UART011_RTIM OR UART011_RXIM) UART_IMSC
    ((call (Napi_complete_done w) u)\<lparr>napi_scheduled := False\<rparr>)"
  have "rx_inv ?u \<longleftrightarrow> rx_inv u" by (rule rx_inv_part) simp_all
  with Poll assms(1) u same show ?thesis
    by (auto simp: uartnet_poll_def stalled_def tx_busy_def txim_bit same_tx_def tx_part_def imsc_bits)
next
  case (DevOpen err)
  with assms show ?thesis by (simp add: stalled_def)
qed (use assms in simp)

lemma stalled_run:
  "stalled s \<Longrightarrow> list_all txim_masked_event es \<Longrightarrow>
     \<exists>t. run_steps (uart_step env) s es = Inr t \<and> stalled t \<and> line_out t = line_out s"
proof (induction es arbitrary: s)
  case (Cons e es)
  then obtain u where u: "uart_step env s e = Inr u" "stalled u" "line_out u = line_out s"
    using stalled_step [of s e env] by auto
  then obtain t where "run_steps (uart_step env) u es = Inr t" "stalled t" "line_out t = line_out u"
    using Cons.IH [OF u(2)] Cons.prems(2) by auto
  with u show ?case by auto
qed simp

text \<open>
  C27: A lost update of the interrupt mask stalls the transmitter for good. The poll function ends by reading the mask, adding the receive
  interrupts and writing it back, under no lock. If a frame is accepted between the reading and the writing, the write
  takes the transmit interrupt away again. If then the FIFO is full before the work function has written the frame, nothing continues it:
  whatever requests, work runs, polls, attempts to open and interrupts from the other sources follow, the rest of the frame stays
  unsent and the queue stopped.
\<close>

theorem imsc_update_lost:
  assumes "drv_inv s" "netif_running s" "netif_device_present s" "\<not> tx_busy s" "\<not> txim_on s" "sendable skb"
    and "k < length (frame_bytes skb)" "fr k AND UART01x_FR_TXFF \<noteq> 0" "list_all txim_masked_event es" "0 < budget"
  shows "uartnet_poll env budget [] s =
      Inr (poll_unmask (regs s UART_IMSC) ((call (Napi_complete_done 0) s)\<lparr>napi_scheduled := False\<rparr>), 0, []) \<and>
    (\<exists>t m. run_steps (uart_step env) (poll_unmask (regs s UART_IMSC) (uartnet_start_xmit skb s)) (Work fr # es) = Inr t \<and>
      m \<le> k \<and> line_out t = line_out s @ take m (frame_bytes skb) \<and> tx_busy t \<and> queue_stopped t)"
proof -
  let ?x = "uartnet_start_xmit skb s"
  let ?p = "poll_unmask (regs s UART_IMSC) ?x"
  let ?w = "?p\<lparr>work_queued := False\<rparr>"
  have inv: "drv_inv ?x" using assms(1,6) by (rule xmit_inv)
  have x: "work_queued ?x" "netif_running ?x" "queue_stopped ?x" "line_out ?x = line_out s"
    using assms(2-4) by (simp_all add: uartnet_start_xmit_def Let_def tx_busy_def)
  have wf: "tx_wf (priv ?w)" and pend: "tx_pending (priv ?w) = frame_bytes skb" and line: "line_out ?w = line_out s"
    using inv x xmit_pending [OF assms(1-4), of skb] by (simp_all add: poll_unmask_def drv_inv_def wire_def)
  have fuel: "length (tx_pending (priv ?w)) < tx_fuel ?p" by (simp add: tx_fuel_def)
  obtain m u where u: "uartnet_tx_task (tx_fuel ?p) fr ?w = Inr u" "tx_outcome ?w m u"
    "\<forall>j<m. fr j AND UART01x_FR_TXFF = 0"
    "regs u UART_IMSC = (if tx_state (priv u) = TX_STATE_IDLE then regs ?w UART_IMSC AND NOT UART011_TXIM else regs ?w UART_IMSC)"
    by (rule tx_task_outcome [OF wf fuel])
  have m: "m \<le> k" using u(3) assms(8) by (metis not_le)
  have "tx_pending (priv u) \<noteq> []" using u(2) pend m assms(7) by (simp add: tx_outcome_def)
  then have busy: "tx_busy u" using u(2) tx_pending_idle [of "priv u"] by (simp add: tx_outcome_def tx_busy_def)
  have "rx_inv u \<longleftrightarrow> rx_inv ?x"
    using u(2) by (intro rx_inv_part) (simp_all add: tx_outcome_def same_env_def poll_unmask_def)
  moreover have "\<not> txim_on u" using u(4) busy assms(5) by (simp add: txim_bit poll_unmask_def imsc_bits tx_busy_def)
  ultimately have "stalled u"
    using u(2) busy inv x by (auto simp: stalled_def tx_outcome_def same_env_def poll_unmask_def drv_inv_def tx_busy_def)
  then obtain t where t: "run_steps (uart_step env) u es = Inr t" "stalled t" "line_out t = line_out u"
    using stalled_run assms(9) by blast
  have "run_steps (uart_step env) ?p (Work fr # es) = Inr t" using t(1) u(1) x(1) by (simp add: poll_unmask_def)
  moreover have "line_out t = line_out s @ take m (frame_bytes skb)" using t(3) u(2) pend line by (simp add: tx_outcome_def)
  moreover have "uartnet_poll env budget [] s =
      Inr (poll_unmask (regs s UART_IMSC) ((call (Napi_complete_done 0) s)\<lparr>napi_scheduled := False\<rparr>), 0, [])"
    using assms(10) by (simp add: uartnet_poll_def poll_unmask_def)
  ultimately show ?thesis using t(2) m by (auto simp: stalled_def)
qed

theorem imsc_update_lost_witness:
  "\<exists>t m. run_steps (uart_step demo_env) (poll_unmask (regs up_sys UART_IMSC) (uartnet_start_xmit demo_skb up_sys))
      [Work (\<lambda>k. if k < 3 then 0 else 0x20), Irq UART011_RXIS, Poll 64 [], Xmit demo_skb, Work (\<lambda>k. 0)] = Inr t \<and>
    m \<le> 3 \<and> line_out t = take m [0xAA, 0, 3, 1, 0x5A, 0x8A, 3, 0x55] \<and> tx_busy t"
proof -
  let ?fr = "\<lambda>k :: nat. if k < 3 then 0 else 0x20 :: u32"
  let ?es = "[Irq UART011_RXIS, Poll 64 [], Xmit demo_skb, Work (\<lambda>k. 0)]"
  have off: "\<not> txim_on up_sys"
    by (simp add: txim_bit up_sys_def uartnet_open_def open_hw_def open_enable_def Let_def uart_bits bit_simps)
  have full: "3 < length (frame_bytes demo_skb)" "?fr 3 AND UART01x_FR_TXFF \<noteq> 0" "list_all txim_masked_event ?es" "0 < (64 :: int)"
    by (simp_all add: demo_frame UART01x_FR_TXFF_def UART011_RXIS_def UART011_TXIS_def)
  obtain t m where "run_steps (uart_step demo_env) (poll_unmask (regs up_sys UART_IMSC) (uartnet_start_xmit demo_skb up_sys))
      (Work ?fr # ?es) = Inr t" "m \<le> 3" "line_out t = line_out up_sys @ take m (frame_bytes demo_skb)" "tx_busy t"
    using imsc_update_lost [where fr = ?fr and k = 3, OF up_inv up_simps(1-3) off demo_skb_ok(2) full, of demo_env] by blast
  moreover have "line_out up_sys @ take m (frame_bytes demo_skb) = take m [0xAA, 0, 3, 1, 0x5A, 0x8A, 3, 0x55]" by (simp add: demo_frame)
  ultimately show ?thesis by metis
qed

text \<open>
  Stopping the interface releases both buffers the driver holds, masks every interrupt, disables
  the UART and cancels the queued work, so that nothing of the driver runs afterwards.
\<close>

theorem stop_releases:
  "let t = fst (uartnet_stop s) in
     rx_skb (priv t) = None \<and> tx_skb (priv t) = None \<and>
     freed t = freed s @ (case rx_skb (priv s) of None \<Rightarrow> [] | Some skb \<Rightarrow> [skb])
       @ (case tx_skb (priv s) of None \<Rightarrow> [] | Some skb \<Rightarrow> [skb]) \<and>
     regs t UART_IMSC = 0 \<and> regs t UART_CR = 0 \<and> \<not> work_queued t \<and> \<not> napi_enabled t \<and> queue_stopped t"
  by (simp add: uartnet_stop_def Let_def)

section \<open>Opening the interface\<close>

text \<open>
  An interface is deaf when its receive interrupts are masked and no poll is scheduled: only the
  poll function unmasks them.
\<close>

definition deaf :: "uart_sys \<Rightarrow> bool" where
  "deaf s \<longleftrightarrow> \<not> napi_scheduled s \<and> regs s UART_IMSC AND (UART011_RTIM OR UART011_RXIM) = 0"

text \<open>The calls that can happen while the interface stays up and the receive interrupts are masked.\<close>

fun unmasked_event :: "uart_event \<Rightarrow> bool" where
  "unmasked_event (Irq mis) \<longleftrightarrow> mis AND (UART011_RTIS OR UART011_RXIS) = 0"
| "unmasked_event (Xmit skb) \<longleftrightarrow> sendable skb"
| "unmasked_event (Work fr) \<longleftrightarrow> True"
| "unmasked_event (Poll budget fifo) \<longleftrightarrow> 0 \<le> budget"
| "unmasked_event _ \<longleftrightarrow> False"

lemma deaf_bits: "deaf s \<longleftrightarrow> \<not> napi_scheduled s \<and> \<not> bit (regs s UART_IMSC) 4 \<and> \<not> bit (regs s UART_IMSC) 6"
proof -
  have "x AND (UART011_RTIM OR UART011_RXIM) = (x AND 2 ^ 6) OR (x AND 2 ^ 4)" for x :: u32
    by (simp only: UART011_RTIM_def UART011_RXIM_def bit.conj_disj_distrib) simp
  then show ?thesis
    using and_exp_eq_0_iff_not_bit [of "regs s UART_IMSC" 4] and_exp_eq_0_iff_not_bit [of "regs s UART_IMSC" 6]
    by (auto simp: deaf_def or_eq_0_iff)
qed

lemma work_imsc:
  assumes inv: "drv_inv s" and run: "uartnet_tx_task (tx_fuel s) fr (s\<lparr>work_queued := False\<rparr>) = Inr t"
  shows "napi_scheduled t = napi_scheduled s"
    "regs t UART_IMSC = regs s UART_IMSC \<or> regs t UART_IMSC = regs s UART_IMSC AND NOT UART011_TXIM"
proof -
  from inv have "tx_wf (priv (s\<lparr>work_queued := False\<rparr>))" by (simp add: drv_inv_def)
  then obtain n u where "uartnet_tx_task (tx_fuel s) fr (s\<lparr>work_queued := False\<rparr>) = Inr u"
    "tx_outcome (s\<lparr>work_queued := False\<rparr>) n u"
    "regs u UART_IMSC = (if tx_state (priv u) = TX_STATE_IDLE
       then regs (s\<lparr>work_queued := False\<rparr>) UART_IMSC AND NOT UART011_TXIM
       else regs (s\<lparr>work_queued := False\<rparr>) UART_IMSC)"
    by (rule tx_task_outcome [of _ "tx_fuel s" fr]) (simp_all add: tx_fuel_def)
  with run show "napi_scheduled t = napi_scheduled s"
    "regs t UART_IMSC = regs s UART_IMSC \<or> regs t UART_IMSC = regs s UART_IMSC AND NOT UART011_TXIM"
    by (auto simp: tx_outcome_def same_env_def)
qed

lemma deaf_step:
  assumes inv: "drv_inv s" and deaf: "deaf s" and ev: "unmasked_event e" and step: "uart_step env s e = Inr t"
  shows "deaf t"
proof (cases e)
  case (Irq mis)
  with ev step deaf show ?thesis
    by (auto simp: deaf_def uartnet_interrupt_def irq_tx_def Let_def split: if_splits)
next
  case (Xmit skb)
  with step deaf show ?thesis
    by (auto simp: deaf_bits uartnet_start_xmit_def Let_def uart_bits bit_simps split: if_splits)
next
  case (Work fr)
  with step deaf show ?thesis
    using work_imsc [OF inv, of fr t]
    by (cases "work_queued s") (auto simp: deaf_bits uart_bits bit_simps)
next
  case (Poll budget fifo)
  with step deaf show ?thesis by (simp add: deaf_def)
qed (use ev in auto)

lemma deaf_run:
  "drv_inv s \<Longrightarrow> deaf s \<Longrightarrow> list_all unmasked_event es \<Longrightarrow>
     \<exists>t. run_steps (uart_step env) s es = Inr t \<and> deaf t"
proof (induction es arbitrary: s)
  case (Cons e es)
  then have "event_ok e" by (cases e) simp_all
  with Cons.prems obtain u where u: "uart_step env s e = Inr u" "drv_inv u"
    using drv.step_safe [of s e env] by blast
  with Cons.prems have "deaf u" using deaf_step [of s e env u] by simp
  with Cons u show ?case by simp
qed simp

text \<open>
  C26: Opening the interface can leave it deaf. \<^verbatim>\<open>uartnet_open\<close> unmasks the receive
  interrupts before it enables NAPI: if one arrives in between, its handler masks them and cannot
  schedule the poll function, the only code that unmasks them. From then on no sequence of transmit
  requests, work runs, polls and interrupts from the sources left unmasked makes the interface
  receive again.
\<close>

theorem open_race_deaf:
  assumes "drv_inv s" "\<not> netif_running s" "\<not> napi_enabled s" "\<not> napi_scheduled s"
    and "mis AND (UART011_RTIS OR UART011_RXIS) \<noteq> 0" and "list_all unmasked_event es"
  shows "uartnet_open 0 (s\<lparr>netif_running := True\<rparr>) =
      (open_enable (open_hw (open_reset (s\<lparr>netif_running := True\<rparr>))), 0) \<and>
    (\<exists>t. run_steps (uart_step env)
        (open_enable (uartnet_interrupt mis (open_hw (open_reset (s\<lparr>netif_running := True\<rparr>))))) es = Inr t \<and>
      deaf t)"
proof -
  let ?s = "s\<lparr>netif_running := True\<rparr>"
  let ?h = "open_hw (open_reset ?s)"
  let ?t = "open_enable (uartnet_interrupt mis ?h)"
  from open_inv [OF assms(1,2), of 0] have "drv_inv (open_enable ?h)"
    by (simp add: uartnet_open_def)
  then have "drv_inv (uartnet_interrupt mis (open_enable ?h))" by (rule interrupt_inv)
  moreover have "priv (uartnet_interrupt mis (open_enable ?h)) = priv ?t"
    "regs (uartnet_interrupt mis (open_enable ?h)) = regs ?t"
    "delivered (uartnet_interrupt mis (open_enable ?h)) = delivered ?t"
    "netif_running (uartnet_interrupt mis (open_enable ?h)) = netif_running ?t"
    "queue_stopped (uartnet_interrupt mis (open_enable ?h)) = queue_stopped ?t"
    by (simp_all add: open_enable_def uartnet_interrupt_def irq_rx_def irq_tx_def Let_def)
  ultimately have "drv_inv ?t"
    by (simp add: drv_inv_def rx_inv_def tx_busy_def txim_on_def)
  moreover have "deaf ?t"
    using assms
    by (simp add: deaf_bits open_enable_def uartnet_interrupt_def irq_rx_def irq_tx_def Let_def open_hw_def
        open_reset_def uart_bits bit_simps)
  ultimately show ?thesis
    using deaf_run [of ?t es env] assms(6) by (simp add: uartnet_open_def)
qed

theorem open_race_deaf_witness:
  "uartnet_open 0 (zero_sys\<lparr>netif_running := True\<rparr>) =
      (open_enable (open_hw (open_reset (zero_sys\<lparr>netif_running := True\<rparr>))), 0) \<and>
    (\<exists>t. run_steps (uart_step demo_env)
        (open_enable (uartnet_interrupt UART011_RXIS (open_hw (open_reset (zero_sys\<lparr>netif_running := True\<rparr>)))))
        [Xmit demo_skb, Irq UART011_TXIS, Work (\<lambda>_. 0), Poll 64 [0xAA]] = Inr t \<and> deaf t)"
  by (rule open_race_deaf [OF zero_inv])
    (simp_all add: zero_sys_def zero_priv_def UART011_RXIS_def UART011_RTIS_def UART011_TXIS_def
      demo_skb_def sendable_def)

text \<open>
  Every open of the interface adds one more interrupt handler. \<^verbatim>\<open>uartnet_stop\<close> leaves
  the handler to the managed-resource mechanism, which releases it only when the device goes away:
  after n cycles of open and close there are n handlers more for the same device.
\<close>

theorem reopen_adds_handlers:
  assumes "\<not> netif_running s"
  shows "\<exists>t. run_steps (uart_step env) s (concat (replicate n [DevOpen 0, DevClose])) = Inr t \<and>
    \<not> netif_running t \<and> irq_actions t = irq_actions s + n"
  using assms
proof (induction n arbitrary: s)
  case (Suc n)
  define u where "u = fst (uartnet_stop ((fst (uartnet_open 0 (s\<lparr>netif_running := True\<rparr>)))\<lparr>netif_running := False\<rparr>))"
  have u: "\<not> netif_running u" "irq_actions u = irq_actions s + 1"
    by (simp_all add: u_def uartnet_stop_def uartnet_open_def open_reset_def open_hw_def open_enable_def Let_def)
  have "run_steps (uart_step env) s [DevOpen 0, DevClose] = Inr u"
    using Suc.prems
    by (simp add: u_def uartnet_open_def open_reset_def open_hw_def open_enable_def Let_def)
  with Suc.IH [OF u(1)] u(2) Suc.prems show ?case
    by (simp add: u_def uartnet_open_def open_reset_def open_hw_def open_enable_def Let_def)
qed simp

theorem reopen_adds_handlers_witness:
  "\<exists>t. run_steps (uart_step demo_env) zero_sys (concat (replicate 3 [DevOpen 0, DevClose])) = Inr t \<and>
    \<not> netif_running t \<and> irq_actions t = irq_actions zero_sys + 3"
  by (rule reopen_adds_handlers) (simp add: zero_sys_def)

end
