(* ===== verification/Uart_Probe.thy ===== *)
theory Uart_Probe
  imports Uart_Net
begin

text \<open>
  \<^verbatim>\<open>uartnet_probe\<close> and \<^verbatim>\<open>uartnet_remove\<close> of \<^verbatim>\<open>uart_net.c\<close>: the resources that
  the two functions acquire and release, with every \<^verbatim>\<open>goto error\<close> path, and the life of a device from the one to the
  other. What each kernel function answers is an input (\<open>probe_env\<close>).

  The driver keeps its state in the private area of the net device, but asks for an area of zero bytes. It lives on the bytes that the
  allocator's rounding leaves behind the net device; their number is an input too, and every access checks it.
\<close>

section \<open>State\<close>

record netdev_conf =
  conf_mtu :: nat
  conf_min_mtu :: nat
  conf_max_mtu :: nat
  conf_tx_queue_len :: nat

text \<open>
  The kernel's answers. \<open>sizeof_priv\<close> is the size of \<^verbatim>\<open>struct uartnet_priv\<close>, \<open>netdev_slack\<close> the number of usable
  bytes behind what was requested of the allocator. \<open>priv_irq\<close> is the content of \<^verbatim>\<open>priv->irq\<close>, a field that the driver
  reads and never writes.
\<close>

record probe_env =
  sizeof_priv :: nat
  netdev_slack :: nat
  alloc_netdev_ok :: bool
  mem_resource_ok :: bool
  ioremap_err :: int
  platform_irq :: int
  create_wq_ok :: bool
  register_err :: int
  priv_irq :: int

record probe_sys =
  dev_sys :: uart_sys
  netdev_allocated :: bool
  netdev_priv_size :: nat
  netdev_irq :: int
  napi_added :: bool
  napi_weight :: int
  conf :: netdev_conf
  wq_created :: bool
  registered :: bool
  drvdata_set :: bool

section \<open>Operations\<close>

definition probe_init_priv :: "uart_sys \<Rightarrow> uart_sys" where
  "probe_init_priv s = with_priv (\<lambda>p. p\<lparr>rx_state := UARTNET_STATE_IDLE, tx_state := TX_STATE_IDLE,
     tx_skb := None, tx_intr := 0, rx_intr := 0\<rparr>) s"

definition probe_config_uart :: "uart_sys \<Rightarrow> uart_sys" where
  "probe_config_uart s = writel (UART011_IFLS_TX4_8 OR UART011_IFLS_RX7_8) UART_IFLS
     (writel 0x10 UART_LCRH (writel 0 UART_CR s))"

text \<open>An access to the private area.\<close>

definition netdev_priv :: "probe_env \<Rightarrow> probe_sys \<Rightarrow> 'a result \<Rightarrow> 'a result" where
  "netdev_priv e p k = (if netdev_priv_size p < sizeof_priv e then Inl OutOfBounds else k)"

text \<open>
  What the kernel does: \<^verbatim>\<open>alloc_netdev\<close> with the requested size of the private area; \<^verbatim>\<open>unregister_netdev\<close> closes a
  running interface first; \<^verbatim>\<open>free_netdev\<close> deletes the NAPI instances that are left, and with the net device go the interrupt
  handlers that were requested for it.
\<close>

definition alloc_netdev :: "probe_env \<Rightarrow> nat \<Rightarrow> probe_sys \<Rightarrow> probe_sys" where
  "alloc_netdev e sz p = p\<lparr>netdev_allocated := True, netdev_priv_size := sz + netdev_slack e\<rparr>"

definition unregister_netdev :: "probe_sys \<Rightarrow> probe_sys" where
  "unregister_netdev p =
     (let s = dev_sys p in
      p\<lparr>dev_sys := (if netif_running s then fst (uartnet_stop (s\<lparr>netif_running := False\<rparr>)) else s), registered := False\<rparr>)"

definition netif_napi_del :: "probe_sys \<Rightarrow> probe_sys" where
  "netif_napi_del p = p\<lparr>napi_added := False\<rparr>"

definition destroy_workqueue :: "probe_sys \<Rightarrow> probe_sys" where
  "destroy_workqueue p = p\<lparr>wq_created := False\<rparr>"

definition free_netdev :: "probe_sys \<Rightarrow> probe_sys" where
  "free_netdev p = p\<lparr>netdev_allocated := False, napi_added := False, dev_sys := (dev_sys p)\<lparr>irq_actions := 0\<rparr>\<rparr>"

definition uartnet_probe :: "probe_env \<Rightarrow> probe_sys \<Rightarrow> (int \<times> probe_sys) result" where
  "uartnet_probe e p0 =
     (if \<not> alloc_netdev_ok e then Inr (- ENOMEM, p0)
      else
        let p = alloc_netdev e 0 p0 in
        netdev_priv e p (
        let p1 = p\<lparr>dev_sys := probe_init_priv (dev_sys p)\<rparr> in
        if \<not> mem_resource_ok e then Inr (- ENODEV, free_netdev p1)
        else if ioremap_err e \<noteq> 0 then Inr (ioremap_err e, free_netdev p1)
        else
          let p2 = p1\<lparr>netdev_irq := platform_irq e\<rparr> in
          if platform_irq e < 0 then Inr (priv_irq e, free_netdev p2)
          else
            let p3 = p2\<lparr>dev_sys := probe_config_uart (dev_sys p2), napi_added := True,
                  napi_weight := NAPI_WEIGHT,
                  conf := \<lparr>conf_mtu = UARTNET_MTU, conf_min_mtu = ETH_MIN_MTU, conf_max_mtu = UARTNET_MTU,
                           conf_tx_queue_len = TX_QUEUE_LEN\<rparr>\<rparr>
            in if \<not> create_wq_ok e then Inr (- ENOMEM, free_netdev p3)
               else
                 let p4 = p3\<lparr>wq_created := True\<rparr> in
                 if register_err e \<noteq> 0
                 then Inr (register_err e, free_netdev (destroy_workqueue (netif_napi_del p4)))
                 else Inr (0, p4\<lparr>registered := True, drvdata_set := True\<rparr>)))"

text \<open>Without the pointer that a complete probe stores, the net device is a null pointer.\<close>

definition uartnet_remove :: "probe_env \<Rightarrow> probe_sys \<Rightarrow> (int \<times> probe_sys) result" where
  "uartnet_remove e p =
     (if \<not> drvdata_set p then Inl NullDeref
      else netdev_priv e p (Inr (0, free_netdev (destroy_workqueue (netif_napi_del (unregister_netdev p))))))"


section \<open>Lemmas\<close>

definition fresh_probe :: probe_sys where
  "fresh_probe = \<lparr>dev_sys = zero_sys, netdev_allocated = False, netdev_priv_size = 0, netdev_irq = 0,
     napi_added = False, napi_weight = 0,
     conf = \<lparr>conf_mtu = 0, conf_min_mtu = 0, conf_max_mtu = 0, conf_tx_queue_len = 0\<rparr>,
     wq_created = False, registered = False, drvdata_set = False\<rparr>"

text \<open>No resource of the device is left: net device, NAPI instance, work queue, registration, interrupt handlers, running interface.\<close>

definition released :: "probe_sys \<Rightarrow> bool" where
  "released p \<longleftrightarrow> \<not> netdev_allocated p \<and> \<not> napi_added p \<and> \<not> wq_created p \<and> \<not> registered p \<and>
     irq_actions (dev_sys p) = 0 \<and> \<not> netif_running (dev_sys p) \<and> \<not> work_queued (dev_sys p) \<and> \<not> napi_scheduled (dev_sys p)"

lemmas probe_defs = uartnet_probe_def free_netdev_def netif_napi_del_def destroy_workqueue_def alloc_netdev_def
  netdev_priv_def released_def fresh_probe_def Let_def











section \<open>Properties\<close>


definition good_answers :: probe_env where
  "good_answers = \<lparr>sizeof_priv = 400, netdev_slack = 1600, alloc_netdev_ok = True, mem_resource_ok = True, ioremap_err = 0,
     platform_irq = 42, create_wq_ok = True, register_err = 0, priv_irq = 0\<rparr>"


text \<open>
  A missing interrupt is reported as success. If the platform has no interrupt for the device,
  the probe frees the net device and returns the content of a field it never wrote (0 in zeroed
  memory) instead of the negative error number, so the device core believes it bound; removing the device then
  dereferences a null pointer.
\<close>

theorem probe_irq_error_lost:
  assumes "alloc_netdev_ok e" "sizeof_priv e \<le> netdev_slack e" "mem_resource_ok e" "ioremap_err e = 0" "platform_irq e < 0"
    "priv_irq e = 0"
  shows "\<exists>p. uartnet_probe e fresh_probe = Inr (0, p) \<and> released p \<and> uartnet_remove e p = Inl NullDeref"
  using assms by (simp add: probe_defs uartnet_remove_def probe_init_priv_def zero_sys_def)

theorem probe_irq_error_lost_witness:
  "\<exists>p. uartnet_probe (good_answers\<lparr>platform_irq := - 6\<rparr>) fresh_probe = Inr (0, p) \<and>
    uartnet_remove (good_answers\<lparr>platform_irq := - 6\<rparr>) p = Inl NullDeref"
  using probe_irq_error_lost [of "good_answers\<lparr>platform_irq := - 6\<rparr>"] by (auto simp: good_answers_def)

end
