(* ===== verification/Pcie_Types.thy ===== *)
theory Pcie_Types
  imports Kernel_Prelude
begin

text \<open>
  The data of the PCIe memory driver (\<^verbatim>\<open>pcie.h\<close>): sizes, descriptors, the adapter, and what
  the driver sees of the kernel. A 32 GB device mapping is divided into 4 MB chunks; 8 GB of
  reserved memory holds the resident chunks and a block device the others. A pointer to a
  descriptor is its index; \<^verbatim>\<open>unsigned long\<close> values are natural numbers with the wrap at
  64 bits written out (\<open>ul\<close>). The field \<^verbatim>\<open>swp\<close> of the C struct is never used.
\<close>

section \<open>Sizes\<close>

definition VIRTUAL_SIZE_GB :: nat where "VIRTUAL_SIZE_GB = 32"
definition VIRTUAL_SIZE :: nat where "VIRTUAL_SIZE = VIRTUAL_SIZE_GB * 2 ^ 30"
definition SWAP_SIZE_GB :: nat where "SWAP_SIZE_GB = 32"
definition SWAP_SIZE :: nat where "SWAP_SIZE = SWAP_SIZE_GB * 2 ^ 30"
definition PHY_SIZE_GB :: nat where "PHY_SIZE_GB = 8"
definition PHY_SIZE :: nat where "PHY_SIZE = PHY_SIZE_GB * 2 ^ 30"
definition MY_PAGE_SIZE :: nat where "MY_PAGE_SIZE = 4 * 2 ^ 20"
definition RESERVED_PHYS_ADDR :: nat where "RESERVED_PHYS_ADDR = 0x400000000"

text \<open>Constants of the kernel configuration: 4 KB pages and 512-byte sectors.\<close>

definition PAGE_SHIFT :: nat where "PAGE_SHIFT = 12"
definition PAGE_SIZE :: nat where "PAGE_SIZE = 2 ^ PAGE_SHIFT"
definition SECTOR_SHIFT :: nat where "SECTOR_SHIFT = 9"

definition NVPAGES :: nat where "NVPAGES = VIRTUAL_SIZE div MY_PAGE_SIZE"
definition NPPAGES :: nat where "NPPAGES = PHY_SIZE div MY_PAGE_SIZE"
definition PAGES :: nat where "PAGES = MY_PAGE_SIZE div PAGE_SIZE"

definition ul :: "nat \<Rightarrow> nat" where
  "ul x = x mod 2 ^ 64"

lemma ul_small [simp]: "x < 2 ^ 64 \<Longrightarrow> ul x = x"
  by (simp add: ul_def)

lemma pcie_sizes:
  "NVPAGES = 8192" "NPPAGES = 2048" "PAGES = 1024" "VIRTUAL_SIZE = 34359738368" "PHY_SIZE = 8589934592"
  "SWAP_SIZE = 34359738368" "MY_PAGE_SIZE = 4194304" "PAGE_SIZE = 4096"
  "RESERVED_PHYS_ADDR = 17179869184" "PAGE_SHIFT = 12" "SECTOR_SHIFT = 9"
  by (simp_all add: NVPAGES_def NPPAGES_def PAGES_def VIRTUAL_SIZE_def VIRTUAL_SIZE_GB_def PHY_SIZE_def
      PHY_SIZE_GB_def SWAP_SIZE_def SWAP_SIZE_GB_def MY_PAGE_SIZE_def PAGE_SIZE_def PAGE_SHIFT_def
      RESERVED_PHYS_ADDR_def SECTOR_SHIFT_def)

section \<open>Descriptors\<close>

datatype vpage_status = VPAGE_IN_MEM | VPAGE_IN_SWAP | VPAGE_NO_MAP

datatype ppage_status = PPAGE_FREE | PPAGE_IN_USE | PPAGE_SWAPCACHE

record pcie_phymem_desc =
  p_status :: ppage_status
  pfn :: nat
  dirty :: bool
  write_cnt :: u64
  read_cnt :: u64

record pcie_vmem_desc =
  phy_desc :: "nat option"
  v_status :: vpage_status
  vid :: nat

section \<open>The kernel's side\<close>

text \<open>
  Memory and disk, in blocks of one sector: a page frame holds eight of them. \<open>ptes\<close> are the page
  table entries of the device mapping, by virtual page number.
\<close>

record 'c io =
  mem :: "nat \<Rightarrow> nat \<Rightarrow> 'c"
  disk :: "nat \<Rightarrow> 'c"

type_synonym ptes = "nat \<Rightarrow> nat option"

datatype req_op = REQ_OP_READ | REQ_OP_WRITE

datatype req_flag = REQ_SWAP | REQ_SYNC | REQ_HIPRI

record bio =
  bi_op :: req_op
  bi_flags :: "req_flag list"
  bi_sector :: nat
  bi_pages :: "nat list"

text \<open>
  The kernel functions the driver calls. The block layer's answers may differ from call to call:
  they depend on a clock that every attempted transfer advances.
\<close>

record 'c kernel =
  linux_6_1 :: bool
  bio_kmalloc_ok :: "nat \<Rightarrow> bool"
  bio_add_page_ok :: "nat \<Rightarrow> nat \<Rightarrow> bool"
  submit_bio_wait :: "nat \<Rightarrow> bio \<Rightarrow> 'c io \<Rightarrow> int \<times> 'c io"
  zap_vma_ptes :: "nat \<Rightarrow> nat \<Rightarrow> ptes \<Rightarrow> ptes"
  remap_pfn_range :: "nat \<Rightarrow> nat \<Rightarrow> nat \<Rightarrow> ptes \<Rightarrow> ptes result"
  finish_fault :: "nat \<Rightarrow> nat \<Rightarrow> ptes \<Rightarrow> ptes"

datatype pcall =
    Lock_page nat
  | Unlock_page nat
  | Get_page nat
  | Init_page_count nat
  | Page_mapcount_reset nat

record 'c pcie =
  vmem :: "pcie_vmem_desc list"
  phymem :: "pcie_phymem_desc list"
  total_write :: u64
  total_read :: u64
  io :: "'c io"
  ptes :: ptes
  clock :: nat
  live_bios :: int
  pcalls :: "pcall list"

definition upd_v :: "nat \<Rightarrow> (pcie_vmem_desc \<Rightarrow> pcie_vmem_desc) \<Rightarrow> 'c pcie \<Rightarrow> 'c pcie" where
  "upd_v i f s = s\<lparr>vmem := (vmem s)[i := f (vmem s ! i)]\<rparr>"

definition upd_p :: "nat \<Rightarrow> (pcie_phymem_desc \<Rightarrow> pcie_phymem_desc) \<Rightarrow> 'c pcie \<Rightarrow> 'c pcie" where
  "upd_p j f s = s\<lparr>phymem := (phymem s)[j := f (phymem s ! j)]\<rparr>"

definition pcall :: "pcall \<Rightarrow> 'c pcie \<Rightarrow> 'c pcie" where
  "pcall c s = s\<lparr>pcalls := pcalls s @ [c]\<rparr>"

lemma upd_v_simps [simp]:
  "vmem (upd_v i f s) = (vmem s)[i := f (vmem s ! i)]" "phymem (upd_v i f s) = phymem s"
  "total_write (upd_v i f s) = total_write s" "total_read (upd_v i f s) = total_read s"
  "io (upd_v i f s) = io s" "ptes (upd_v i f s) = ptes s" "clock (upd_v i f s) = clock s"
  "live_bios (upd_v i f s) = live_bios s" "pcalls (upd_v i f s) = pcalls s"
  by (simp_all add: upd_v_def)

lemma upd_p_simps [simp]:
  "phymem (upd_p i f s) = (phymem s)[i := f (phymem s ! i)]" "vmem (upd_p i f s) = vmem s"
  "total_write (upd_p i f s) = total_write s" "total_read (upd_p i f s) = total_read s"
  "io (upd_p i f s) = io s" "ptes (upd_p i f s) = ptes s" "clock (upd_p i f s) = clock s"
  "live_bios (upd_p i f s) = live_bios s" "pcalls (upd_p i f s) = pcalls s"
  by (simp_all add: upd_p_def)

lemma pcall_simps [simp]:
  "vmem (pcall c s) = vmem s" "phymem (pcall c s) = phymem s"
  "total_write (pcall c s) = total_write s" "total_read (pcall c s) = total_read s"
  "io (pcall c s) = io s" "ptes (pcall c s) = ptes s" "clock (pcall c s) = clock s"
  "live_bios (pcall c s) = live_bios s" "pcalls (pcall c s) = pcalls s @ [c]"
  by (simp_all add: pcall_def)

text \<open>Following \<^verbatim>\<open>desc->phy_desc\<close> of a descriptor.\<close>

definition phy_of :: "nat \<Rightarrow> 'c pcie \<Rightarrow> nat result" where
  "phy_of i s =
     (if i < length (vmem s) then
        (case phy_desc (vmem s ! i) of
           None \<Rightarrow> Inl NullDeref
         | Some j \<Rightarrow> if j < length (phymem s) then Inr j else Inl OutOfBounds)
      else Inl OutOfBounds)"

section \<open>Documented behaviour of the kernel functions\<close>

text \<open>The effect of a transfer that the block layer reports as complete.\<close>

definition page_index :: "nat \<Rightarrow> nat list \<Rightarrow> nat" where
  "page_index p ps = length (takeWhile (\<lambda>q. q \<noteq> p) ps)"

definition transfer :: "bio \<Rightarrow> 'c io \<Rightarrow> 'c io" where
  "transfer b w = (case bi_op b of
     REQ_OP_WRITE \<Rightarrow> w\<lparr>disk := (\<lambda>x. if bi_sector b \<le> x \<and> x < bi_sector b + 8 * length (bi_pages b)
        then mem w (bi_pages b ! ((x - bi_sector b) div 8)) ((x - bi_sector b) mod 8) else disk w x)\<rparr>
   | REQ_OP_READ \<Rightarrow> w\<lparr>mem := (\<lambda>p k. if p \<in> set (bi_pages b) \<and> k < 8
        then disk w (bi_sector b + 8 * page_index p (bi_pages b) + k) else mem w p k)\<rparr>)"

text \<open>Every transfer is allocated, filled and completed.\<close>

definition io_ok :: "'c kernel \<Rightarrow> bool" where
  "io_ok K \<longleftrightarrow> (\<forall>c. bio_kmalloc_ok K c) \<and> (\<forall>c n. bio_add_page_ok K c n) \<and>
     (\<forall>c b w. submit_bio_wait K c b w = (0, transfer b w))"

text \<open>
  Page tables, by virtual page number (the address divided by the page size): zapping clears a
  range, remapping fills an empty range with consecutive frames, finishing a fault installs the
  page at the faulting address unless there is an entry already.
\<close>

definition zap_ok :: "'c kernel \<Rightarrow> bool" where
  "zap_ok K \<longleftrightarrow> (\<forall>a n pt x. zap_vma_ptes K a n pt x =
     (if a div PAGE_SIZE \<le> x \<and> x < (a + n) div PAGE_SIZE then None else pt x))"

definition remap_ok :: "'c kernel \<Rightarrow> bool" where
  "remap_ok K \<longleftrightarrow> (\<forall>a f n pt. (\<forall>x. a div PAGE_SIZE \<le> x \<and> x < (a + n) div PAGE_SIZE \<longrightarrow> pt x = None) \<longrightarrow>
     remap_pfn_range K a f n pt = Inr (\<lambda>x. if a div PAGE_SIZE \<le> x \<and> x < (a + n) div PAGE_SIZE
       then Some (f + (x - a div PAGE_SIZE)) else pt x))"

definition finish_ok :: "'c kernel \<Rightarrow> bool" where
  "finish_ok K \<longleftrightarrow> (\<forall>x p pt. finish_fault K x p pt = (if pt x = None then pt(x := Some p) else pt))"

definition mm_ok :: "'c kernel \<Rightarrow> bool" where
  "mm_ok K \<longleftrightarrow> zap_ok K \<and> remap_ok K \<and> finish_ok K"

text \<open>A kernel with exactly this behaviour, for closed examples.\<close>

definition plain_kernel :: "bool \<Rightarrow> 'c kernel" where
  "plain_kernel v = \<lparr>linux_6_1 = v, bio_kmalloc_ok = (\<lambda>_. True), bio_add_page_ok = (\<lambda>_ _. True),
     submit_bio_wait = (\<lambda>_ b w. (0, transfer b w)),
     zap_vma_ptes = (\<lambda>a n pt x. if a div PAGE_SIZE \<le> x \<and> x < (a + n) div PAGE_SIZE then None else pt x),
     remap_pfn_range = (\<lambda>a f n pt.
       if list_ex (\<lambda>x. pt x \<noteq> None) [a div PAGE_SIZE..<(a + n) div PAGE_SIZE] then Inl KernelBug
       else Inr (\<lambda>x. if a div PAGE_SIZE \<le> x \<and> x < (a + n) div PAGE_SIZE
         then Some (f + (x - a div PAGE_SIZE)) else pt x)),
     finish_fault = (\<lambda>x p pt. if pt x = None then pt(x := Some p) else pt)\<rparr>"

lemma plain_io: "io_ok (plain_kernel v)"
  by (simp add: io_ok_def plain_kernel_def)

lemma plain_mm: "mm_ok (plain_kernel v)"
  by (simp add: mm_ok_def zap_ok_def remap_ok_def finish_ok_def plain_kernel_def list_ex_iff)

end
