(* ===== verification/Pcie_Swap.thy ===== *)
theory Pcie_Swap
  imports Pcie_Types
begin

text \<open>
  The swap side of the PCIe memory driver (\<^verbatim>\<open>pcie_swap.c\<close>): one block request per chunk,
  for both kernel interfaces the source supports, eviction and page-in; the frames and the sectors
  of two chunks never overlap.
\<close>

section \<open>Block requests\<close>

definition swap_sector :: "nat \<Rightarrow> nat" where
  "swap_sector i = ul (i * MY_PAGE_SIZE) div 2 ^ SECTOR_SHIFT"

fun bio_add_pages :: "'c kernel \<Rightarrow> nat \<Rightarrow> nat list \<Rightarrow> bio \<Rightarrow> bio option" where
  "bio_add_pages K c [] b = Some b"
| "bio_add_pages K c (p # ps) b =
     (if bio_add_page_ok K c (length (bi_pages b))
      then bio_add_pages K c ps (b\<lparr>bi_pages := bi_pages b @ [p]\<rparr>) else None)"

text \<open>
  The kernel interface before Linux 6.1. The write function returns without releasing the request
  when a page cannot be added; the read function releases it.
\<close>

definition my_swap_writepages_5 :: "'c kernel \<Rightarrow> nat \<Rightarrow> 'c pcie \<Rightarrow> (int \<times> 'c pcie) result" where
  "my_swap_writepages_5 K i s = rbind (phy_of i s) (\<lambda>j.
     let f = pfn (phymem s ! j); c = clock s; s1 = s\<lparr>clock := c + 1\<rparr> in
     if \<not> bio_kmalloc_ok K c then Inr (- ENOMEM, s1)
     else
       let s2 = s1\<lparr>live_bios := live_bios s1 + 1\<rparr>;
           bio = \<lparr>bi_op = REQ_OP_WRITE, bi_flags = [REQ_SWAP, REQ_SYNC, REQ_HIPRI],
                  bi_sector = swap_sector (vid (vmem s ! i)), bi_pages = []\<rparr>
       in case bio_add_pages K c [f..<f + PAGES] bio of
            None \<Rightarrow> Inr (- EIO, s2)
          | Some b \<Rightarrow> (case submit_bio_wait K c b (io s2) of
              (ret, w) \<Rightarrow> Inr (ret, s2\<lparr>io := w, live_bios := live_bios s2 - 1\<rparr>)))"

definition my_swap_readpages_5 :: "'c kernel \<Rightarrow> nat \<Rightarrow> 'c pcie \<Rightarrow> (int \<times> 'c pcie) result" where
  "my_swap_readpages_5 K i s = rbind (phy_of i s) (\<lambda>j.
     let f = pfn (phymem s ! j); c = clock s; s1 = s\<lparr>clock := c + 1\<rparr> in
     if \<not> bio_kmalloc_ok K c then Inr (- ENOMEM, s1)
     else
       let s2 = s1\<lparr>live_bios := live_bios s1 + 1\<rparr>;
           bio = \<lparr>bi_op = REQ_OP_READ, bi_flags = [REQ_SYNC, REQ_HIPRI],
                  bi_sector = swap_sector (vid (vmem s ! i)), bi_pages = []\<rparr>
       in case bio_add_pages K c [f..<f + PAGES] bio of
            None \<Rightarrow> Inr (- EIO, s2\<lparr>live_bios := live_bios s2 - 1\<rparr>)
          | Some b \<Rightarrow> (case submit_bio_wait K c b (io s2) of
              (ret, w) \<Rightarrow> Inr (ret, s2\<lparr>io := w, live_bios := live_bios s2 - 1\<rparr>)))"

text \<open>The interface from Linux 6.1 on.\<close>

definition my_swap_writepages_6 :: "'c kernel \<Rightarrow> nat \<Rightarrow> 'c pcie \<Rightarrow> (int \<times> 'c pcie) result" where
  "my_swap_writepages_6 K i s = rbind (phy_of i s) (\<lambda>j.
     let f = pfn (phymem s ! j); c = clock s; s1 = s\<lparr>clock := c + 1\<rparr> in
     if \<not> bio_kmalloc_ok K c then Inr (- ENOMEM, s1)
     else
       let s2 = s1\<lparr>live_bios := live_bios s1 + 1\<rparr>;
           bio = \<lparr>bi_op = REQ_OP_WRITE, bi_flags = [],
                  bi_sector = swap_sector (vid (vmem s ! i)), bi_pages = []\<rparr>
       in case bio_add_pages K c [f..<f + PAGES] bio of
            None \<Rightarrow> Inr (- EIO, s2)
          | Some b \<Rightarrow> (case submit_bio_wait K c b (io s2) of
              (ret, w) \<Rightarrow> Inr (ret, s2\<lparr>io := w, live_bios := live_bios s2 - 1\<rparr>)))"

definition my_swap_readpages_6 :: "'c kernel \<Rightarrow> nat \<Rightarrow> 'c pcie \<Rightarrow> (int \<times> 'c pcie) result" where
  "my_swap_readpages_6 K i s = rbind (phy_of i s) (\<lambda>j.
     let f = pfn (phymem s ! j); c = clock s; s1 = s\<lparr>clock := c + 1\<rparr> in
     if \<not> bio_kmalloc_ok K c then Inr (- ENOMEM, s1)
     else
       let s2 = s1\<lparr>live_bios := live_bios s1 + 1\<rparr>;
           bio = \<lparr>bi_op = REQ_OP_READ, bi_flags = [],
                  bi_sector = swap_sector (vid (vmem s ! i)), bi_pages = []\<rparr>
       in case bio_add_pages K c [f..<f + PAGES] bio of
            None \<Rightarrow> Inr (- EIO, s2\<lparr>live_bios := live_bios s2 - 1\<rparr>)
          | Some b \<Rightarrow> (case submit_bio_wait K c b (io s2) of
              (ret, w) \<Rightarrow> Inr (ret, s2\<lparr>io := w, live_bios := live_bios s2 - 1\<rparr>)))"

definition my_swap_writepages :: "'c kernel \<Rightarrow> nat \<Rightarrow> 'c pcie \<Rightarrow> (int \<times> 'c pcie) result" where
  "my_swap_writepages K = (if linux_6_1 K then my_swap_writepages_6 K else my_swap_writepages_5 K)"

definition my_swap_readpages :: "'c kernel \<Rightarrow> nat \<Rightarrow> 'c pcie \<Rightarrow> (int \<times> 'c pcie) result" where
  "my_swap_readpages K = (if linux_6_1 K then my_swap_readpages_6 K else my_swap_readpages_5 K)"

section \<open>Paging\<close>

text \<open>Both callers drop the return value of the transfer.\<close>

definition read_pages :: "'c kernel \<Rightarrow> nat \<Rightarrow> 'c pcie \<Rightarrow> 'c pcie result" where
  "read_pages K i s = rbind (my_swap_readpages K i s) (\<lambda>(ret, s1). rbind (phy_of i s1) (\<lambda>j.
     let s2 = upd_p j (\<lambda>d. d\<lparr>read_cnt := read_cnt d + 1\<rparr>) s1
     in Inr (s2\<lparr>total_read := total_read s2 + 1\<rparr>)))"

definition write_pages :: "'c kernel \<Rightarrow> nat \<Rightarrow> 'c pcie \<Rightarrow> 'c pcie result" where
  "write_pages K i s = rbind (my_swap_writepages K i s) (\<lambda>(ret, s1).
     let s2 = upd_v i (\<lambda>d. d\<lparr>v_status := VPAGE_IN_SWAP\<rparr>) s1 in
     rbind (phy_of i s2) (\<lambda>j.
     let s3 = upd_p j (\<lambda>d. d\<lparr>write_cnt := write_cnt d + 1\<rparr>) s2
     in Inr (s3\<lparr>total_write := total_write s3 + 1\<rparr>)))"

definition evict_page :: "'c kernel \<Rightarrow> nat \<Rightarrow> nat \<Rightarrow> nat \<Rightarrow> 'c pcie \<Rightarrow> 'c pcie result" where
  "evict_page K vm_start v c s = rbind (phy_of v s) (\<lambda>j.
     let page = pfn (phymem s ! j) in
     rbind (write_pages K v (pcall (Lock_page page) s)) (\<lambda>s1.
     let s2 = s1\<lparr>ptes := zap_vma_ptes K (ul (vm_start + vid (vmem s1 ! v) * MY_PAGE_SIZE)) MY_PAGE_SIZE (ptes s1)\<rparr>;
         s3 = upd_v c (\<lambda>d. d\<lparr>phy_desc := phy_desc (vmem s2 ! v)\<rparr>) s2;
         s4 = upd_v v (\<lambda>d. d\<lparr>phy_desc := None\<rparr>) s3
     in rbind (if v_status (vmem s4 ! c) = VPAGE_IN_SWAP then read_pages K c s4 else Inr s4) (\<lambda>s5.
     Inr (pcall (Unlock_page page) (upd_v c (\<lambda>d. d\<lparr>v_status := VPAGE_IN_MEM\<rparr>) s5)))))"

definition my_swap_pagein :: "'c kernel \<Rightarrow> nat \<Rightarrow> 'c pcie \<Rightarrow> 'c pcie result" where
  "my_swap_pagein K i s = rbind (phy_of i s) (\<lambda>j.
     let page = pfn (phymem s ! j) in
     rbind (read_pages K i (pcall (Lock_page page) s)) (\<lambda>s1. Inr (pcall (Unlock_page page) s1)))"

section \<open>Requests and transfers\<close>

lemma bio_add_pages_ok:
  "(\<And>n. bio_add_page_ok K c n) \<Longrightarrow> bio_add_pages K c ps b = Some (b\<lparr>bi_pages := bi_pages b @ ps\<rparr>)"
  by (induction ps arbitrary: b) simp_all

lemma bio_add_pages_Some:
  "bio_add_pages K c ps b = Some b' \<Longrightarrow> b' = b\<lparr>bi_pages := bi_pages b @ ps\<rparr>"
proof (induction ps arbitrary: b)
  case (Cons p ps)
  then show ?case by (auto split: if_splits dest!: Cons.IH)
qed simp

lemma swap_sector_eq: "i < NVPAGES \<Longrightarrow> swap_sector i = 8 * PAGES * i"
  by (simp add: swap_sector_def pcie_sizes)

lemma phy_of_eq [simp]:
  "i < length (vmem s) \<Longrightarrow> phy_desc (vmem s ! i) = Some j \<Longrightarrow> j < length (phymem s) \<Longrightarrow> phy_of i s = Inr j"
  by (simp add: phy_of_def)

lemma phy_of_iff:
  "phy_of i s = Inr j \<longleftrightarrow>
     i < length (vmem s) \<and> phy_desc (vmem s ! i) = Some j \<and> j < length (phymem s)"
  by (auto simp: phy_of_def split: if_splits option.splits)

lemma list_update_over: "v \<noteq> c \<Longrightarrow> xs[v := a, c := b, v := d] = xs[c := b, v := d]"
  by (subst list_update_swap [of v c]) simp_all

text \<open>What a transfer may change of the driver's state: the contents, the clock, the live requests.\<close>

definition io_only :: "'c pcie \<Rightarrow> 'c pcie \<Rightarrow> bool" where
  "io_only s t \<longleftrightarrow> vmem t = vmem s \<and> phymem t = phymem s \<and> ptes t = ptes s \<and>
     total_read t = total_read s \<and> total_write t = total_write s \<and> clock t = clock s + 1"

definition swap_bio :: "req_op \<Rightarrow> nat \<Rightarrow> nat \<Rightarrow> bio" where
  "swap_bio op i f = \<lparr>bi_op = op, bi_flags = [], bi_sector = swap_sector i, bi_pages = [f..<f + PAGES]\<rparr>"

lemmas swap_io_defs = my_swap_writepages_def my_swap_readpages_def my_swap_writepages_5_def
  my_swap_readpages_5_def my_swap_writepages_6_def my_swap_readpages_6_def Let_def io_only_def

lemma writepages_total:
  assumes "phy_of i s = Inr j"
  obtains ret t where "my_swap_writepages K i s = Inr (ret, t)" "io_only s t"
proof -
  from assms have "\<exists>r. my_swap_writepages K i s = Inr r \<and> io_only s (snd r)"
    by (simp add: swap_io_defs split: option.splits prod.splits)
  then show thesis using that by auto
qed

lemma readpages_total:
  assumes "phy_of i s = Inr j"
  obtains ret t where "my_swap_readpages K i s = Inr (ret, t)" "io_only s t"
proof -
  from assms have "\<exists>r. my_swap_readpages K i s = Inr r \<and> io_only s (snd r)"
    by (simp add: swap_io_defs split: option.splits prod.splits)
  then show thesis using that by auto
qed

lemma transfer_flags:
  "transfer \<lparr>bi_op = op, bi_flags = fl, bi_sector = swap_sector i, bi_pages = [f..<f + PAGES]\<rparr> w
     = transfer (swap_bio op i f) w"
  by (simp only: transfer_def swap_bio_def bio.select_convs)

lemma io_okD:
  assumes "io_ok K"
  shows "bio_kmalloc_ok K c" "submit_bio_wait K c b w = (0, transfer b w)"
    "bio_add_pages K c ps b = Some (b\<lparr>bi_pages := bi_pages b @ ps\<rparr>)"
  using assms by (simp_all add: io_ok_def bio_add_pages_ok)

lemma writepages_io:
  assumes "io_ok K" "phy_of i s = Inr j" "my_swap_writepages K i s = Inr (ret, t)"
  shows "ret = 0 \<and> io t = transfer (swap_bio REQ_OP_WRITE (vid (vmem s ! i)) (pfn (phymem s ! j))) (io s)"
proof (cases "linux_6_1 K")
  case True
  with assms(2,3) show ?thesis
    by (simp add: my_swap_writepages_def my_swap_writepages_6_def Let_def io_okD [OF assms(1)] transfer_flags)
       (auto simp: transfer_flags)
next
  case False
  with assms(2,3) show ?thesis
    by (simp add: my_swap_writepages_def my_swap_writepages_5_def Let_def io_okD [OF assms(1)] transfer_flags)
       (auto simp: transfer_flags)
qed

lemma readpages_io:
  assumes "io_ok K" "phy_of i s = Inr j" "my_swap_readpages K i s = Inr (ret, t)"
  shows "ret = 0 \<and> io t = transfer (swap_bio REQ_OP_READ (vid (vmem s ! i)) (pfn (phymem s ! j))) (io s)"
proof (cases "linux_6_1 K")
  case True
  with assms(2,3) show ?thesis
    by (simp add: my_swap_readpages_def my_swap_readpages_6_def Let_def io_okD [OF assms(1)] transfer_flags)
       (auto simp: transfer_flags)
next
  case False
  with assms(2,3) show ?thesis
    by (simp add: my_swap_readpages_def my_swap_readpages_5_def Let_def io_okD [OF assms(1)] transfer_flags)
       (auto simp: transfer_flags)
qed

lemma page_index_upt: "k < n \<Longrightarrow> page_index (f + k) [f..<f + n] = k"
proof -
  assume k: "k < n"
  then have "[f..<f + n] = [f..<f + k] @ (f + k) # [Suc (f + k)..<f + n]"
    using upt_add_eq_append [of f "f + k" "n - k"] upt_conv_Cons [of "f + k" "f + n"] by simp
  moreover have "takeWhile (\<lambda>q. q \<noteq> f + k) ([f..<f + k] @ (f + k) # ys) = [f..<f + k]" for ys
    by (subst takeWhile_append2) auto
  ultimately have "takeWhile (\<lambda>q. q \<noteq> f + k) [f..<f + n] = [f..<f + k]" by metis
  then show ?thesis by (simp add: page_index_def)
qed

lemma transfer_write:
  fixes b :: bio
  assumes "b = swap_bio REQ_OP_WRITE i f"
  shows "mem (transfer b w) = mem w"
    "o' < PAGES \<Longrightarrow> k < 8 \<Longrightarrow> disk (transfer b w) (swap_sector i + 8 * o' + k) = mem w (f + o') k"
    "x < swap_sector i \<or> swap_sector i + 8 * PAGES \<le> x \<Longrightarrow> disk (transfer b w) x = disk w x"
proof -
  note b = assms [unfolded swap_bio_def]
  show "mem (transfer b w) = mem w" using b by (simp add: transfer_def)
  show "disk (transfer b w) (swap_sector i + 8 * o' + k) = mem w (f + o') k" if "o' < PAGES" "k < 8"
  proof -
    from that have "8 * o' + k < 8 * PAGES" "(8 * o' + k) div 8 = o'" "(8 * o' + k) mod 8 = k" by simp_all
    with that b show ?thesis by (simp add: transfer_def add.assoc)
  qed
  show "disk (transfer b w) x = disk w x" if "x < swap_sector i \<or> swap_sector i + 8 * PAGES \<le> x"
    using that b by (auto simp: transfer_def)
qed

lemma transfer_read:
  fixes b :: bio
  assumes "b = swap_bio REQ_OP_READ i f"
  shows "disk (transfer b w) = disk w"
    "o' < PAGES \<Longrightarrow> k < 8 \<Longrightarrow> mem (transfer b w) (f + o') k = disk w (swap_sector i + 8 * o' + k)"
    "p < f \<or> f + PAGES \<le> p \<Longrightarrow> mem (transfer b w) p = mem w p"
  using assms by (auto simp: swap_bio_def transfer_def page_index_upt)

section \<open>What paging does to the descriptors\<close>

text \<open>The part of the frame descriptors that decides about residency (the rest are statistics).\<close>

definition frames :: "'c pcie \<Rightarrow> (ppage_status \<times> nat) list" where
  "frames s = map (\<lambda>d. (p_status d, pfn d)) (phymem s)"

lemma frames_length: "frames t = frames s \<Longrightarrow> length (phymem t) = length (phymem s)"
  unfolding frames_def by (metis length_map)

lemma frames_nth:
  assumes "frames t = frames s" "j < length (phymem s)"
  shows "p_status (phymem t ! j) = p_status (phymem s ! j) \<and> pfn (phymem t ! j) = pfn (phymem s ! j)"
proof -
  have "frames t ! j = frames s ! j" using assms(1) by simp
  then show ?thesis using assms(2) frames_length [OF assms(1)] by (simp add: frames_def)
qed

lemma frames_upd_p [simp]:
  assumes "\<And>d. p_status (f d) = p_status d" "\<And>d. pfn (f d) = pfn d"
  shows "frames (upd_p j f s) = frames s"
proof (cases "j < length (phymem s)")
  case True
  then have "(map (\<lambda>d. (p_status d, pfn d)) (phymem s))[j := (p_status (phymem s ! j), pfn (phymem s ! j))]
      = map (\<lambda>d. (p_status d, pfn d)) (phymem s)"
    using list_update_id [of "map (\<lambda>d. (p_status d, pfn d)) (phymem s)" j] by simp
  with assms show ?thesis by (simp add: frames_def map_update)
qed (simp add: frames_def list_update_beyond)

lemma frames_cong [simp]:
  "frames (upd_v i g s) = frames s" "frames (pcall c s) = frames s"
  "frames (s\<lparr>ptes := pt\<rparr>) = frames s" "frames (s\<lparr>total_read := r\<rparr>) = frames s"
  "frames (s\<lparr>total_write := r\<rparr>) = frames s"
  by (simp_all add: frames_def)

lemma read_pages_spec:
  assumes "phy_of i s = Inr j"
  obtains t where "read_pages K i s = Inr t" "vmem t = vmem s" "frames t = frames s" "ptes t = ptes s"
    "total_read t = total_read s + 1" "total_write t = total_write s"
    "io_ok K \<Longrightarrow> io t = transfer (swap_bio REQ_OP_READ (vid (vmem s ! i)) (pfn (phymem s ! j))) (io s)"
proof -
  obtain ret u where u: "my_swap_readpages K i s = Inr (ret, u)" "io_only s u"
    using readpages_total [OF assms] .
  then have ph: "phy_of i u = Inr j" using assms by (simp add: phy_of_iff io_only_def)
  have fr: "frames u = frames s" using u(2) by (simp add: frames_def io_only_def)
  show thesis
    by (rule that [of "(upd_p j (\<lambda>d. d\<lparr>read_cnt := read_cnt d + 1\<rparr>) u)\<lparr>total_read := total_read u + 1\<rparr>"])
       (use u ph fr readpages_io [OF _ assms u(1)] in \<open>simp_all add: read_pages_def Let_def io_only_def\<close>)
qed

lemma write_pages_spec:
  assumes "phy_of i s = Inr j"
  obtains t where "write_pages K i s = Inr t"
    "vmem t = (vmem s)[i := (vmem s ! i)\<lparr>v_status := VPAGE_IN_SWAP\<rparr>]" "frames t = frames s" "ptes t = ptes s"
    "total_read t = total_read s" "total_write t = total_write s + 1"
    "io_ok K \<Longrightarrow> io t = transfer (swap_bio REQ_OP_WRITE (vid (vmem s ! i)) (pfn (phymem s ! j))) (io s)"
proof -
  obtain ret u where u: "my_swap_writepages K i s = Inr (ret, u)" "io_only s u"
    using writepages_total [OF assms] .
  let ?v = "upd_v i (\<lambda>d. d\<lparr>v_status := VPAGE_IN_SWAP\<rparr>) u"
  have ph: "phy_of i ?v = Inr j"
    using assms u(2) by (simp add: phy_of_iff io_only_def)
  have fr: "frames u = frames s" using u(2) by (simp add: frames_def io_only_def)
  show thesis
    by (rule that [of "(upd_p j (\<lambda>d. d\<lparr>write_cnt := write_cnt d + 1\<rparr>) ?v)\<lparr>total_write := total_write ?v + 1\<rparr>"])
       (use u ph fr writepages_io [OF _ assms u(1)] in \<open>simp_all add: write_pages_def Let_def io_only_def\<close>)
qed

lemma pagein_spec:
  assumes "phy_of i s = Inr j"
  obtains t where "my_swap_pagein K i s = Inr t" "vmem t = vmem s" "frames t = frames s" "ptes t = ptes s"
    "total_read t = total_read s + 1" "total_write t = total_write s"
    "io_ok K \<Longrightarrow> io t = transfer (swap_bio REQ_OP_READ (vid (vmem s ! i)) (pfn (phymem s ! j))) (io s)"
proof -
  let ?s = "pcall (Lock_page (pfn (phymem s ! j))) s"
  have "phy_of i ?s = Inr j" using assms by (simp add: phy_of_iff)
  then obtain t where "read_pages K i ?s = Inr t" "vmem t = vmem s" "frames t = frames s" "ptes t = ptes s"
    "total_read t = total_read s + 1" "total_write t = total_write s"
    "io_ok K \<Longrightarrow> io t = transfer (swap_bio REQ_OP_READ (vid (vmem s ! i)) (pfn (phymem s ! j))) (io s)"
    by (rule read_pages_spec [of i ?s j K]) simp_all
  then show thesis
    by (intro that [of "pcall (Unlock_page (pfn (phymem s ! j))) t"])
       (use assms in \<open>simp_all add: my_swap_pagein_def Let_def\<close>)
qed

text \<open>
  Eviction hands the frame of the victim \<open>v\<close> to the chunk \<open>c\<close>: the contents of \<open>v\<close> go to its
  sectors, those of \<open>c\<close> come from its sectors if it was swapped out.
\<close>

lemma evict_spec:
  assumes "v < length (vmem s)" "c < length (vmem s)" "v \<noteq> c"
    and "phy_desc (vmem s ! v) = Some j" "j < length (phymem s)"
  obtains t where "evict_page K vs v c s = Inr t"
    "vmem t = (vmem s)[v := (vmem s ! v)\<lparr>v_status := VPAGE_IN_SWAP, phy_desc := None\<rparr>,
       c := (vmem s ! c)\<lparr>phy_desc := Some j, v_status := VPAGE_IN_MEM\<rparr>]"
    "frames t = frames s"
    "ptes t = zap_vma_ptes K (ul (vs + vid (vmem s ! v) * MY_PAGE_SIZE)) MY_PAGE_SIZE (ptes s)"
    "total_write t = total_write s + 1"
    "total_read t = total_read s + (if v_status (vmem s ! c) = VPAGE_IN_SWAP then 1 else 0)"
    "io_ok K \<Longrightarrow> io t = (if v_status (vmem s ! c) = VPAGE_IN_SWAP
       then transfer (swap_bio REQ_OP_READ (vid (vmem s ! c)) (pfn (phymem s ! j))) else (\<lambda>w. w))
       (transfer (swap_bio REQ_OP_WRITE (vid (vmem s ! v)) (pfn (phymem s ! j))) (io s))"
proof -
  let ?s = "pcall (Lock_page (pfn (phymem s ! j))) s"
  have ph: "phy_of v s = Inr j" "phy_of v ?s = Inr j" using assms by (simp_all add: phy_of_iff)
  obtain s1 where s1: "write_pages K v ?s = Inr s1"
    "vmem s1 = (vmem s)[v := (vmem s ! v)\<lparr>v_status := VPAGE_IN_SWAP\<rparr>]" "frames s1 = frames s" "ptes s1 = ptes s"
    "total_read s1 = total_read s" "total_write s1 = total_write s + 1"
    "io_ok K \<Longrightarrow> io s1 = transfer (swap_bio REQ_OP_WRITE (vid (vmem s ! v)) (pfn (phymem s ! j))) (io s)"
    by (rule write_pages_spec [OF ph(2), of K]) simp_all
  define s2 where
    "s2 = s1\<lparr>ptes := zap_vma_ptes K (ul (vs + vid (vmem s1 ! v) * MY_PAGE_SIZE)) MY_PAGE_SIZE (ptes s1)\<rparr>"
  define s4 where "s4 = upd_v v (\<lambda>d. d\<lparr>phy_desc := None\<rparr>)
    (upd_v c (\<lambda>d. d\<lparr>phy_desc := phy_desc (vmem s2 ! v)\<rparr>) s2)"
  have s4: "vmem s4 = (vmem s)[c := (vmem s ! c)\<lparr>phy_desc := Some j\<rparr>,
      v := (vmem s ! v)\<lparr>v_status := VPAGE_IN_SWAP, phy_desc := None\<rparr>]" "frames s4 = frames s"
    "ptes s4 = zap_vma_ptes K (ul (vs + vid (vmem s ! v) * MY_PAGE_SIZE)) MY_PAGE_SIZE (ptes s)"
    "total_read s4 = total_read s" "total_write s4 = total_write s + 1" "io s4 = io s1"
    using assms s1 by (simp_all add: s4_def s2_def list_update_over)
  have len: "length (phymem s4) = length (phymem s)" by (rule frames_length) (rule s4(2))
  have pf: "pfn (phymem s4 ! j) = pfn (phymem s ! j)" using frames_nth [OF s4(2) assms(5)] by simp
  have vc: "vmem s4 ! c = (vmem s ! c)\<lparr>phy_desc := Some j\<rparr>" using assms s4(1) by simp
  have ph4: "phy_of c s4 = Inr j" using assms len vc s4(1) by (simp add: phy_of_iff)
  obtain s5 where s5:
    "(if v_status (vmem s4 ! c) = VPAGE_IN_SWAP then read_pages K c s4 else Inr s4) = Inr s5"
    "vmem s5 = vmem s4" "frames s5 = frames s" "ptes s5 = ptes s4" "total_write s5 = total_write s + 1"
    "total_read s5 = total_read s + (if v_status (vmem s ! c) = VPAGE_IN_SWAP then 1 else 0)"
    "io_ok K \<Longrightarrow> io s5 = (if v_status (vmem s ! c) = VPAGE_IN_SWAP
       then transfer (swap_bio REQ_OP_READ (vid (vmem s ! c)) (pfn (phymem s ! j))) else (\<lambda>w. w)) (io s1)"
  proof (cases "v_status (vmem s ! c) = VPAGE_IN_SWAP")
    case True
    show thesis
      by (rule read_pages_spec [OF ph4, of K], rule that) (use True vc s4 pf in simp_all)
  next
    case False
    then show thesis by (intro that [of s4]) (use vc s4 in simp_all)
  qed
  show thesis
  proof (rule that [of "pcall (Unlock_page (pfn (phymem s ! j))) (upd_v c (\<lambda>d. d\<lparr>v_status := VPAGE_IN_MEM\<rparr>) s5)"])
    show "evict_page K vs v c s = Inr (pcall (Unlock_page (pfn (phymem s ! j)))
        (upd_v c (\<lambda>d. d\<lparr>v_status := VPAGE_IN_MEM\<rparr>) s5))"
      by (simp only: evict_page_def Let_def ph(1) s1(1) s2_def [symmetric] s4_def [symmetric] s5(1) rbind.simps)
  qed (use assms s1(7) s4 s5 vc in \<open>simp_all add: list_update_over list_update_swap [of c v]\<close>)
qed

end
