(* ===== verification/Pcie_Mm.thy ===== *)
theory Pcie_Mm
  imports Pcie_Swap
begin

text \<open>
  The memory manager of the PCIe driver (\<^verbatim>\<open>pcie_mm.c\<close>): the reset of both descriptor
  tables, the choice of a frame for a chunk (a free one, or that of the first resident chunk) and
  the fault handler, with the invariant of the tables that every fault keeps.
\<close>

section \<open>Operations\<close>

definition pcie_init_vmem :: "'c pcie \<Rightarrow> 'c pcie" where
  "pcie_init_vmem s =
     fold (\<lambda>i. upd_v i (\<lambda>d. d\<lparr>v_status := VPAGE_NO_MAP, vid := i, phy_desc := None\<rparr>)) [0..<NVPAGES] s"

text \<open>
  The second loop of \<^verbatim>\<open>pcie_init_phymem\<close> runs over the descriptors, but resets the counters
  of \<^verbatim>\<open>pcie_phymem_descs->\<close>, the first one, in every round.
\<close>

definition phymem_round :: "nat \<Rightarrow> nat \<times> 'c pcie \<Rightarrow> nat \<times> 'c pcie" where
  "phymem_round i ps = (case ps of (p, s) \<Rightarrow>
     (ul (p + MY_PAGE_SIZE div PAGE_SIZE),
      upd_p 0 (\<lambda>d. d\<lparr>write_cnt := 0\<rparr>) (upd_p 0 (\<lambda>d. d\<lparr>read_cnt := 0\<rparr>)
        (upd_p i (\<lambda>d. d\<lparr>pfn := p, p_status := PPAGE_FREE, dirty := False\<rparr>) s))))"

definition pcie_init_phymem :: "'c pcie \<Rightarrow> 'c pcie" where
  "pcie_init_phymem s =
     (let p0 = RESERVED_PHYS_ADDR div 2 ^ PAGE_SHIFT;
          s1 = fold (\<lambda>p s. pcall (Page_mapcount_reset p) (pcall (Init_page_count p) s))
                 [p0..<p0 + PHY_SIZE div PAGE_SIZE] s
      in snd (fold phymem_round [0..<NPPAGES] (p0, s1)))"

definition pcie_mm_reset :: "'c pcie \<Rightarrow> 'c pcie" where
  "pcie_mm_reset s = (pcie_init_phymem (pcie_init_vmem s))\<lparr>total_read := 0, total_write := 0\<rparr>"

text \<open>
  The page-table walk answers with the entry of an address or with none; the vma is a pointer that
  the walk dereferences.
\<close>

definition get_vaddr_pte :: "(nat \<Rightarrow> nat option) \<Rightarrow> nat option \<Rightarrow> nat \<Rightarrow> int result" where
  "get_vaddr_pte pte_offset_map_lock vma vaddr = (case vma of
     None \<Rightarrow> Inl NullDeref
   | Some v \<Rightarrow> (case pte_offset_map_lock vaddr of None \<Rightarrow> Inr (- EINVAL) | Some pte \<Rightarrow> Inr 0))"

definition fill_vpage :: "'c kernel \<Rightarrow> nat \<Rightarrow> nat \<Rightarrow> 'c pcie \<Rightarrow> (int \<times> 'c pcie) result" where
  "fill_vpage K vm_start c s =
     (case find (\<lambda>j. p_status (phymem s ! j) = PPAGE_FREE) [0..<NPPAGES] of
        Some j \<Rightarrow>
          let s1 = upd_v c (\<lambda>d. d\<lparr>phy_desc := Some j\<rparr>) s in
          rbind (if v_status (vmem s1 ! c) = VPAGE_IN_SWAP then my_swap_pagein K c s1 else Inr s1) (\<lambda>s2.
          Inr (0, upd_v c (\<lambda>d. d\<lparr>v_status := VPAGE_IN_MEM\<rparr>)
                    (upd_p j (\<lambda>d. d\<lparr>p_status := PPAGE_IN_USE\<rparr>) s2)))
      | None \<Rightarrow>
          (case find (\<lambda>i. v_status (vmem s ! i) = VPAGE_IN_MEM) [0..<NVPAGES] of
             None \<Rightarrow> Inl KernelBug
           | Some v \<Rightarrow>
               if phy_desc (vmem s ! v) = None then Inl KernelBug
               else rbind (evict_page K vm_start v c s) (\<lambda>t. Inr (0, t))))"

text \<open>The result: the return value, \<^verbatim>\<open>vmf->page\<close> as a frame number if it was set, the state.\<close>

definition pcieBase_fault ::
  "'c kernel \<Rightarrow> nat \<Rightarrow> nat \<Rightarrow> 'c pcie \<Rightarrow> (int \<times> nat option \<times> 'c pcie) result" where
  "pcieBase_fault K vm_start address s =
     (let offset = ul (address + 2 ^ 64 - vm_start);
          i = offset div MY_PAGE_SIZE
      in if i \<ge> length (vmem s) then Inl OutOfBounds
      else rbind
        (if v_status (vmem s ! i) = VPAGE_IN_SWAP \<or> v_status (vmem s ! i) = VPAGE_NO_MAP
         then if phy_desc (vmem s ! i) \<noteq> None then Inl KernelBug else fill_vpage K vm_start i s
         else Inr (0, s))
        (\<lambda>(ret, s1).
           if v_status (vmem s1 ! i) = VPAGE_IN_MEM
           then (case phy_desc (vmem s1 ! i) of
                   None \<Rightarrow> Inl KernelBug
                 | Some j0 \<Rightarrow> rbind (phy_of i s1) (\<lambda>j.
                     let f = pfn (phymem s1 ! j) in
                     rbind (if MY_PAGE_SIZE \<noteq> PAGE_SIZE
                            then remap_pfn_range K (ul (vm_start + vid (vmem s1 ! i) * MY_PAGE_SIZE + PAGE_SIZE))
                                   (ul (f + 1)) (MY_PAGE_SIZE - PAGE_SIZE) (ptes s1)
                            else Inr (ptes s1)) (\<lambda>pt.
                     Inr (ret, Some f, pcall (Get_page f) (s1\<lparr>ptes := pt\<rparr>)))))
           else Inr (ret, None, s1)))"

section \<open>The invariant of the tables\<close>

definition frame_pfn :: "nat \<Rightarrow> nat" where
  "frame_pfn j = RESERVED_PHYS_ADDR div 2 ^ PAGE_SHIFT + PAGES * j"

definition place :: "'c pcie \<Rightarrow> nat \<Rightarrow> nat option" where
  "place s i = phy_desc (vmem s ! i)"

text \<open>
  A chunk is resident exactly if it has a frame, two chunks never share one, and a frame is in use
  exactly if some chunk has it.
\<close>

definition vmem_inv :: "'c pcie \<Rightarrow> bool" where
  "vmem_inv s \<longleftrightarrow> length (vmem s) = NVPAGES \<and>
     (\<forall>i<NVPAGES. vid (vmem s ! i) = i \<and> (v_status (vmem s ! i) = VPAGE_IN_MEM \<longleftrightarrow> place s i \<noteq> None)) \<and>
     (\<forall>i<NVPAGES. \<forall>i'<NVPAGES. \<forall>j. place s i = Some j \<longrightarrow> place s i' = Some j \<longrightarrow> i = i')"

definition phymem_inv :: "'c pcie \<Rightarrow> bool" where
  "phymem_inv s \<longleftrightarrow> length (phymem s) = NPPAGES \<and>
     (\<forall>j<NPPAGES. pfn (phymem s ! j) = frame_pfn j \<and> p_status (phymem s ! j) \<noteq> PPAGE_SWAPCACHE \<and>
       (p_status (phymem s ! j) = PPAGE_IN_USE \<longleftrightarrow> (\<exists>i<NVPAGES. place s i = Some j)))"

definition pcie_inv :: "'c pcie \<Rightarrow> bool" where
  "pcie_inv s \<longleftrightarrow> vmem_inv s \<and> phymem_inv s \<and> (\<forall>i<NVPAGES. \<forall>j. place s i = Some j \<longrightarrow> j < NPPAGES)"

lemma pcie_invD:
  assumes "pcie_inv s"
  shows "length (vmem s) = NVPAGES" "length (phymem s) = NPPAGES"
    "i < NVPAGES \<Longrightarrow> vid (vmem s ! i) = i"
    "i < NVPAGES \<Longrightarrow> v_status (vmem s ! i) = VPAGE_IN_MEM \<longleftrightarrow> place s i \<noteq> None"
    "i < NVPAGES \<Longrightarrow> i' < NVPAGES \<Longrightarrow> place s i = Some j \<Longrightarrow> place s i' = Some j \<Longrightarrow> i = i'"
    "j < NPPAGES \<Longrightarrow> pfn (phymem s ! j) = frame_pfn j"
    "j < NPPAGES \<Longrightarrow> p_status (phymem s ! j) \<noteq> PPAGE_SWAPCACHE"
    "j < NPPAGES \<Longrightarrow> p_status (phymem s ! j) = PPAGE_IN_USE \<longleftrightarrow> (\<exists>i<NVPAGES. place s i = Some j)"
    "i < NVPAGES \<Longrightarrow> place s i = Some j \<Longrightarrow> j < NPPAGES"
  using assms by (auto simp: pcie_inv_def vmem_inv_def phymem_inv_def)

lemma pcie_inv_cong:
  assumes "vmem t = vmem s" "frames t = frames s"
  shows "pcie_inv t \<longleftrightarrow> pcie_inv s"
proof -
  have "place t = place s" using assms(1) by (simp add: place_def fun_eq_iff)
  moreover have "length (phymem t) = length (phymem s)" by (rule frames_length) (rule assms(2))
  ultimately have "phymem_inv t \<longleftrightarrow> phymem_inv s"
    using frames_nth [OF assms(2)] by (auto simp: phymem_inv_def)
  with \<open>place t = place s\<close> assms(1) show ?thesis by (simp add: pcie_inv_def vmem_inv_def)
qed

section \<open>Reset\<close>

lemma fold_upd_v:
  "n \<le> length (vmem s) \<Longrightarrow> vmem (fold (\<lambda>i. upd_v i (g i)) [0..<n] s)
     = map (\<lambda>i. if i < n then g i (vmem s ! i) else vmem s ! i) [0..<length (vmem s)]"
proof (induction n)
  case 0
  show ?case by (simp add: map_nth)
next
  case (Suc n)
  then show ?case by (intro nth_equalityI) (auto simp: nth_list_update)
qed

lemma fold_upd_v_rest:
  "phymem (fold (\<lambda>i. upd_v i (g i)) xs s) = phymem s" "ptes (fold (\<lambda>i. upd_v i (g i)) xs s) = ptes s"
  "io (fold (\<lambda>i. upd_v i (g i)) xs s) = io s"
  by (induction xs arbitrary: s) simp_all

lemma fold_pcall_rest:
  fixes s :: "'c pcie"
  defines "run \<equiv> fold (\<lambda>p s. pcall (Page_mapcount_reset p) (pcall (Init_page_count p) s))"
  shows "phymem (run xs s) = phymem s" "vmem (run xs s) = vmem s" "ptes (run xs s) = ptes s" "io (run xs s) = io s"
  unfolding run_def by (induction xs arbitrary: s) simp_all

lemma fold_phymem_round:
  assumes "n \<le> NPPAGES" "length (phymem s) = NPPAGES" "fold phymem_round [0..<n] (frame_pfn 0, s) = (p, t)"
  shows "p = frame_pfn n" "length (phymem t) = NPPAGES" "vmem t = vmem s" "ptes t = ptes s" "io t = io s"
    "\<forall>j<n. pfn (phymem t ! j) = frame_pfn j \<and> p_status (phymem t ! j) = PPAGE_FREE"
    "\<forall>j<NPPAGES. 0 < j \<longrightarrow> read_cnt (phymem t ! j) = read_cnt (phymem s ! j) \<and>
       write_cnt (phymem t ! j) = write_cnt (phymem s ! j)"
proof -
  have "p = frame_pfn n \<and> length (phymem t) = NPPAGES \<and> vmem t = vmem s \<and> ptes t = ptes s \<and> io t = io s \<and>
    (\<forall>j<n. pfn (phymem t ! j) = frame_pfn j \<and> p_status (phymem t ! j) = PPAGE_FREE) \<and>
    (\<forall>j<NPPAGES. 0 < j \<longrightarrow> read_cnt (phymem t ! j) = read_cnt (phymem s ! j) \<and>
       write_cnt (phymem t ! j) = write_cnt (phymem s ! j))"
    using assms
  proof (induction n arbitrary: p t)
    case (Suc n)
    obtain q u where u: "fold phymem_round [0..<n] (frame_pfn 0, s) = (q, u)" by force
    with Suc.prems have t: "(p, t) = phymem_round n (q, u)" by simp
    have ih: "q = frame_pfn n" "length (phymem u) = NPPAGES" "vmem u = vmem s" "ptes u = ptes s" "io u = io s"
      "\<forall>j<n. pfn (phymem u ! j) = frame_pfn j \<and> p_status (phymem u ! j) = PPAGE_FREE"
      "\<forall>j<NPPAGES. 0 < j \<longrightarrow> read_cnt (phymem u ! j) = read_cnt (phymem s ! j) \<and>
         write_cnt (phymem u ! j) = write_cnt (phymem s ! j)"
      using Suc.IH [of q u] Suc.prems u by simp_all
    have "frame_pfn n + 1024 < 2 ^ 64" using Suc.prems(1) by (simp add: frame_pfn_def pcie_sizes)
    then have "p = frame_pfn (Suc n)"
      using t ih(1) by (simp add: phymem_round_def frame_pfn_def pcie_sizes)
    with t ih Suc.prems show ?case
      by (auto simp: phymem_round_def nth_list_update less_Suc_eq)
  qed simp
  then show "p = frame_pfn n" "length (phymem t) = NPPAGES" "vmem t = vmem s" "ptes t = ptes s" "io t = io s"
    "\<forall>j<n. pfn (phymem t ! j) = frame_pfn j \<and> p_status (phymem t ! j) = PPAGE_FREE"
    "\<forall>j<NPPAGES. 0 < j \<longrightarrow> read_cnt (phymem t ! j) = read_cnt (phymem s ! j) \<and>
       write_cnt (phymem t ! j) = write_cnt (phymem s ! j)"
    by blast+
qed

text \<open>The tables are static arrays: their lengths are the only precondition of a reset.\<close>

definition arrays_ok :: "'c pcie \<Rightarrow> bool" where
  "arrays_ok s \<longleftrightarrow> length (vmem s) = NVPAGES \<and> length (phymem s) = NPPAGES"

lemma reset_spec:
  assumes "arrays_ok s"
  shows "i < NVPAGES \<Longrightarrow> vmem (pcie_mm_reset s) ! i = (vmem s ! i)\<lparr>v_status := VPAGE_NO_MAP, vid := i, phy_desc := None\<rparr>"
    "length (vmem (pcie_mm_reset s)) = NVPAGES" "length (phymem (pcie_mm_reset s)) = NPPAGES"
    "j < NPPAGES \<Longrightarrow> pfn (phymem (pcie_mm_reset s) ! j) = frame_pfn j \<and>
       p_status (phymem (pcie_mm_reset s) ! j) = PPAGE_FREE"
    "j < NPPAGES \<Longrightarrow> 0 < j \<Longrightarrow> read_cnt (phymem (pcie_mm_reset s) ! j) = read_cnt (phymem s ! j) \<and>
       write_cnt (phymem (pcie_mm_reset s) ! j) = write_cnt (phymem s ! j)"
    "ptes (pcie_mm_reset s) = ptes s" "io (pcie_mm_reset s) = io s"
    "total_read (pcie_mm_reset s) = 0" "total_write (pcie_mm_reset s) = 0"
proof -
  let ?v = "pcie_init_vmem s"
  let ?w = "fold (\<lambda>p s. pcall (Page_mapcount_reset p) (pcall (Init_page_count p) s))
    [frame_pfn 0..<frame_pfn 0 + PHY_SIZE div PAGE_SIZE] ?v"
  obtain p t where t: "fold phymem_round [0..<NPPAGES] (frame_pfn 0, ?w) = (p, t)" by force
  have v: "phymem ?v = phymem s" "ptes ?v = ptes s" "io ?v = io s"
    by (simp_all add: pcie_init_vmem_def fold_upd_v_rest)
  then have w: "phymem ?w = phymem s" "vmem ?w = vmem ?v" "ptes ?w = ptes s" "io ?w = io s"
    by (simp_all add: fold_pcall_rest)
  have len: "length (phymem ?w) = NPPAGES" using assms w by (simp add: arrays_ok_def)
  note f = fold_phymem_round [OF order_refl len t]
  have r: "pcie_mm_reset s = t\<lparr>total_read := 0, total_write := 0\<rparr>"
    using t by (simp add: pcie_mm_reset_def pcie_init_phymem_def Let_def frame_pfn_def)
  have vm: "vmem ?v = map (\<lambda>i. (vmem s ! i)\<lparr>v_status := VPAGE_NO_MAP, vid := i, phy_desc := None\<rparr>) [0..<NVPAGES]"
    unfolding pcie_init_vmem_def
    by (subst fold_upd_v) (use assms in \<open>simp_all add: arrays_ok_def cong: map_cong\<close>)
  show "i < NVPAGES \<Longrightarrow>
      vmem (pcie_mm_reset s) ! i = (vmem s ! i)\<lparr>v_status := VPAGE_NO_MAP, vid := i, phy_desc := None\<rparr>"
    "length (vmem (pcie_mm_reset s)) = NVPAGES" "length (phymem (pcie_mm_reset s)) = NPPAGES"
    "j < NPPAGES \<Longrightarrow> pfn (phymem (pcie_mm_reset s) ! j) = frame_pfn j \<and>
       p_status (phymem (pcie_mm_reset s) ! j) = PPAGE_FREE"
    "j < NPPAGES \<Longrightarrow> 0 < j \<Longrightarrow> read_cnt (phymem (pcie_mm_reset s) ! j) = read_cnt (phymem s ! j) \<and>
       write_cnt (phymem (pcie_mm_reset s) ! j) = write_cnt (phymem s ! j)"
    "ptes (pcie_mm_reset s) = ptes s" "io (pcie_mm_reset s) = io s"
    "total_read (pcie_mm_reset s) = 0" "total_write (pcie_mm_reset s) = 0"
    using f vm w by (simp_all add: r)
qed

lemma reset_inv: "arrays_ok s \<Longrightarrow> pcie_inv (pcie_mm_reset s)"
  using reset_spec [of s] by (simp add: pcie_inv_def vmem_inv_def phymem_inv_def place_def)

section \<open>Filling a chunk\<close>

lemma find_free_None: "pcie_inv s \<Longrightarrow> find (\<lambda>j. p_status (phymem s ! j) = PPAGE_FREE) [0..<NPPAGES] = None \<Longrightarrow>
    j < NPPAGES \<Longrightarrow> \<exists>i<NVPAGES. place s i = Some j"
  using pcie_invD(7,8) [of s j] ppage_status.exhaust [of "p_status (phymem s ! j)"]
  by (auto simp: find_upt_None)

text \<open>Giving a free frame to a chunk, and moving the frame of one chunk to another.\<close>

lemma grant_inv:
  assumes inv: "pcie_inv s" and c: "c < NVPAGES" "place s c = None"
    and j: "j < NPPAGES" "p_status (phymem s ! j) = PPAGE_FREE"
    and vm: "vmem t = (vmem s)[c := (vmem s ! c)\<lparr>phy_desc := Some j, v_status := VPAGE_IN_MEM\<rparr>]"
    and fr: "frames t = (frames s)[j := (PPAGE_IN_USE, pfn (phymem s ! j))]"
  shows "pcie_inv t"
proof -
  note d = pcie_invD [OF inv]
  have pl: "place t i = (if i = c then Some j else place s i)" if "i < NVPAGES" for i
    using that d(1) vm by (auto simp: place_def nth_list_update)
  have free: "place s i \<noteq> Some j" if "i < NVPAGES" for i
    using that d(8) [of j] j by auto
  have "length (frames t) = NPPAGES" using fr d(2) by (simp add: frames_def)
  then have len: "length (phymem t) = NPPAGES" by (simp add: frames_def)
  have nth: "(p_status (phymem t ! n), pfn (phymem t ! n)) = (if n = j then (PPAGE_IN_USE, pfn (phymem s ! j))
      else (p_status (phymem s ! n), pfn (phymem s ! n)))" if "n < NPPAGES" for n
  proof -
    have "frames t ! n = (if n = j then (PPAGE_IN_USE, pfn (phymem s ! j)) else frames s ! n)"
      using that d(2) by (auto simp: fr nth_list_update) (simp add: frames_def)
    with that len d(2) show ?thesis by (simp add: frames_def)
  qed
  have owner: "(\<exists>i<NVPAGES. place t i = Some n) \<longleftrightarrow> n = j \<or> (\<exists>i<NVPAGES. place s i = Some n)" for n
    using pl c by (metis option.distinct(1) option.inject)
  have "vmem_inv t"
    using d(1,3,4,5) c free pl vm by (auto simp: vmem_inv_def nth_list_update)
  moreover have "phymem_inv t"
    unfolding phymem_inv_def
  proof (intro conjI allI impI)
    fix n assume n: "n < NPPAGES"
    show "pfn (phymem t ! n) = frame_pfn n" "p_status (phymem t ! n) \<noteq> PPAGE_SWAPCACHE"
      "p_status (phymem t ! n) = PPAGE_IN_USE \<longleftrightarrow> (\<exists>i<NVPAGES. place t i = Some n)"
      using nth [OF n] d(6,7,8) [OF n] owner [of n] by (auto split: if_splits)
  qed (rule len)
  ultimately show ?thesis using d(9) pl j by (auto simp: pcie_inv_def split: if_splits)
qed

lemma move_inv:
  assumes inv: "pcie_inv s" and c: "c < NVPAGES" "place s c = None" and v: "v < NVPAGES" "place s v = Some j"
    and vm: "vmem t = (vmem s)[v := (vmem s ! v)\<lparr>v_status := VPAGE_IN_SWAP, phy_desc := None\<rparr>,
       c := (vmem s ! c)\<lparr>phy_desc := Some j, v_status := VPAGE_IN_MEM\<rparr>]"
    and fr: "frames t = frames s"
  shows "pcie_inv t"
proof -
  note d = pcie_invD [OF inv]
  have vc: "v \<noteq> c" using c v by auto
  have pl: "place t i = (if i = c then Some j else if i = v then None else place s i)" if "i < NVPAGES" for i
    using that d(1) vm vc by (auto simp: place_def nth_list_update)
  have sole: "place s i = Some j \<longleftrightarrow> i = v" if "i < NVPAGES" for i
    using that d(5) [of i v j] v by auto
  have len: "length (phymem t) = NPPAGES" using frames_length [OF fr] d(2) by simp
  have owner: "(\<exists>i<NVPAGES. place t i = Some n) \<longleftrightarrow> (\<exists>i<NVPAGES. place s i = Some n)" for n
    using pl sole c v vc by (metis option.distinct(1) option.inject)
  have "vmem_inv t"
    using d(1,3,4,5) c v vc sole pl vm by (auto simp: vmem_inv_def nth_list_update)
  moreover have "phymem_inv t"
    using d(2,6,7,8) len frames_nth [OF fr] owner by (simp add: phymem_inv_def)
  ultimately show ?thesis using d(9) pl v by (auto simp: pcie_inv_def split: if_splits)
qed

lemma frames_in_use:
  "j < length (phymem s) \<Longrightarrow> frames (upd_p j (\<lambda>d. d\<lparr>p_status := PPAGE_IN_USE\<rparr>) s)
     = (frames s)[j := (PPAGE_IN_USE, pfn (phymem s ! j))]"
  by (simp add: frames_def map_update)

lemma fill_free:
  assumes inv: "pcie_inv s" and c: "c < NVPAGES" "place s c = None"
    and j: "find (\<lambda>j. p_status (phymem s ! j) = PPAGE_FREE) [0..<NPPAGES] = Some j"
  obtains t where "fill_vpage K vs c s = Inr (0, t)" "pcie_inv t"
    "vmem t = (vmem s)[c := (vmem s ! c)\<lparr>phy_desc := Some j, v_status := VPAGE_IN_MEM\<rparr>]"
    "frames t = (frames s)[j := (PPAGE_IN_USE, frame_pfn j)]" "ptes t = ptes s"
    "total_write t = total_write s"
    "total_read t = total_read s + (if v_status (vmem s ! c) = VPAGE_IN_SWAP then 1 else 0)"
    "io_ok K \<Longrightarrow> io t = (if v_status (vmem s ! c) = VPAGE_IN_SWAP
       then transfer (swap_bio REQ_OP_READ c (frame_pfn j)) else (\<lambda>w. w)) (io s)"
proof -
  note d = pcie_invD [OF inv]
  from find_upt_SomeD [OF j] have jn: "j < NPPAGES" "p_status (phymem s ! j) = PPAGE_FREE" by simp_all
  have c_mem: "v_status (vmem s ! c) \<noteq> VPAGE_IN_MEM" using d(4) c by simp
  define s1 where "s1 = upd_v c (\<lambda>d. d\<lparr>phy_desc := Some j\<rparr>) s"
  have s1: "vmem s1 = (vmem s)[c := (vmem s ! c)\<lparr>phy_desc := Some j\<rparr>]" "phymem s1 = phymem s" "frames s1 = frames s"
    "ptes s1 = ptes s" "io s1 = io s" "total_read s1 = total_read s" "total_write s1 = total_write s"
    by (simp_all add: s1_def)
  have vc: "vmem s1 ! c = (vmem s ! c)\<lparr>phy_desc := Some j\<rparr>" using c d(1) by (simp add: s1)
  have ph: "phy_of c s1 = Inr j" using c d(1,2) jn s1 vc by (simp add: phy_of_iff)
  obtain s2 where s2:
    "(if v_status (vmem s1 ! c) = VPAGE_IN_SWAP then my_swap_pagein K c s1 else Inr s1) = Inr s2"
    "vmem s2 = vmem s1" "frames s2 = frames s" "ptes s2 = ptes s" "total_write s2 = total_write s"
    "total_read s2 = total_read s + (if v_status (vmem s ! c) = VPAGE_IN_SWAP then 1 else 0)"
    "io_ok K \<Longrightarrow> io s2 = (if v_status (vmem s ! c) = VPAGE_IN_SWAP
       then transfer (swap_bio REQ_OP_READ c (frame_pfn j)) else (\<lambda>w. w)) (io s)"
  proof (cases "v_status (vmem s ! c) = VPAGE_IN_SWAP")
    case True
    show thesis
      by (rule pagein_spec [OF ph, of K], rule that) (use True vc s1 d(3,6) c jn in simp_all)
  next
    case False
    then show thesis by (intro that [of s1]) (use vc s1 in simp_all)
  qed
  define t where "t = upd_v c (\<lambda>d. d\<lparr>v_status := VPAGE_IN_MEM\<rparr>) (upd_p j (\<lambda>d. d\<lparr>p_status := PPAGE_IN_USE\<rparr>) s2)"
  have len: "length (phymem s2) = NPPAGES" using frames_length [OF s2(3)] d(2) by simp
  have pf: "pfn (phymem s2 ! j) = pfn (phymem s ! j)" using frames_nth [OF s2(3)] jn d(2) by simp
  have t: "vmem t = (vmem s)[c := (vmem s ! c)\<lparr>phy_desc := Some j, v_status := VPAGE_IN_MEM\<rparr>]"
    "frames t = (frames s)[j := (PPAGE_IN_USE, pfn (phymem s ! j))]"
    using c d(1) jn(1) len pf s2(2,3) s1(1) by (simp_all add: t_def frames_in_use)
  show thesis
  proof (rule that)
    show "fill_vpage K vs c s = Inr (0, t)"
      unfolding fill_vpage_def j by (simp only: option.case Let_def s1_def [symmetric] s2(1) rbind.simps t_def)
    show "pcie_inv t" using grant_inv [OF inv c jn t] .
  qed (use t d(6) jn s2 in \<open>simp_all add: t_def\<close>)
qed

lemma fill_evict:
  assumes inv: "pcie_inv s" and c: "c < NVPAGES" "place s c = None"
    and full: "find (\<lambda>j. p_status (phymem s ! j) = PPAGE_FREE) [0..<NPPAGES] = None"
  obtains v j t where "fill_vpage K vs c s = Inr (0, t)" "pcie_inv t"
    "v < NVPAGES" "v \<noteq> c" "place s v = Some j" "j < NPPAGES" "\<forall>i<v. place s i = None"
    "vmem t = (vmem s)[v := (vmem s ! v)\<lparr>v_status := VPAGE_IN_SWAP, phy_desc := None\<rparr>,
       c := (vmem s ! c)\<lparr>phy_desc := Some j, v_status := VPAGE_IN_MEM\<rparr>]"
    "frames t = frames s" "ptes t = zap_vma_ptes K (ul (vs + v * MY_PAGE_SIZE)) MY_PAGE_SIZE (ptes s)"
    "total_write t = total_write s + 1"
    "total_read t = total_read s + (if v_status (vmem s ! c) = VPAGE_IN_SWAP then 1 else 0)"
    "io_ok K \<Longrightarrow> io t = (if v_status (vmem s ! c) = VPAGE_IN_SWAP
       then transfer (swap_bio REQ_OP_READ c (frame_pfn j)) else (\<lambda>w. w))
       (transfer (swap_bio REQ_OP_WRITE v (frame_pfn j)) (io s))"
proof -
  note d = pcie_invD [OF inv]
  have "(0 :: nat) < NPPAGES" by (simp add: pcie_sizes)
  from find_free_None [OF inv full this] obtain i0 where i0: "i0 < NVPAGES" "place s i0 = Some 0" by auto
  then have "find (\<lambda>i. v_status (vmem s ! i) = VPAGE_IN_MEM) [0..<NVPAGES] \<noteq> None"
    using d(4) [of i0] by (auto simp: find_upt_None)
  then obtain v where fv: "find (\<lambda>i. v_status (vmem s ! i) = VPAGE_IN_MEM) [0..<NVPAGES] = Some v" by auto
  from find_upt_SomeD [OF fv] have v: "v < NVPAGES" "v_status (vmem s ! v) = VPAGE_IN_MEM"
    "\<forall>i<v. v_status (vmem s ! i) \<noteq> VPAGE_IN_MEM" by simp_all
  with d(4) [of v] obtain j where j: "place s v = Some j" by auto
  with d(9) v have jn: "j < NPPAGES" by blast
  have vc: "v \<noteq> c" using j c by auto
  have low: "\<forall>i<v. place s i = None" using v d(4) by auto
  obtain t where t: "evict_page K vs v c s = Inr t"
    "vmem t = (vmem s)[v := (vmem s ! v)\<lparr>v_status := VPAGE_IN_SWAP, phy_desc := None\<rparr>,
       c := (vmem s ! c)\<lparr>phy_desc := Some j, v_status := VPAGE_IN_MEM\<rparr>]"
    "frames t = frames s"
    "ptes t = zap_vma_ptes K (ul (vs + vid (vmem s ! v) * MY_PAGE_SIZE)) MY_PAGE_SIZE (ptes s)"
    "total_write t = total_write s + 1"
    "total_read t = total_read s + (if v_status (vmem s ! c) = VPAGE_IN_SWAP then 1 else 0)"
    "io_ok K \<Longrightarrow> io t = (if v_status (vmem s ! c) = VPAGE_IN_SWAP
       then transfer (swap_bio REQ_OP_READ (vid (vmem s ! c)) (pfn (phymem s ! j))) else (\<lambda>w. w))
       (transfer (swap_bio REQ_OP_WRITE (vid (vmem s ! v)) (pfn (phymem s ! j))) (io s))"
    by (rule evict_spec [of v s c j K vs]) (use v c vc j jn d(1,2) in \<open>simp_all add: place_def\<close>)
  note t' = t [unfolded d(3) [OF v(1)] d(3) [OF c(1)] d(6) [OF jn]]
  show thesis
  proof (rule that)
    show "fill_vpage K vs c s = Inr (0, t)"
      using j t(1) by (simp add: fill_vpage_def full fv place_def)
    show "pcie_inv t" using move_inv [OF inv c v(1) j t(2,3)] .
  qed (use v c vc j jn low t' in simp_all)
qed

end
