(* ===== verification/Pcie_Memory.thy ===== *)
theory Pcie_Memory
  imports Pcie_Mm
begin

text \<open>
  The device mapping as a user program sees it. An access without a page table entry runs the fault
  handler and the kernel then installs the returned page; an access with an entry goes to the
  frame. The contract of a memory is a locale; the driver's mapping is an instance: it behaves like
  one flat memory of 32 GB although only 8 GB are resident.
\<close>

section \<open>The contract of a memory\<close>

datatype ('a, 'c) memop = Load 'a | Store 'a 'c

fun mem_step ::
  "('s \<Rightarrow> 'a \<Rightarrow> ('c \<times> 's) result) \<Rightarrow> ('s \<Rightarrow> 'a \<Rightarrow> 'c \<Rightarrow> 's result) \<Rightarrow> 's \<Rightarrow> ('a, 'c) memop \<Rightarrow>
   ('c option \<times> 's) result" where
  "mem_step load store s (Load a) = rbind (load s a) (\<lambda>(c, t). Inr (Some c, t))"
| "mem_step load store s (Store a c) = rbind (store s a c) (\<lambda>t. Inr (None, t))"

fun mem_run ::
  "('s \<Rightarrow> 'a \<Rightarrow> ('c \<times> 's) result) \<Rightarrow> ('s \<Rightarrow> 'a \<Rightarrow> 'c \<Rightarrow> 's result) \<Rightarrow> 's \<Rightarrow> ('a, 'c) memop list \<Rightarrow>
   ('c option list \<times> 's) result" where
  "mem_run load store s [] = Inr ([], s)"
| "mem_run load store s (p # ps) = rbind (mem_step load store s p) (\<lambda>(r, t).
     rbind (mem_run load store t ps) (\<lambda>(rs, u). Inr (r # rs, u)))"

text \<open>
  What a flat memory with contents \<open>m\<close> allows as results: a load of a written cell returns what was
  written last, a load of another cell returns anything and fixes it.
\<close>

fun flat_ok :: "('a \<Rightarrow> 'c option) \<Rightarrow> ('a, 'c) memop list \<Rightarrow> 'c option list \<Rightarrow> bool" where
  "flat_ok m [] [] \<longleftrightarrow> True"
| "flat_ok m (Load a # ps) (Some c # rs) \<longleftrightarrow> (m a = None \<or> m a = Some c) \<and> flat_ok (m(a := Some c)) ps rs"
| "flat_ok m (Store a c # ps) (None # rs) \<longleftrightarrow> flat_ok (m(a := Some c)) ps rs"
| "flat_ok m _ _ \<longleftrightarrow> False"

fun op_addr :: "('a, 'c) memop \<Rightarrow> 'a" where
  "op_addr (Load a) = a"
| "op_addr (Store a c) = a"

fun chained :: "('a option \<Rightarrow> 'a \<Rightarrow> bool) \<Rightarrow> 'a option \<Rightarrow> ('a, 'c) memop list \<Rightarrow> bool" where
  "chained follows p [] \<longleftrightarrow> True"
| "chained follows p (q # qs) \<longleftrightarrow> follows p (op_addr q) \<and> chained follows (Some (op_addr q)) qs"

lemma map_le_upd_in: "m \<subseteq>\<^sub>m f \<Longrightarrow> f a = Some c \<Longrightarrow> m(a := Some c) \<subseteq>\<^sub>m f"
  by (simp add: map_le_def)

lemma map_le_at: "m \<subseteq>\<^sub>m f \<Longrightarrow> f a = Some c \<Longrightarrow> m a = None \<or> m a = Some c"
  by (cases "m a") (force simp: map_le_def)+

text \<open>
  Accesses are safe as long as each may follow the one before it.
\<close>

locale safe_memory =
  fixes load :: "'s \<Rightarrow> 'a \<Rightarrow> ('c \<times> 's) result"
    and store :: "'s \<Rightarrow> 'a \<Rightarrow> 'c \<Rightarrow> 's result"
    and inv :: "'a option \<Rightarrow> 's \<Rightarrow> bool"
    and follows :: "'a option \<Rightarrow> 'a \<Rightarrow> bool"
  assumes load_safe: "inv p s \<Longrightarrow> follows p a \<Longrightarrow> \<exists>c t. load s a = Inr (c, t) \<and> inv (Some a) t"
    and store_safe: "inv p s \<Longrightarrow> follows p a \<Longrightarrow> \<exists>t. store s a c = Inr t \<and> inv (Some a) t"
begin

lemma step_safe: "inv p s \<Longrightarrow> follows p (op_addr q) \<Longrightarrow>
    \<exists>r t. mem_step load store s q = Inr (r, t) \<and> inv (Some (op_addr q)) t"
  by (cases q) (use load_safe store_safe in fastforce)+

lemma run_safe: "inv p s \<Longrightarrow> chained follows p qs \<Longrightarrow>
    \<exists>rs t p'. mem_run load store s qs = Inr (rs, t) \<and> inv p' t \<and> length rs = length qs"
proof (induction qs arbitrary: p s)
  case (Cons q qs)
  then obtain r t where t: "mem_step load store s q = Inr (r, t)" "inv (Some (op_addr q)) t"
    using step_safe [of p s q] by auto
  with Cons.IH [of "Some (op_addr q)" t] Cons.prems show ?case by auto
qed auto

end

locale flat_memory = safe_memory load store inv follows
  for load :: "'s \<Rightarrow> 'a \<Rightarrow> ('c \<times> 's) result"
    and store :: "'s \<Rightarrow> 'a \<Rightarrow> 'c \<Rightarrow> 's result"
    and inv :: "'a option \<Rightarrow> 's \<Rightarrow> bool"
    and follows :: "'a option \<Rightarrow> 'a \<Rightarrow> bool" +
  fixes view :: "'s \<Rightarrow> 'a \<Rightarrow> 'c option"
  assumes load_view: "inv p s \<Longrightarrow> follows p a \<Longrightarrow> load s a = Inr (c, t) \<Longrightarrow>
      view t a = Some c \<and> view s \<subseteq>\<^sub>m view t"
    and store_view: "inv p s \<Longrightarrow> follows p a \<Longrightarrow> store s a c = Inr t \<Longrightarrow>
      (view s)(a := Some c) \<subseteq>\<^sub>m view t"
begin

lemma run_flat:
  "inv p s \<Longrightarrow> chained follows p qs \<Longrightarrow> mem_run load store s qs = Inr (rs, t) \<Longrightarrow> m \<subseteq>\<^sub>m view s \<Longrightarrow>
     flat_ok m qs rs"
proof (induction qs arbitrary: p s m rs)
  case (Cons q qs)
  from Cons.prems obtain r u rs' where u: "mem_step load store s q = Inr (r, u)" "rs = r # rs'"
    "mem_run load store u qs = Inr (rs', t)" by auto
  from Cons.prems have inv_u: "inv (Some (op_addr q)) u"
    using step_safe [of p s q] u(1) by auto
  show ?case
  proof (cases q)
    case (Load a)
    with u(1) obtain c where c: "load s a = Inr (c, u)" "r = Some c" by auto
    have v: "view u a = Some c" "view s \<subseteq>\<^sub>m view u"
      using load_view [of p s a c u] Cons.prems Load c(1) by auto
    have le: "m \<subseteq>\<^sub>m view u" using map_le_trans [OF Cons.prems(4) v(2)] .
    have "m(a := Some c) \<subseteq>\<^sub>m view u" using le v(1) by (rule map_le_upd_in)
    moreover have "m a = None \<or> m a = Some c" using le v(1) by (rule map_le_at)
    moreover have "flat_ok (m(a := Some c)) qs rs'"
      using \<open>m(a := Some c) \<subseteq>\<^sub>m view u\<close>
      by (rule Cons.IH [of "Some a" u, rotated -1]) (use Cons.prems u inv_u Load in simp_all)
    ultimately show ?thesis using Load c u(2) by simp
  next
    case (Store a c)
    with u(1) have c: "store s a c = Inr u" "r = None" by auto
    have "(view s)(a := Some c) \<subseteq>\<^sub>m view u"
      using store_view [of p s a c u] Cons.prems Store c(1) by auto
    moreover have "m(a := Some c) \<subseteq>\<^sub>m (view s)(a := Some c)"
      using Cons.prems(4) by (auto simp: map_le_def)
    ultimately have "m(a := Some c) \<subseteq>\<^sub>m view u" by (rule map_le_trans [rotated])
    then have "flat_ok (m(a := Some c)) qs rs'"
      by (rule Cons.IH [of "Some a" u, rotated -1]) (use Cons.prems u inv_u Store in simp_all)
    then show ?thesis using Store c u(2) by simp
  qed
qed simp

end

section \<open>What the mapping holds\<close>

text \<open>A cell of the mapping: the chunk, the page in the chunk, the sector-sized block in the page.\<close>

type_synonym cell = "nat \<times> nat \<times> nat"

fun cell_ok :: "cell \<Rightarrow> bool" where
  "cell_ok (i, n, k) \<longleftrightarrow> i < NVPAGES \<and> n < PAGES \<and> k < 8"

fun view :: "'c pcie \<Rightarrow> cell \<Rightarrow> 'c option" where
  "view s (i, n, k) = (if \<not> cell_ok (i, n, k) then None else case v_status (vmem s ! i) of
     VPAGE_NO_MAP \<Rightarrow> None
   | VPAGE_IN_MEM \<Rightarrow> map_option (\<lambda>j. mem (io s) (frame_pfn j + n) k) (place s i)
   | VPAGE_IN_SWAP \<Rightarrow> Some (disk (io s) (swap_sector i + 8 * n + k)))"

lemma view_cong: "vmem t = vmem s \<Longrightarrow> io t = io s \<Longrightarrow> view t = view s"
proof (rule ext)
  fix a assume "vmem t = vmem s" "io t = io s"
  moreover from this have "place t = place s" by (simp add: place_def fun_eq_iff)
  ultimately show "view t a = view s a" by (cases a) (simp only: view.simps)
qed

lemma blocks_disjoint:
  fixes a b m n :: nat
  assumes "a \<noteq> b" "n < m"
  shows "m * a + n < m * b \<or> m * b + m \<le> m * a + n"
proof (cases "a < b")
  case True
  then have "m * Suc a \<le> m * b" by (intro mult_le_mono2) simp
  with assms(2) show ?thesis by simp
next
  case False
  with assms(1) have "m * Suc b \<le> m * a" by (intro mult_le_mono2) simp
  then show ?thesis by simp
qed

lemma frames_disjoint:
  "j \<noteq> j' \<Longrightarrow> n < PAGES \<Longrightarrow> frame_pfn j + n < frame_pfn j' \<or> frame_pfn j' + PAGES \<le> frame_pfn j + n"
  using blocks_disjoint [of j j' n PAGES] by (auto simp: frame_pfn_def)

lemma frame_pfn_inject:
  assumes "n < PAGES" "n' < PAGES"
  shows "frame_pfn j + n = frame_pfn j' + n' \<longleftrightarrow> j = j' \<and> n = n'"
  using frames_disjoint [of j j' n] assms by (cases "j = j'") auto

lemma sectors_disjoint:
  assumes "i < NVPAGES" "i' < NVPAGES" "i \<noteq> i'" "n < PAGES" "k < 8"
  shows "swap_sector i + 8 * n + k < swap_sector i' \<or> swap_sector i' + 8 * PAGES \<le> swap_sector i + 8 * n + k"
proof -
  have "8 * n + k < 8 * PAGES" using assms(4,5) by simp
  from blocks_disjoint [OF assms(3) this] show ?thesis
    using assms(1,2) by (auto simp: swap_sector_eq)
qed

text \<open>A chunk that the fault handler fills keeps its contents, and so does every other chunk.\<close>

lemma fill_free_view:
  assumes inv: "pcie_inv s" and c: "c < NVPAGES" "place s c = None" and free: "\<forall>i<NVPAGES. place s i \<noteq> Some j"
    and vm: "vmem t = (vmem s)[c := (vmem s ! c)\<lparr>phy_desc := Some j, v_status := VPAGE_IN_MEM\<rparr>]"
    and io: "io t = (if v_status (vmem s ! c) = VPAGE_IN_SWAP
       then transfer (swap_bio REQ_OP_READ c (frame_pfn j)) else (\<lambda>w. w)) (io s)"
  shows "view s \<subseteq>\<^sub>m view t"
proof -
  note d = pcie_invD [OF inv]
  note rd = transfer_read [OF refl, where i = c and f = "frame_pfn j"]
  have pl: "place t i = (if i = c then Some j else place s i)" if "i < NVPAGES" for i
    using that d(1) vm by (auto simp: place_def nth_list_update)
  have st: "v_status (vmem t ! i) = (if i = c then VPAGE_IN_MEM else v_status (vmem s ! i))" if "i < NVPAGES" for i
    using that d(1) vm by (auto simp: nth_list_update)
  have disk: "disk (io t) = disk (io s)" by (simp add: io rd(1))
  have memo: "mem (io t) (frame_pfn j' + n) = mem (io s) (frame_pfn j' + n)" if "j' \<noteq> j" "n < PAGES" for j' n
    using frames_disjoint [OF that] by (auto simp: io rd(3))
  have "view t (i, n, k) = view s (i, n, k)" if ok: "cell_ok (i, n, k)" and vs: "view s (i, n, k) \<noteq> None" for i n k
  proof (cases "i = c")
    case True
    with vs ok c d(4) [of c] have "v_status (vmem s ! c) = VPAGE_IN_SWAP"
      by (cases "v_status (vmem s ! c)") simp_all
    with True ok show ?thesis by (simp add: pl st io rd(2))
  next
    case False
    with ok show ?thesis
      using pl [of i] st [of i] disk memo free d(9) [of i]
      by (cases "v_status (vmem s ! i)"; cases "place s i") auto
  qed
  then show ?thesis
    by (auto simp: map_le_def dom_def)
qed

lemma fill_evict_view:
  assumes inv: "pcie_inv s" and c: "c < NVPAGES" "place s c = None" and v: "v < NVPAGES" "place s v = Some j"
    and vm: "vmem t = (vmem s)[v := (vmem s ! v)\<lparr>v_status := VPAGE_IN_SWAP, phy_desc := None\<rparr>,
       c := (vmem s ! c)\<lparr>phy_desc := Some j, v_status := VPAGE_IN_MEM\<rparr>]"
    and io: "io t = (if v_status (vmem s ! c) = VPAGE_IN_SWAP
       then transfer (swap_bio REQ_OP_READ c (frame_pfn j)) else (\<lambda>w. w))
       (transfer (swap_bio REQ_OP_WRITE v (frame_pfn j)) (io s))"
  shows "view s \<subseteq>\<^sub>m view t"
proof -
  note d = pcie_invD [OF inv]
  note rd = transfer_read [OF refl, where i = c and f = "frame_pfn j"]
  note wr = transfer_write [OF refl, where i = v and f = "frame_pfn j"]
  have vc: "v \<noteq> c" using c v by auto
  have pl: "place t i = (if i = c then Some j else if i = v then None else place s i)" if "i < NVPAGES" for i
    using that d(1) vm vc by (auto simp: place_def nth_list_update)
  have st: "v_status (vmem t ! i) = (if i = c then VPAGE_IN_MEM else if i = v then VPAGE_IN_SWAP
      else v_status (vmem s ! i))" if "i < NVPAGES" for i
    using that d(1) vm by (auto simp: nth_list_update)
  have disk_v: "disk (io t) (swap_sector v + 8 * n + k) = mem (io s) (frame_pfn j + n) k" if "n < PAGES" "k < 8" for n k
    using that by (simp add: io rd(1) wr(2))
  have disk: "disk (io t) (swap_sector i + 8 * n + k) = disk (io s) (swap_sector i + 8 * n + k)"
    if "cell_ok (i, n, k)" "i \<noteq> v" for i n k
    using sectors_disjoint [of i v n k] that v by (simp add: io rd(1) wr(3))
  have memo: "mem (io t) (frame_pfn j' + n) = mem (io s) (frame_pfn j' + n)" if "j' \<noteq> j" "n < PAGES" for j' n
    using frames_disjoint [OF that] by (auto simp: io rd(3) wr(1))
  have "view t (i, n, k) = view s (i, n, k)" if ok: "cell_ok (i, n, k)" and vs: "view s (i, n, k) \<noteq> None" for i n k
  proof (cases "i = c")
    case True
    with vs ok c d(4) [of c] have "v_status (vmem s ! c) = VPAGE_IN_SWAP"
      by (cases "v_status (vmem s ! c)") simp_all
    with True ok show ?thesis
      using sectors_disjoint [of c v n k] v vc by (simp add: pl st io rd(2) wr(3))
  next
    case False
    show ?thesis
    proof (cases "i = v")
      case True
      with ok v vc d(4) [of v] show ?thesis using disk_v by (simp add: pl st)
    next
      case other: False
      with ok v have "place s i \<noteq> Some j" using d(5) [of i v j] by auto
      with False other ok show ?thesis
        using pl [of i] st [of i] disk [OF ok]
        by (cases "v_status (vmem s ! i)"; cases "place s i") (auto simp: memo)
    qed
  qed
  then show ?thesis
    by (auto simp: map_le_def dom_def)
qed

section \<open>Page tables\<close>

text \<open>
  The mapping starts on a page boundary and does not wrap. Its page tables follow the residency of
  the chunks: a resident chunk is mapped as a whole, another not at all.
\<close>

definition vma_ok :: "nat \<Rightarrow> bool" where
  "vma_ok vs \<longleftrightarrow> vs mod PAGE_SIZE = 0 \<and> vs + VIRTUAL_SIZE < 2 ^ 64"

definition vpn :: "nat \<Rightarrow> nat \<Rightarrow> nat \<Rightarrow> nat" where
  "vpn vs i n = vs div PAGE_SIZE + PAGES * i + n"

definition pt_inv :: "nat \<Rightarrow> 'c pcie \<Rightarrow> bool" where
  "pt_inv vs s \<longleftrightarrow> (\<forall>i<NVPAGES. \<forall>n<PAGES. ptes s (vpn vs i n) = map_option (\<lambda>j. frame_pfn j + n) (place s i))"

lemma vpn_inject: "n < PAGES \<Longrightarrow> n' < PAGES \<Longrightarrow> vpn vs i n = vpn vs i' n' \<longleftrightarrow> i = i' \<and> n = n'"
  using blocks_disjoint [of i i' n PAGES] by (cases "i = i'") (auto simp: vpn_def)

lemma vpn_range:
  "n < PAGES \<Longrightarrow> vpn vs i m \<le> vpn vs i' n \<and> vpn vs i' n < vpn vs i PAGES \<longleftrightarrow> i' = i \<and> m \<le> n"
  using blocks_disjoint [of i' i n PAGES] by (cases "i = i'") (auto simp: vpn_def)

text \<open>The address arithmetic of the driver, in page numbers.\<close>

lemma chunk_addr:
  assumes "vma_ok vs" "i < NVPAGES"
  shows "ul (vs + i * MY_PAGE_SIZE) = vs + i * MY_PAGE_SIZE"
    "ul (vs + i * MY_PAGE_SIZE + PAGE_SIZE) = vs + i * MY_PAGE_SIZE + PAGE_SIZE"
    "(vs + i * MY_PAGE_SIZE) div PAGE_SIZE = vpn vs i 0"
    "(vs + i * MY_PAGE_SIZE + PAGE_SIZE) div PAGE_SIZE = vpn vs i 1"
    "(vs + i * MY_PAGE_SIZE + MY_PAGE_SIZE) div PAGE_SIZE = vpn vs i PAGES"
    "(vs + i * MY_PAGE_SIZE + PAGE_SIZE + (MY_PAGE_SIZE - PAGE_SIZE)) div PAGE_SIZE = vpn vs i PAGES"
    "n < PAGES \<Longrightarrow> ul (vs + i * MY_PAGE_SIZE + n * PAGE_SIZE + 2 ^ 64 - vs) div MY_PAGE_SIZE = i"
proof -
  obtain q where q: "vs = 4096 * q" using assms(1) by (auto simp: vma_ok_def pcie_sizes mod_eq_0_iff_dvd dvd_def)
  have lim: "vs + 34359738368 < 2 ^ 64" "i < 8192" using assms by (simp_all add: vma_ok_def pcie_sizes)
  show "ul (vs + i * MY_PAGE_SIZE) = vs + i * MY_PAGE_SIZE"
    "ul (vs + i * MY_PAGE_SIZE + PAGE_SIZE) = vs + i * MY_PAGE_SIZE + PAGE_SIZE"
    using lim by (simp_all add: pcie_sizes)
  have mul: "i * 4194304 = 4096 * (1024 * i)" by simp
  show "(vs + i * MY_PAGE_SIZE) div PAGE_SIZE = vpn vs i 0"
    "(vs + i * MY_PAGE_SIZE + PAGE_SIZE) div PAGE_SIZE = vpn vs i 1"
    "(vs + i * MY_PAGE_SIZE + MY_PAGE_SIZE) div PAGE_SIZE = vpn vs i PAGES"
    "(vs + i * MY_PAGE_SIZE + PAGE_SIZE + (MY_PAGE_SIZE - PAGE_SIZE)) div PAGE_SIZE = vpn vs i PAGES"
    by (simp_all add: pcie_sizes vpn_def q mul)
  show "ul (vs + i * MY_PAGE_SIZE + n * PAGE_SIZE + 2 ^ 64 - vs) div MY_PAGE_SIZE = i" if "n < PAGES"
  proof -
    have "vs + i * 4194304 + n * 4096 + 2 ^ 64 - vs = (i * 4194304 + n * 4096) + 2 ^ 64" by simp
    moreover have "i * 4194304 + n * 4096 < 2 ^ 64" "(i * 4194304 + n * 4096) div 4194304 = i"
      using lim(2) that by (simp_all add: pcie_sizes)
    ultimately show ?thesis by (simp only: pcie_sizes ul_def mod_add_self2 mod_less)
  qed
qed

lemma fill_mapping:
  assumes K: "zap_ok K" and vs: "vma_ok vs" and inv: "pcie_inv s" and pt: "pt_inv vs s"
    and c: "c < NVPAGES" "place s c = None"
  obtains j u where "fill_vpage K vs c s = Inr (0, u)" "pcie_inv u" "place u c = Some j"
    "\<forall>i<NVPAGES. \<forall>n<PAGES. ptes u (vpn vs i n) =
      (if i = c then None else map_option (\<lambda>j. frame_pfn j + n) (place u i))"
    "io_ok K \<Longrightarrow> view s \<subseteq>\<^sub>m view u"
proof (cases "find (\<lambda>j. p_status (phymem s ! j) = PPAGE_FREE) [0..<NPPAGES]")
  case (Some j)
  obtain u where u: "fill_vpage K vs c s = Inr (0, u)" "pcie_inv u"
    "vmem u = (vmem s)[c := (vmem s ! c)\<lparr>phy_desc := Some j, v_status := VPAGE_IN_MEM\<rparr>]" "ptes u = ptes s"
    "io_ok K \<Longrightarrow> io u = (if v_status (vmem s ! c) = VPAGE_IN_SWAP
       then transfer (swap_bio REQ_OP_READ c (frame_pfn j)) else (\<lambda>w. w)) (io s)"
    by (rule fill_free [OF inv c Some, of K vs], rule that; (assumption | blast))
  note d = pcie_invD [OF inv]
  from find_upt_SomeD [OF Some] have "\<forall>i<NVPAGES. place s i \<noteq> Some j" using d(8) [of j] by auto
  from fill_free_view [OF inv c this u(3) u(5)] have view: "io_ok K \<Longrightarrow> view s \<subseteq>\<^sub>m view u" by simp
  have pl: "place u i = (if i = c then Some j else place s i)" if "i < NVPAGES" for i
    using that d(1) u(3) by (auto simp: place_def nth_list_update)
  show thesis
    by (rule that [OF u(1,2) _ _ view]) (use pt c pl u(4) in \<open>auto simp: pt_inv_def\<close>)
next
  case None
  obtain v j u where u: "fill_vpage K vs c s = Inr (0, u)" "pcie_inv u"
    "v < NVPAGES" "v \<noteq> c" "place s v = Some j" "j < NPPAGES"
    "vmem u = (vmem s)[v := (vmem s ! v)\<lparr>v_status := VPAGE_IN_SWAP, phy_desc := None\<rparr>,
       c := (vmem s ! c)\<lparr>phy_desc := Some j, v_status := VPAGE_IN_MEM\<rparr>]"
    "ptes u = zap_vma_ptes K (ul (vs + v * MY_PAGE_SIZE)) MY_PAGE_SIZE (ptes s)"
    "io_ok K \<Longrightarrow> io u = (if v_status (vmem s ! c) = VPAGE_IN_SWAP
       then transfer (swap_bio REQ_OP_READ c (frame_pfn j)) else (\<lambda>w. w))
       (transfer (swap_bio REQ_OP_WRITE v (frame_pfn j)) (io s))"
    by (rule fill_evict [OF inv c None, of K vs], rule that; (assumption | blast))
  note d = pcie_invD [OF inv]
  from fill_evict_view [OF inv c u(3,5,7) u(9)] have view: "io_ok K \<Longrightarrow> view s \<subseteq>\<^sub>m view u" by simp
  have pl: "place u i = (if i = c then Some j else if i = v then None else place s i)" if "i < NVPAGES" for i
    using that d(1) u(4,7) by (auto simp: place_def nth_list_update)
  have zap: "ptes u (vpn vs i n) = (if i = v then None else ptes s (vpn vs i n))" if "n < PAGES" for i n
    using K vpn_range [OF that, of vs v 0 i] u(8) chunk_addr [OF vs u(3)] by (simp add: zap_ok_def)
  show thesis
    by (rule that [OF u(1,2) _ _ view]) (use pt c pl zap u(4) in \<open>auto simp: pt_inv_def\<close>)
qed

text \<open>
  The handler maps the pages of the chunk behind the first one and returns the first, whatever page
  the access was for.
\<close>

lemma fault_fill:
  assumes K: "remap_ok K" and vs: "vma_ok vs" and inv: "pcie_inv s" and c: "c < NVPAGES" "place s c = None" "n < PAGES"
    and u: "fill_vpage K vs c s = Inr (0, u)" "pcie_inv u" "place u c = Some j"
    and hole: "\<forall>m<PAGES. ptes u (vpn vs c m) = None"
  shows "pcieBase_fault K vs (vs + c * MY_PAGE_SIZE + n * PAGE_SIZE) s = Inr (0, Some (frame_pfn j),
    pcall (Get_page (frame_pfn j)) (u\<lparr>ptes := \<lambda>x. if vpn vs c 1 \<le> x \<and> x < vpn vs c PAGES
      then Some (frame_pfn j + 1 + (x - vpn vs c 1)) else ptes u x\<rparr>))"
proof -
  note d = pcie_invD [OF inv] and e = pcie_invD [OF u(2)]
  have jn: "j < NPPAGES" using e(9) [OF c(1) u(3)] .
  have addr: "ul (frame_pfn j + 1) = frame_pfn j + 1" using jn by (simp add: frame_pfn_def pcie_sizes)
  have none: "ptes u x = None" if "vpn vs c 1 \<le> x" "x < vpn vs c PAGES" for x
  proof -
    have "x = vpn vs c (x - vpn vs c 0)" "x - vpn vs c 0 < PAGES" using that by (simp_all add: vpn_def)
    with hole show ?thesis by metis
  qed
  have map: "remap_pfn_range K (ul (vs + c * MY_PAGE_SIZE + PAGE_SIZE)) (ul (frame_pfn j + 1))
      (MY_PAGE_SIZE - PAGE_SIZE) (ptes u) = Inr (\<lambda>x. if vpn vs c 1 \<le> x \<and> x < vpn vs c PAGES
        then Some (frame_pfn j + 1 + (x - vpn vs c 1)) else ptes u x)"
    using K [unfolded remap_ok_def, rule_format, of "vs + c * MY_PAGE_SIZE + PAGE_SIZE" "MY_PAGE_SIZE - PAGE_SIZE"
        "ptes u" "frame_pfn j + 1"] none
    unfolding chunk_addr [OF vs c(1)] addr by blast
  have st: "v_status (vmem s ! c) = VPAGE_IN_SWAP \<or> v_status (vmem s ! c) = VPAGE_NO_MAP" "phy_desc (vmem s ! c) = None"
    using d(4) [OF c(1)] c(2) by (cases "v_status (vmem s ! c)"; simp add: place_def)+
  have vu: "v_status (vmem u ! c) = VPAGE_IN_MEM" "phy_desc (vmem u ! c) = Some j" "vid (vmem u ! c) = c"
    using e(3,4) [OF c(1)] u(3) by (simp_all add: place_def)
  have ph: "phy_of c u = Inr j" using e(1,2) c jn vu by (simp add: phy_of_iff)
  have sz: "MY_PAGE_SIZE \<noteq> PAGE_SIZE" by (simp add: pcie_sizes)
  show ?thesis
    unfolding pcieBase_fault_def Let_def chunk_addr(7) [OF vs c(1,3)]
    using c d(1) st u(1) vu ph sz map e(6) [OF jn] by simp
qed

lemma fault_mapping:
  assumes K: "mm_ok K" and vs: "vma_ok vs" and inv: "pcie_inv s" and pt: "pt_inv vs s"
    and c: "c < NVPAGES" "place s c = None"
  obtains j u t where "pcieBase_fault K vs (vs + c * MY_PAGE_SIZE) s = Inr (0, Some (frame_pfn j), t)"
    "fill_vpage K vs c s = Inr (0, u)" "vmem t = vmem u" "total_read t = total_read u" "total_write t = total_write u"
    "pcie_inv t" "place t c = Some j"
    "pt_inv vs (t\<lparr>ptes := finish_fault K (vpn vs c 0) (frame_pfn j) (ptes t)\<rparr>)"
    "io_ok K \<Longrightarrow> view s \<subseteq>\<^sub>m view t"
proof -
  from K have zap: "zap_ok K" and remap: "remap_ok K" and fin: "finish_ok K" by (simp_all add: mm_ok_def)
  obtain j u where u: "fill_vpage K vs c s = Inr (0, u)" "pcie_inv u" "place u c = Some j"
    "\<forall>i<NVPAGES. \<forall>n<PAGES. ptes u (vpn vs i n) =
      (if i = c then None else map_option (\<lambda>j. frame_pfn j + n) (place u i))"
    "io_ok K \<Longrightarrow> view s \<subseteq>\<^sub>m view u"
    by (rule fill_mapping [OF zap vs inv pt c], rule that; (assumption | blast))
  have zero: "(0 :: nat) < PAGES" by (simp add: pcie_sizes)
  define t where "t = pcall (Get_page (frame_pfn j)) (u\<lparr>ptes := \<lambda>x. if vpn vs c 1 \<le> x \<and> x < vpn vs c PAGES
      then Some (frame_pfn j + 1 + (x - vpn vs c 1)) else ptes u x\<rparr>)"
  show thesis
  proof (rule that)
    show "pcieBase_fault K vs (vs + c * MY_PAGE_SIZE) s = Inr (0, Some (frame_pfn j), t)"
      using fault_fill [OF remap vs inv c zero u(1-3)] u(4) c(1) by (simp add: t_def)
    show "pcie_inv t" using pcie_inv_cong [of t u] u(2) by (simp add: t_def)
    show "place t c = Some j" using u(3) by (simp add: t_def place_def)
    show "io_ok K \<Longrightarrow> view s \<subseteq>\<^sub>m view t"
      using u(5) view_cong [of t u] by (simp add: t_def)
    have t_pte: "ptes t (vpn vs i n) = (if i = c \<and> 1 \<le> n then Some (frame_pfn j + n) else ptes u (vpn vs i n))"
      if "n < PAGES" for i n
      using vpn_range [OF that, of vs c 1 i] that by (auto simp: t_def vpn_def)
    then have "ptes t (vpn vs c 0) = None" using u(4) c t_pte [OF zero, of c] zero by simp
    then have fin_t: "finish_fault K (vpn vs c 0) (frame_pfn j) (ptes t) = (ptes t)(vpn vs c 0 := Some (frame_pfn j))"
      using fin by (simp add: finish_ok_def)
    have pl: "place (t\<lparr>ptes := x\<rparr>) = place u" for x by (simp add: t_def place_def fun_eq_iff)
    show "pt_inv vs (t\<lparr>ptes := finish_fault K (vpn vs c 0) (frame_pfn j) (ptes t)\<rparr>)"
      unfolding pt_inv_def fin_t
      using u(3,4) pl t_pte vpn_inject [OF _ zero, of _ vs _ c] by auto
  qed (use u(1) in \<open>simp_all add: t_def\<close>)
qed

section \<open>User accesses\<close>

text \<open>
  An access to page \<open>n\<close> of chunk \<open>i\<close>: the processor uses the page table entry; without one, the
  kernel calls the fault handler and installs the page that it returned.
\<close>

definition user_touch :: "'c kernel \<Rightarrow> nat \<Rightarrow> nat \<Rightarrow> nat \<Rightarrow> 'c pcie \<Rightarrow> 'c pcie result" where
  "user_touch K vs i n s =
     (if ptes s (vpn vs i n) \<noteq> None then Inr s
      else rbind (pcieBase_fault K vs (vs + i * MY_PAGE_SIZE + n * PAGE_SIZE) s) (\<lambda>(ret, page, t).
        case page of None \<Rightarrow> Inl NullDeref
        | Some f \<Rightarrow> Inr (t\<lparr>ptes := finish_fault K (vpn vs i n) f (ptes t)\<rparr>)))"

fun user_load :: "'c kernel \<Rightarrow> nat \<Rightarrow> 'c pcie \<Rightarrow> cell \<Rightarrow> ('c \<times> 'c pcie) result" where
  "user_load K vs s (i, n, k) = rbind (user_touch K vs i n s) (\<lambda>t. case ptes t (vpn vs i n) of
     None \<Rightarrow> Inl Diverges | Some f \<Rightarrow> Inr (mem (io t) f k, t))"

fun user_store :: "'c kernel \<Rightarrow> nat \<Rightarrow> 'c pcie \<Rightarrow> cell \<Rightarrow> 'c \<Rightarrow> 'c pcie result" where
  "user_store K vs s (i, n, k) c = rbind (user_touch K vs i n s) (\<lambda>t. case ptes t (vpn vs i n) of
     None \<Rightarrow> Inl Diverges
   | Some f \<Rightarrow> Inr (t\<lparr>io := (io t)\<lparr>mem := (mem (io t))(f := (mem (io t) f)(k := c))\<rparr>\<rparr>))"

text \<open>
  A chunk is entered at its first page: an access to another page comes right after an access to
  the same chunk. A program that walks through the mapping obeys this.
\<close>

fun enters :: "cell option \<Rightarrow> cell \<Rightarrow> bool" where
  "enters p (i, n, k) \<longleftrightarrow> cell_ok (i, n, k) \<and> (n = 0 \<or> (case p of None \<Rightarrow> False | Some (i', _, _) \<Rightarrow> i' = i))"

fun at_cell :: "'c pcie \<Rightarrow> cell option \<Rightarrow> bool" where
  "at_cell s None \<longleftrightarrow> True"
| "at_cell s (Some (i, n, k)) \<longleftrightarrow> cell_ok (i, n, k) \<and> place s i \<noteq> None"

definition map_inv :: "'c kernel \<Rightarrow> nat \<Rightarrow> cell option \<Rightarrow> 'c pcie \<Rightarrow> bool" where
  "map_inv K vs p s \<longleftrightarrow> mm_ok K \<and> vma_ok vs \<and> pcie_inv s \<and> pt_inv vs s \<and> at_cell s p"

lemma touch_spec:
  assumes inv: "map_inv K vs p s" and a: "enters p (i, n, k)"
  obtains j t where "user_touch K vs i n s = Inr t" "map_inv K vs (Some (i, n, k)) t" "place t i = Some j"
    "ptes t (vpn vs i n) = Some (frame_pfn j + n)" "io_ok K \<Longrightarrow> view s \<subseteq>\<^sub>m view t"
proof -
  from inv have K: "mm_ok K" "vma_ok vs" "pcie_inv s" "pt_inv vs s" "at_cell s p" by (simp_all add: map_inv_def)
  from a have ok: "i < NVPAGES" "n < PAGES" "k < 8" by simp_all
  show thesis
  proof (cases "place s i")
    case (Some j)
    then have "ptes s (vpn vs i n) = Some (frame_pfn j + n)" using K(4) ok by (simp add: pt_inv_def)
    with Some K ok show thesis by (intro that [of s j]) (simp_all add: user_touch_def map_inv_def)
  next
    case None
    with a K(5) have n: "n = 0" by (cases p) auto
    from None K(4) ok have pte: "ptes s (vpn vs i 0) = None" by (simp add: pt_inv_def n)
    obtain j t where t: "pcieBase_fault K vs (vs + i * MY_PAGE_SIZE) s = Inr (0, Some (frame_pfn j), t)"
      "pcie_inv t" "place t i = Some j"
      "pt_inv vs (t\<lparr>ptes := finish_fault K (vpn vs i 0) (frame_pfn j) (ptes t)\<rparr>)"
      "io_ok K \<Longrightarrow> view s \<subseteq>\<^sub>m view t"
      by (rule fault_mapping [OF K(1-4) ok(1) None], rule that; (assumption | blast))
    let ?t = "t\<lparr>ptes := finish_fault K (vpn vs i 0) (frame_pfn j) (ptes t)\<rparr>"
    have pl: "place ?t = place t" by (simp add: place_def fun_eq_iff)
    have "pcie_inv ?t" using pcie_inv_cong [of ?t t] t(2) by simp
    moreover have "view ?t = view t" by (rule view_cong) simp_all
    moreover have "ptes ?t (vpn vs i 0) = Some (frame_pfn j)"
      using t(3,4) pl ok unfolding pt_inv_def by (simp add: n)
    ultimately show thesis
      using t pte pl ok K n by (intro that [of ?t j]) (simp_all add: user_touch_def map_inv_def)
  qed
qed

lemma store_view_upd:
  assumes inv: "pcie_inv t" and ok: "cell_ok (i, n, k)" and j: "place t i = Some j"
  shows "view (t\<lparr>io := (io t)\<lparr>mem := (mem (io t))(frame_pfn j + n := (mem (io t) (frame_pfn j + n))(k := c))\<rparr>\<rparr>)
    = (view t)(( i, n, k) := Some c)" (is "view ?u = _")
proof (rule ext)
  fix b :: cell
  obtain i' n' k' where b: "b = (i', n', k')" by (cases b)
  note d = pcie_invD [OF inv]
  have pl: "place ?u = place t" by (simp add: place_def fun_eq_iff)
  have st: "v_status (vmem t ! i) = VPAGE_IN_MEM" using d(4) ok j by simp
  show "view ?u b = ((view t)((i, n, k) := Some c)) b"
  proof (cases "cell_ok b")
    case True
    show ?thesis
    proof (cases "i' = i")
      case same: True
      with True b st j show ?thesis by (simp add: pl)
    next
      case False
      have "frame_pfn j' + n' \<noteq> frame_pfn j + n" if "place t i' = Some j'" for j'
        using frame_pfn_inject [of n' n j' j] d(5) [of i i' j] that j ok True b False by auto
      with False True b show ?thesis
        by (cases "v_status (vmem t ! i')"; cases "place t i'") (simp_all add: pl)
    qed
  qed (use ok b in auto)
qed

section \<open>The driver's mapping is a memory\<close>

interpretation map: safe_memory "user_load K vs" "user_store K vs" "map_inv K vs" enters for K vs
proof
  fix p :: "cell option" and s :: "'a pcie" and a :: cell and c :: 'a
  assume inv: "map_inv K vs p s" and a: "enters p a"
  obtain i n k where [simp]: "a = (i, n, k)" by (cases a)
  obtain j t where t: "user_touch K vs i n s = Inr t" "map_inv K vs (Some (i, n, k)) t" "place t i = Some j"
    "ptes t (vpn vs i n) = Some (frame_pfn j + n)"
    by (rule touch_spec [OF inv a [unfolded \<open>a = (i, n, k)\<close>]], rule that; assumption)
  show "\<exists>c t. user_load K vs s a = Inr (c, t) \<and> map_inv K vs (Some a) t"
    using t by auto
  let ?u = "t\<lparr>io := (io t)\<lparr>mem := (mem (io t))(frame_pfn j + n := (mem (io t) (frame_pfn j + n))(k := c))\<rparr>\<rparr>"
  have "pcie_inv ?u \<longleftrightarrow> pcie_inv t" by (rule pcie_inv_cong) (simp_all add: frames_def)
  then have "map_inv K vs (Some a) ?u" using t(2) by (simp add: map_inv_def pt_inv_def place_def)
  then show "\<exists>t. user_store K vs s a c = Inr t \<and> map_inv K vs (Some a) t"
    using t by auto
qed

definition data_inv :: "'c kernel \<Rightarrow> nat \<Rightarrow> cell option \<Rightarrow> 'c pcie \<Rightarrow> bool" where
  "data_inv K vs p s \<longleftrightarrow> io_ok K \<and> map_inv K vs p s"

interpretation data: flat_memory "user_load K vs" "user_store K vs" "data_inv K vs" enters view for K vs
proof
  fix p :: "cell option" and s t :: "'a pcie" and a :: cell and c :: 'a
  assume data: "data_inv K vs p s" and a: "enters p a"
  then have io: "io_ok K" and inv: "map_inv K vs p s" by (simp_all add: data_inv_def)
  show "\<exists>c t. user_load K vs s a = Inr (c, t) \<and> data_inv K vs (Some a) t"
    "\<exists>t. user_store K vs s a c = Inr t \<and> data_inv K vs (Some a) t"
    using map.load_safe [OF inv a] map.store_safe [OF inv a, of c] io by (simp_all add: data_inv_def)
  obtain i n k where [simp]: "a = (i, n, k)" by (cases a)
  obtain j u where u: "user_touch K vs i n s = Inr u" "map_inv K vs (Some (i, n, k)) u" "place u i = Some j"
    "ptes u (vpn vs i n) = Some (frame_pfn j + n)" "view s \<subseteq>\<^sub>m view u"
    by (rule touch_spec [OF inv a [unfolded \<open>a = (i, n, k)\<close>]], rule that; (assumption | simp add: io))
  have ok: "cell_ok (i, n, k)" using a by simp
  have pc: "pcie_inv u" using u(2) by (simp add: map_inv_def)
  show "view t a = Some c \<and> view s \<subseteq>\<^sub>m view t" if "user_load K vs s a = Inr (c, t)"
    using that u ok pcie_invD(4) [OF pc, of i] by auto
  show "(view s)(a := Some c) \<subseteq>\<^sub>m view t" if "user_store K vs s a c = Inr t"
  proof -
    from that u have "t = u\<lparr>io := (io u)\<lparr>mem := (mem (io u))(frame_pfn j + n := (mem (io u) (frame_pfn j + n))(k := c))\<rparr>\<rparr>"
      by simp
    then have "view t = (view u)((i, n, k) := Some c)" using store_view_upd [OF pc ok u(3)] by simp
    with u(5) show ?thesis by (auto simp: map_le_def)
  qed
qed

end
