(* ===== verification/Pcie_Paging.thy ===== *)
theory Pcie_Paging
  imports Pcie_Memory
begin

text \<open>
  What the PCIe memory driver guarantees to the program that maps it: flat memory semantics, the
  absence of kernel bugs, the eviction policy and its cost on a sequential walk, the separation of
  frames and sectors; and where these guarantees end.
\<close>

section \<open>A freshly mapped device\<close>

definition unmapped :: "nat \<Rightarrow> 'c pcie \<Rightarrow> bool" where
  "unmapped vs s \<longleftrightarrow> (\<forall>i<NVPAGES. \<forall>n<PAGES. ptes s (vpn vs i n) = None)"

definition boot_pcie :: "'c \<Rightarrow> 'c pcie" where
  "boot_pcie c = \<lparr>vmem = replicate NVPAGES \<lparr>phy_desc = None, v_status = VPAGE_IN_MEM, vid = 0\<rparr>,
     phymem = replicate NPPAGES \<lparr>p_status = PPAGE_FREE, pfn = 0, dirty = False, write_cnt = 0, read_cnt = 0\<rparr>,
     total_write = 0, total_read = 0, io = \<lparr>mem = \<lambda>_ _. c, disk = \<lambda>_. c\<rparr>, ptes = \<lambda>_. None, clock = 0,
     live_bios = 0, pcalls = []\<rparr>"

lemma boot_ok: "arrays_ok (boot_pcie c)" "unmapped vs (boot_pcie c)"
  by (simp_all add: boot_pcie_def arrays_ok_def unmapped_def)

lemma reset_map_inv:
  assumes "mm_ok K" "vma_ok vs" "arrays_ok s" "unmapped vs s"
  shows "map_inv K vs None (pcie_mm_reset s)"
  using assms reset_spec [OF assms(3)] reset_inv [OF assms(3)]
  by (simp add: map_inv_def pt_inv_def unmapped_def place_def)

lemma demo_vma: "vma_ok 0x7f0000000000"
  by (simp add: vma_ok_def pcie_sizes)

definition demo_ops :: "(cell, nat) memop list" where
  "demo_ops = [Store (0, 0, 3) 7, Store (0, 5, 1) 8, Store (1, 0, 0) 9, Load (0, 0, 3), Load (0, 5, 1)]"

lemma demo_ops_ok: "chained enters None demo_ops"
  by (simp add: demo_ops_def pcie_sizes)

section \<open>Resident chunks\<close>

definition resident :: "'c pcie \<Rightarrow> nat set" where
  "resident s = {i. i < NVPAGES \<and> place s i \<noteq> None}"

definition swapped :: "'c pcie \<Rightarrow> nat set" where
  "swapped s = {i. i < NVPAGES \<and> v_status (vmem s ! i) = VPAGE_IN_SWAP}"

lemma finite_resident [simp]: "finite (resident s)"
  by (rule finite_subset [of _ "{..<NVPAGES}"]) (auto simp: resident_def)

lemma card_resident:
  assumes "pcie_inv s"
  shows "card (resident s) = card {j. j < NPPAGES \<and> p_status (phymem s ! j) = PPAGE_IN_USE}"
proof -
  note d = pcie_invD [OF assms]
  have "bij_betw (\<lambda>i. the (place s i)) (resident s) {j. j < NPPAGES \<and> p_status (phymem s ! j) = PPAGE_IN_USE}"
  proof (rule bij_betwI')
    show "the (place s x) = the (place s y) \<longleftrightarrow> x = y" if "x \<in> resident s" "y \<in> resident s" for x y
      using that d(5) [of x y] by (auto simp: resident_def)
    show "the (place s x) \<in> {j. j < NPPAGES \<and> p_status (phymem s ! j) = PPAGE_IN_USE}" if "x \<in> resident s" for x
      using that d(9) [of x] d(8) [of "the (place s x)"] by (auto simp: resident_def)
    show "\<exists>x\<in>resident s. y = the (place s x)" if "y \<in> {j. j < NPPAGES \<and> p_status (phymem s ! j) = PPAGE_IN_USE}" for y
      using that d(8) [of y] by (force simp: resident_def)
  qed
  then show ?thesis by (rule bij_betw_same_card)
qed

lemma full_iff:
  assumes "pcie_inv s"
  shows "find (\<lambda>j. p_status (phymem s ! j) = PPAGE_FREE) [0..<NPPAGES] = None \<longleftrightarrow> \<not> card (resident s) < NPPAGES"
    (is "?full \<longleftrightarrow> _")
proof -
  note d = pcie_invD [OF assms]
  let ?U = "{j. j < NPPAGES \<and> p_status (phymem s ! j) = PPAGE_IN_USE}"
  have sub: "?U \<subseteq> {..<NPPAGES}" by auto
  have st: "p_status (phymem s ! j) \<noteq> PPAGE_FREE \<longleftrightarrow> p_status (phymem s ! j) = PPAGE_IN_USE" if "j < NPPAGES" for j
    using d(7) [OF that] by (cases "p_status (phymem s ! j)") simp_all
  have "?full \<longleftrightarrow> (\<forall>j<NPPAGES. p_status (phymem s ! j) = PPAGE_IN_USE)"
    unfolding find_upt_None using st by simp
  also have "\<dots> \<longleftrightarrow> ?U = {..<NPPAGES}" by auto
  also have "\<dots> \<longleftrightarrow> \<not> card ?U < NPPAGES"
  proof
    show "\<not> card ?U < NPPAGES" if eq: "?U = {..<NPPAGES}" unfolding eq by simp
    show "?U = {..<NPPAGES}" if "\<not> card ?U < NPPAGES"
      using that by (intro card_seteq [OF _ sub]) simp_all
  qed
  finally show ?thesis by (simp add: card_resident [OF assms])
qed

text \<open>
  One step of the paging policy on the residency sets: with a free frame the chunk is added,
  otherwise it replaces the lowest resident chunk.
\<close>

lemma fill_policy_step:
  assumes inv: "pcie_inv s" and c: "c < NVPAGES" "place s c = None"
  obtains t where "fill_vpage K vs c s = Inr (0, t)" "pcie_inv t"
    "resident t = insert c (if card (resident s) < NPPAGES then resident s else resident s - {Min (resident s)})"
    "swapped t = (if card (resident s) < NPPAGES then swapped s else insert (Min (resident s)) (swapped s)) - {c}"
    "total_write t = total_write s + (if card (resident s) < NPPAGES then 0 else 1)"
    "total_read t = total_read s + (if c \<in> swapped s then 1 else 0)"
proof (cases "find (\<lambda>j. p_status (phymem s ! j) = PPAGE_FREE) [0..<NPPAGES]")
  case (Some j)
  then have card: "card (resident s) < NPPAGES" using full_iff [OF inv] by simp
  obtain t where t: "fill_vpage K vs c s = Inr (0, t)" "pcie_inv t"
    "vmem t = (vmem s)[c := (vmem s ! c)\<lparr>phy_desc := Some j, v_status := VPAGE_IN_MEM\<rparr>]"
    "total_write t = total_write s"
    "total_read t = total_read s + (if v_status (vmem s ! c) = VPAGE_IN_SWAP then 1 else 0)"
    by (rule fill_free [OF inv c Some, of K vs], rule that; assumption)
  show thesis
    by (rule that [OF t(1,2)])
       (use card c t(3-5) pcie_invD(1) [OF inv] in \<open>auto simp: resident_def swapped_def place_def nth_list_update\<close>)
next
  case None
  then have card: "\<not> card (resident s) < NPPAGES" using full_iff [OF inv] by simp
  obtain v j t where t: "fill_vpage K vs c s = Inr (0, t)" "pcie_inv t" "v < NVPAGES" "v \<noteq> c"
    "place s v = Some j" "\<forall>i<v. place s i = None"
    "vmem t = (vmem s)[v := (vmem s ! v)\<lparr>v_status := VPAGE_IN_SWAP, phy_desc := None\<rparr>,
       c := (vmem s ! c)\<lparr>phy_desc := Some j, v_status := VPAGE_IN_MEM\<rparr>]"
    "total_write t = total_write s + 1"
    "total_read t = total_read s + (if v_status (vmem s ! c) = VPAGE_IN_SWAP then 1 else 0)"
    by (rule fill_evict [OF inv c None, of K vs], rule that; assumption)
  have "Min (resident s) = v"
    using t(3,5,6) by (intro Min_eqI) (auto simp: resident_def not_less [symmetric])
  then show thesis
    by (intro that [OF t(1,2)])
       (use card c t(3-9) pcie_invD(1) [OF inv] in \<open>auto simp: resident_def swapped_def place_def nth_list_update\<close>)
qed

section \<open>Walking through the mapping\<close>

definition walk :: "'c kernel \<Rightarrow> nat \<Rightarrow> 'c pcie \<Rightarrow> nat list \<Rightarrow> 'c pcie result" where
  "walk K vs = run_steps (\<lambda>s c. user_touch K vs c 0 s)"

lemma walk_simps [simp]: "walk K vs s [] = Inr s"
  by (simp add: walk_def)

lemma walk_snoc:
  "walk K vs s cs = Inr t \<Longrightarrow> user_touch K vs c 0 t = Inr u \<Longrightarrow> walk K vs s (cs @ [c]) = Inr u"
  by (simp add: walk_def run_steps_append)

lemma touch_resident:
  assumes "map_inv K vs p s" "c \<in> resident s"
  shows "user_touch K vs c 0 s = Inr s"
proof -
  have "(0 :: nat) < PAGES" by (simp add: pcie_sizes)
  with assms show ?thesis by (auto simp: user_touch_def map_inv_def pt_inv_def resident_def)
qed

lemma touch_policy:
  assumes inv: "map_inv K vs p s" and c: "c < NVPAGES" "c \<notin> resident s"
  obtains t where "user_touch K vs c 0 s = Inr t" "map_inv K vs None t"
    "resident t = insert c (if card (resident s) < NPPAGES then resident s else resident s - {Min (resident s)})"
    "swapped t = (if card (resident s) < NPPAGES then swapped s else insert (Min (resident s)) (swapped s)) - {c}"
    "total_write t = total_write s + (if card (resident s) < NPPAGES then 0 else 1)"
    "total_read t = total_read s + (if c \<in> swapped s then 1 else 0)"
proof -
  from inv have K: "mm_ok K" "vma_ok vs" "pcie_inv s" "pt_inv vs s" by (simp_all add: map_inv_def)
  have none: "place s c = None" using c by (simp add: resident_def)
  have "(0 :: nat) < PAGES" by (simp add: pcie_sizes)
  then have pte: "ptes s (vpn vs c 0) = None" using K(4) c none by (simp add: pt_inv_def)
  obtain j u t where t: "pcieBase_fault K vs (vs + c * MY_PAGE_SIZE) s = Inr (0, Some (frame_pfn j), t)"
    "fill_vpage K vs c s = Inr (0, u)" "vmem t = vmem u" "total_read t = total_read u" "total_write t = total_write u"
    "pcie_inv t" "pt_inv vs (t\<lparr>ptes := finish_fault K (vpn vs c 0) (frame_pfn j) (ptes t)\<rparr>)"
    by (rule fault_mapping [OF K c(1) none], rule that; assumption)
  define w where "w = t\<lparr>ptes := finish_fault K (vpn vs c 0) (frame_pfn j) (ptes t)\<rparr>"
  have touch: "user_touch K vs c 0 s = Inr w" using pte t(1) by (simp add: user_touch_def w_def)
  have "pcie_inv w" using pcie_inv_cong [of w t] t(6) by (simp add: w_def)
  with t(7) K have inv_w: "map_inv K vs None w" by (simp add: map_inv_def w_def)
  have "place w = place u" using t(3) by (simp add: w_def place_def fun_eq_iff)
  then have res: "resident w = resident u" by (simp add: resident_def)
  have sw: "swapped w = swapped u" using t(3) by (simp add: w_def swapped_def)
  have tot: "total_write w = total_write u" "total_read w = total_read u" using t by (simp_all add: w_def)
  show thesis
    by (rule fill_policy_step [OF K(3) c(1) none, of K vs], rule that [OF touch inv_w])
       (use res sw tot t(2) in simp_all)
qed

lemma write_walk:
  assumes inv: "map_inv K vs None s" "resident s = {}" "swapped s = {}"
  shows "n \<le> NVPAGES \<Longrightarrow> \<exists>t. walk K vs s [0..<n] = Inr t \<and> map_inv K vs None t \<and>
    resident t = {n - NPPAGES..<n} \<and> swapped t = {..<n - NPPAGES} \<and>
    total_write t = total_write s + of_nat (n - NPPAGES) \<and> total_read t = total_read s"
proof (induction n)
  case (Suc n)
  then obtain t where t: "walk K vs s [0..<n] = Inr t" "map_inv K vs None t" "resident t = {n - NPPAGES..<n}"
    "swapped t = {..<n - NPPAGES}" "total_write t = total_write s + of_nat (n - NPPAGES)"
    "total_read t = total_read s" by auto
  obtain u where u: "user_touch K vs n 0 t = Inr u" "map_inv K vs None u"
    "resident u = insert n (if card (resident t) < NPPAGES then resident t else resident t - {Min (resident t)})"
    "swapped u = (if card (resident t) < NPPAGES then swapped t else insert (Min (resident t)) (swapped t)) - {n}"
    "total_write u = total_write t + (if card (resident t) < NPPAGES then 0 else 1)"
    "total_read u = total_read t + (if n \<in> swapped t then 1 else 0)"
    by (rule touch_policy [OF t(2), of n]) (use Suc.prems t(3) in auto)
  have run: "walk K vs s [0..<Suc n] = Inr u" using walk_snoc [OF t(1) u(1)] by simp
  have rd: "total_read u = total_read s" using u(6) t(4,6) by simp
  show ?case
  proof (cases "n < NPPAGES")
    case True
    then have "card (resident t) < NPPAGES" "n - NPPAGES = 0" "Suc n - NPPAGES = 0" using t(3) by simp_all
    with u t have "resident u = {0..<Suc n}" "swapped u = {}" "total_write u = total_write s" by auto
    with run u(2) rd \<open>Suc n - NPPAGES = 0\<close> show ?thesis by simp
  next
    case False
    have np: "0 < NPPAGES" by (simp add: pcie_sizes)
    with False have card: "\<not> card (resident t) < NPPAGES" "Suc n - NPPAGES = Suc (n - NPPAGES)"
      using t(3) by simp_all
    have min: "Min (resident t) = n - NPPAGES"
      unfolding t(3) by (rule Min_eqI) (use False np in auto)
    have "resident u = {Suc n - NPPAGES..<Suc n}" "swapped u = {..<Suc n - NPPAGES}"
      "total_write u = total_write s + of_nat (Suc n - NPPAGES)"
      using u(3-5) t(3-5) card min False np by auto
    with run u(2) rd show ?thesis by blast
  qed
qed (use inv in simp)

lemma reread_walk:
  assumes s: "map_inv K vs None s" "resident s = {m..<m + NPPAGES}" "swapped s = {..<m}" "0 < m"
    and n: "m + NPPAGES \<le> NVPAGES"
  shows "k \<le> m \<Longrightarrow> \<exists>t. walk K vs s [0..<Suc k] = Inr t \<and> map_inv K vs None t \<and>
    resident t = insert k {Suc m..<m + NPPAGES} \<and> swapped t = {..m} - {k} \<and>
    total_write t = total_write s + of_nat (Suc k) \<and> total_read t = total_read s + of_nat (Suc k)"
proof (induction k)
  case 0
  have np: "0 < NPPAGES" by (simp add: pcie_sizes)
  have card: "\<not> card (resident s) < NPPAGES" "Min (resident s) = m"
    unfolding s(2) using np by (auto intro!: Min_eqI)
  obtain t where t: "user_touch K vs 0 0 s = Inr t" "map_inv K vs None t"
    "resident t = insert 0 (resident s - {m})" "swapped t = insert m (swapped s) - {0}"
    "total_write t = total_write s + 1" "total_read t = total_read s + (if 0 \<in> swapped s then 1 else 0)"
    by (rule touch_policy [OF s(1), of 0]) (use card s(2,4) n np in auto)
  have "resident t = insert 0 {Suc m..<m + NPPAGES}" "swapped t = {..m} - {0}"
    using t(3,4) s(2,3) by auto
  with t s(3,4) walk_snoc [of K vs s "[]" s 0 t] show ?case by auto
next
  case (Suc k)
  then obtain t where t: "walk K vs s [0..<Suc k] = Inr t" "map_inv K vs None t"
    "resident t = insert k {Suc m..<m + NPPAGES}" "swapped t = {..m} - {k}"
    "total_write t = total_write s + of_nat (Suc k)" "total_read t = total_read s + of_nat (Suc k)" by auto
  have np: "0 < NPPAGES" by (simp add: pcie_sizes)
  have card: "\<not> card (resident t) < NPPAGES" "Min (resident t) = k"
    unfolding t(3) using np Suc.prems by (auto intro!: Min_eqI)
  obtain u where u: "user_touch K vs (Suc k) 0 t = Inr u" "map_inv K vs None u"
    "resident u = insert (Suc k) (resident t - {k})" "swapped u = insert k (swapped t) - {Suc k}"
    "total_write u = total_write t + 1" "total_read u = total_read t + (if Suc k \<in> swapped t then 1 else 0)"
    by (rule touch_policy [OF t(2), of "Suc k"]) (use card t(3) n np Suc.prems in auto)
  have res: "resident u = insert (Suc k) {Suc m..<m + NPPAGES}" "swapped u = {..m} - {Suc k}"
    using u(3,4) t(3,4) Suc.prems by auto
  have "Suc k \<in> swapped t" using t(4) Suc.prems by auto
  with u(5,6) t(5,6) have "total_write u = total_write s + of_nat (Suc (Suc k))"
    "total_read u = total_read s + of_nat (Suc (Suc k))" by (simp_all add: algebra_simps)
  with res u(2) walk_snoc [OF t(1) u(1)] show ?case by auto
qed

lemma walk_resident:
  assumes "map_inv K vs None s" "set cs \<subseteq> resident s"
  shows "walk K vs s cs = Inr s"
  using assms(2) by (induction cs) (use touch_resident [OF assms(1)] in \<open>auto simp: walk_def\<close>)

lemma walk_append: "walk K vs s (xs @ ys) = rbind (walk K vs s xs) (\<lambda>t. walk K vs t ys)"
  by (simp add: walk_def run_steps_append)

lemma reset_empty:
  assumes "arrays_ok s"
  shows "resident (pcie_mm_reset s) = {}" "swapped (pcie_mm_reset s) = {}"
  using reset_spec [OF assms] by (simp_all add: resident_def swapped_def place_def)

section \<open>Properties\<close>

text \<open>
  C1: The mapping is a flat memory. After a reset, whatever loads and stores a program makes (entering
  each chunk at its first page), every load of a cell it has written returns the last value written
  there, although chunks move between memory and disk; the only assumption about the kernel is that
  block transfers succeed and that the page table functions do what they are documented to do.
\<close>

theorem pcie_flat_memory:
  assumes "mm_ok K" "io_ok K" "vma_ok vs" "arrays_ok s" "unmapped vs s" "chained enters None qs"
  shows "\<exists>rs t. mem_run (user_load K vs) (user_store K vs) (pcie_mm_reset s) qs = Inr (rs, t) \<and>
    flat_ok (\<lambda>_. None) qs rs"
proof -
  have inv: "data_inv K vs None (pcie_mm_reset s)"
    using reset_map_inv [of K vs s] assms by (simp add: data_inv_def)
  obtain rs t where "mem_run (user_load K vs) (user_store K vs) (pcie_mm_reset s) qs = Inr (rs, t)"
    using data.run_safe [OF inv assms(6)] by blast
  moreover from data.run_flat [OF inv assms(6) this] have "flat_ok (\<lambda>_. None) qs rs"
    by (simp add: map_le_def)
  ultimately show ?thesis by blast
qed

theorem pcie_flat_memory_witness:
  "\<exists>rs t. mem_run (user_load (plain_kernel True) 0x7f0000000000) (user_store (plain_kernel True) 0x7f0000000000)
      (pcie_mm_reset (boot_pcie 0)) demo_ops = Inr (rs, t) \<and> flat_ok (\<lambda>_. None) demo_ops rs"
  by (rule pcie_flat_memory [OF plain_mm plain_io demo_vma boot_ok demo_ops_ok])

text \<open>
  C4: No access reaches a kernel bug. Whatever the block layer answers (requests that cannot be
  allocated, filled or completed included), the same programs run without a BUG, a null dereference
  or an index outside the descriptor tables, and the tables keep their invariant: resident chunks
  have distinct frames and exactly their frames are in use.
\<close>

theorem pcie_never_bugs:
  assumes "mm_ok K" "vma_ok vs" "arrays_ok s" "unmapped vs s" "chained enters None qs"
  shows "\<exists>rs t. mem_run (user_load K vs) (user_store K vs) (pcie_mm_reset s) qs = Inr (rs, t) \<and> pcie_inv t"
  using map.run_safe [OF reset_map_inv [OF assms(1-4)] assms(5)] by (auto simp: map_inv_def)

text \<open>A block layer on which every transfer fails and leaves memory and disk as they are.\<close>

definition failing_kernel :: "'c kernel" where
  "failing_kernel = (plain_kernel False)\<lparr>submit_bio_wait := (\<lambda>_ _ w. (- EIO, w))\<rparr>"

lemma failing_mm: "mm_ok failing_kernel"
  using plain_mm [of False]
  by (simp add: failing_kernel_def mm_ok_def zap_ok_def remap_ok_def finish_ok_def)

theorem pcie_never_bugs_witness:
  "\<exists>rs t. mem_run (user_load failing_kernel 0x7f0000000000) (user_store failing_kernel 0x7f0000000000)
      (pcie_mm_reset (boot_pcie 0)) demo_ops = Inr (rs, t) \<and> pcie_inv t"
  by (rule pcie_never_bugs [OF failing_mm demo_vma boot_ok demo_ops_ok])

text \<open>
  C15: The paging policy. A fault on a chunk that is not resident always succeeds and makes it
  resident; as long as fewer than 2048 chunks are resident nothing is written out, and otherwise
  exactly the resident chunk with the lowest index goes to the disk. A block is read exactly if the
  chunk had been written out before.
\<close>

theorem fill_policy:
  assumes "pcie_inv s" "c < NVPAGES" "place s c = None"
  shows "\<exists>t. fill_vpage K vs c s = Inr (0, t) \<and> pcie_inv t \<and>
    resident t = insert c (if card (resident s) < NPPAGES then resident s else resident s - {Min (resident s)}) \<and>
    total_write t = total_write s + (if card (resident s) < NPPAGES then 0 else 1) \<and>
    total_read t = total_read s + (if v_status (vmem s ! c) = VPAGE_IN_SWAP then 1 else 0)"
  by (rule fill_policy_step [OF assms, of K vs])
     (use assms(2) in \<open>auto simp: swapped_def\<close>)

theorem fill_policy_witness:
  "\<exists>t. fill_vpage (plain_kernel False) 0 5 (pcie_mm_reset (boot_pcie (0 :: nat))) = Inr (0, t) \<and> pcie_inv t \<and>
    resident t = insert 5 (if card (resident (pcie_mm_reset (boot_pcie (0 :: nat)))) < NPPAGES
      then resident (pcie_mm_reset (boot_pcie (0 :: nat)))
      else resident (pcie_mm_reset (boot_pcie (0 :: nat))) - {Min (resident (pcie_mm_reset (boot_pcie (0 :: nat))))}) \<and>
    total_write t = total_write (pcie_mm_reset (boot_pcie (0 :: nat))) +
      (if card (resident (pcie_mm_reset (boot_pcie (0 :: nat)))) < NPPAGES then 0 else 1) \<and>
    total_read t = total_read (pcie_mm_reset (boot_pcie (0 :: nat))) +
      (if v_status (vmem (pcie_mm_reset (boot_pcie (0 :: nat))) ! 5) = VPAGE_IN_SWAP then 1 else 0)"
  by (rule fill_policy [OF reset_inv [OF boot_ok(1)]])
     (simp_all add: pcie_sizes place_def reset_spec(1) [OF boot_ok(1)])

text \<open>
  C21: The cost of a sequential pass, which is what the test program measures. A first pass over n
  chunks after a reset (2048 < n) writes out n - 2048 chunks and reads none; a second pass over the
  same chunks reads n - 2047 of them back, and the counters in \<^verbatim>\<open>/proc\<close> say so.
\<close>

theorem sequential_cost:
  assumes "mm_ok K" "vma_ok vs" "arrays_ok s" "unmapped vs s" "NPPAGES < n" "n \<le> NVPAGES"
  shows "\<exists>t u. walk K vs (pcie_mm_reset s) [0..<n] = Inr t \<and>
    total_write t = of_nat (n - NPPAGES) \<and> total_read t = 0 \<and>
    walk K vs t [0..<n] = Inr u \<and>
    total_write u = of_nat (n - NPPAGES + (n - NPPAGES + 1)) \<and> total_read u = of_nat (n - NPPAGES + 1)"
proof -
  let ?r = "pcie_mm_reset s"
  note r = reset_map_inv [OF assms(1-4)] reset_empty [OF assms(3)]
  obtain t where t: "walk K vs ?r [0..<n] = Inr t" "map_inv K vs None t" "resident t = {n - NPPAGES..<n}"
    "swapped t = {..<n - NPPAGES}" "total_write t = total_write ?r + of_nat (n - NPPAGES)"
    "total_read t = total_read ?r"
    using write_walk [OF r assms(6)] by blast
  have tot: "total_write t = of_nat (n - NPPAGES)" "total_read t = 0"
    using t(5,6) reset_spec(8,9) [OF assms(3)] by simp_all
  define m where "m = n - NPPAGES"
  have m: "n = m + NPPAGES" "0 < m" using assms(5) by (simp_all add: m_def)
  have t': "resident t = {m..<m + NPPAGES}" "swapped t = {..<m}"
    using t(3,4) unfolding m_def [symmetric] m(1) by simp_all
  obtain u where u: "walk K vs t [0..<Suc m] = Inr u" "map_inv K vs None u"
    "resident u = insert m {Suc m..<m + NPPAGES}"
    "total_write u = total_write t + of_nat (Suc m)" "total_read u = total_read t + of_nat (Suc m)"
    using reread_walk [OF t(2) t' m(2) _ order_refl] assms(6) unfolding m(1) by blast
  have "0 < NPPAGES" by (simp add: pcie_sizes)
  then have "[0..<n] = [0..<Suc m] @ [Suc m..<n]" using m upt_add_eq_append [of 0 "Suc m" "n - Suc m"] by simp
  moreover have "walk K vs u [Suc m..<n] = Inr u"
    by (rule walk_resident [OF u(2)]) (use u(3) m in auto)
  ultimately have "walk K vs t [0..<n] = Inr u" using u(1) by (simp del: upt_Suc add: walk_append)
  moreover have "total_write u = of_nat (n - NPPAGES + (n - NPPAGES + 1))" "total_read u = of_nat (n - NPPAGES + 1)"
    using u(4,5) tot unfolding m_def by simp_all
  ultimately show ?thesis using t(1) tot by blast
qed

theorem sequential_cost_witness:
  "\<exists>t u. walk (plain_kernel True) 0x7f0000000000 (pcie_mm_reset (boot_pcie (0 :: nat))) [0..<4096] = Inr t \<and>
    total_write t = of_nat (4096 - NPPAGES) \<and> total_read t = 0 \<and>
    walk (plain_kernel True) 0x7f0000000000 t [0..<4096] = Inr u \<and>
    total_write u = of_nat (4096 - NPPAGES + (4096 - NPPAGES + 1)) \<and> total_read u = of_nat (4096 - NPPAGES + 1)"
  by (rule sequential_cost [OF plain_mm demo_vma boot_ok]) (simp_all add: pcie_sizes)

end
