(* ===== verification/Pcie_Limits.thy ===== *)
theory Pcie_Limits
  imports Pcie_Paging
begin

text \<open>
  Where the guarantees of the PCIe memory driver end: transfer errors that nobody sees, requests
  that are never released, a reset under a live mapping, a chunk that is entered in its middle, and
  statistics that a reset forgets. Also the layout of the swap device.
\<close>

text \<open>
  The swap device is used without overlap and within its size: the sectors of a chunk are 8192
  consecutive ones, those of different chunks are disjoint, and the last one ends at 32 GB. The
  frames of the reserved memory are disjoint in the same way. No 64-bit product wraps.
\<close>

theorem swap_layout:
  assumes "i < NVPAGES"
  shows "swap_sector i * 2 ^ SECTOR_SHIFT = i * MY_PAGE_SIZE \<and>
    (swap_sector i + 8 * PAGES) * 2 ^ SECTOR_SHIFT \<le> SWAP_SIZE \<and>
    (\<forall>i'. i' < NVPAGES \<and> i' \<noteq> i \<longrightarrow>
      {swap_sector i..<swap_sector i + 8 * PAGES} \<inter> {swap_sector i'..<swap_sector i' + 8 * PAGES} = {})"
proof -
  have "{swap_sector i..<swap_sector i + 8 * PAGES} \<inter> {swap_sector i'..<swap_sector i' + 8 * PAGES} = {}"
    if "i' < NVPAGES" "i' \<noteq> i" for i'
    using blocks_disjoint [of i i' 0 "8 * PAGES"] blocks_disjoint [of i' i 0 "8 * PAGES"] that assms
    by (auto simp: swap_sector_eq pcie_sizes)
  moreover have "swap_sector i * 2 ^ SECTOR_SHIFT = i * MY_PAGE_SIZE"
    "(swap_sector i + 8 * PAGES) * 2 ^ SECTOR_SHIFT \<le> SWAP_SIZE"
    using assms by (simp_all add: swap_sector_eq pcie_sizes)
  ultimately show ?thesis by blast
qed

theorem swap_layout_witness:
  "swap_sector 8191 * 2 ^ SECTOR_SHIFT = 8191 * MY_PAGE_SIZE \<and>
    (swap_sector 8191 + 8 * PAGES) * 2 ^ SECTOR_SHIFT \<le> SWAP_SIZE \<and>
    {swap_sector 8191..<swap_sector 8191 + 8 * PAGES} \<inter> {swap_sector 0..<swap_sector 0 + 8 * PAGES} = {}"
proof -
  have "(8191 :: nat) < NVPAGES" "(0 :: nat) < NVPAGES" by (simp_all add: pcie_sizes)
  with swap_layout [of 8191] show ?thesis by auto
qed

section \<open>Transfer errors\<close>

lemma failing_pages:
  assumes "\<And>k b w. submit_bio_wait K k b w = (- EIO, w)"
  shows "my_swap_readpages K i s = Inr (r, t) \<Longrightarrow> io t = io s" "my_swap_writepages K i s = Inr (r, t) \<Longrightarrow> io t = io s"
  by (auto simp: swap_io_defs assms split: if_splits option.splits)

lemma failing_paging:
  assumes "\<And>k b w. submit_bio_wait K k b w = (- EIO, w)"
  shows "read_pages K i s = Inr t \<Longrightarrow> io t = io s" "write_pages K i s = Inr t \<Longrightarrow> io t = io s"
    "my_swap_pagein K i s = Inr t \<Longrightarrow> io t = io s" "evict_page K vs v c s = Inr t \<Longrightarrow> io t = io s"
proof -
  show rd: "io t = io s" if "read_pages K i s = Inr t" for i s t
    using that by (auto simp: read_pages_def Let_def dest: failing_pages(1) [OF assms])
  show wr: "io t = io s" if "write_pages K i s = Inr t" for i s t
    using that by (auto simp: write_pages_def Let_def dest: failing_pages(2) [OF assms])
  show "my_swap_pagein K i s = Inr t \<Longrightarrow> io t = io s" "evict_page K vs v c s = Inr t \<Longrightarrow> io t = io s"
    by (auto simp: my_swap_pagein_def evict_page_def Let_def dest!: rd wr split: if_splits)
qed

lemma fill_failing_io:
  assumes "\<And>k b w. submit_bio_wait K k b w = (- EIO, w)" "fill_vpage K vs c s = Inr (r, t)"
  shows "io t = io s"
  using assms(2) unfolding fill_vpage_def Let_def
  by (auto split: option.splits if_splits dest!: failing_paging [OF assms(1)])

text \<open>
  C37: A failed write loses the chunk. If the block layer cannot complete the transfer, the fault
  handler still succeeds, gives the frame away and marks the victim as swapped out: from then on the
  victim's contents are whatever was on its sectors before.
\<close>

theorem evict_error_lost:
  assumes inv: "pcie_inv s" and full: "\<not> card (resident s) < NPPAGES" and c: "c < NVPAGES" "place s c = None"
    and K: "\<And>k b w. submit_bio_wait K k b w = (- EIO, w)" and ok: "n < PAGES" "k < 8"
  shows "\<exists>t. fill_vpage K vs c s = Inr (0, t) \<and> pcie_inv t \<and>
    view t (Min (resident s), n, k) = Some (disk (io s) (swap_sector (Min (resident s)) + 8 * n + k))"
proof -
  have none: "find (\<lambda>j. p_status (phymem s ! j) = PPAGE_FREE) [0..<NPPAGES] = None"
    using full_iff [OF inv] full by simp
  obtain v j t where t: "fill_vpage K vs c s = Inr (0, t)" "pcie_inv t" "v < NVPAGES" "v \<noteq> c"
    "place s v = Some j" "\<forall>i<v. place s i = None"
    "vmem t = (vmem s)[v := (vmem s ! v)\<lparr>v_status := VPAGE_IN_SWAP, phy_desc := None\<rparr>,
       c := (vmem s ! c)\<lparr>phy_desc := Some j, v_status := VPAGE_IN_MEM\<rparr>]"
    by (rule fill_evict [OF inv c none, of K vs], rule that; assumption)
  have v: "Min (resident s) = v"
    using t(3,5,6) by (intro Min_eqI) (auto simp: resident_def not_less [symmetric])
  have same: "io t = io s" by (rule fill_failing_io [OF K t(1)])
  have "v_status (vmem t ! v) = VPAGE_IN_SWAP"
    using t(3,4,7) pcie_invD(1) [OF inv] by simp
  then have "view t (v, n, k) = Some (disk (io s) (swap_sector v + 8 * n + k))"
    using ok t(3) same by simp
  with t(1,2) v show ?thesis by blast
qed

theorem evict_error_lost_witness:
  "\<exists>s t. walk failing_kernel 0x7f0000000000 (pcie_mm_reset (boot_pcie (0 :: nat))) [0..<NPPAGES] = Inr s \<and>
    fill_vpage failing_kernel 0x7f0000000000 NPPAGES s = Inr (0, t) \<and> pcie_inv t \<and>
    view t (Min (resident s), 0, 0) = Some (disk (io s) (swap_sector (Min (resident s)) + 8 * 0 + 0))"
proof -
  have "NPPAGES \<le> NVPAGES" "0 < PAGES" "NPPAGES < NVPAGES" by (simp_all add: pcie_sizes)
  note b = boot_ok [where c = "0 :: nat"]
  from write_walk [OF reset_map_inv [OF failing_mm demo_vma b] reset_empty [OF b(1)] \<open>NPPAGES \<le> NVPAGES\<close>]
  obtain s where s: "walk failing_kernel 0x7f0000000000 (pcie_mm_reset (boot_pcie (0 :: nat))) [0..<NPPAGES] = Inr s"
    "map_inv failing_kernel 0x7f0000000000 None s" "resident s = {NPPAGES - NPPAGES..<NPPAGES}"
    by (elim exE conjE) (rule that; assumption)
  have full: "\<not> card (resident s) < NPPAGES" unfolding s(3) by simp
  have inv: "pcie_inv s" using s(2) by (simp add: map_inv_def)
  have "NPPAGES \<notin> resident s" unfolding s(3) by simp
  then have none: "place s NPPAGES = None" using \<open>NPPAGES < NVPAGES\<close> by (simp add: resident_def)
  have K: "submit_bio_wait failing_kernel k b w = (- EIO, w)" for k b and w :: "nat io"
    by (simp add: failing_kernel_def)
  have "(0 :: nat) < 8" by simp
  from evict_error_lost [OF inv full \<open>NPPAGES < NVPAGES\<close> none K \<open>0 < PAGES\<close> this, where vs = "0x7f0000000000"]
  obtain t where t: "fill_vpage failing_kernel 0x7f0000000000 NPPAGES s = Inr (0, t)" "pcie_inv t"
    "view t (Min (resident s), 0, 0) = Some (disk (io s) (swap_sector (Min (resident s)) + 8 * 0 + 0))"
    by (elim exE conjE) (rule that; assumption)
  show ?thesis by (intro exI conjI) (rule s(1), rule t(1), rule t(2), rule t(3))
qed

lemma ex_range_Cons:
  "(\<exists>n. l \<le> n \<and> n < l + (m + Suc 0) \<and> P n) \<longleftrightarrow> P l \<or> (\<exists>n. Suc l \<le> n \<and> n < Suc l + m \<and> P n)"
  (is "?a \<longleftrightarrow> ?b")
proof
  assume ?a
  then obtain n where n: "l \<le> n" "n < l + (m + Suc 0)" "P n" by blast
  then show ?b by (cases "n = l") (auto intro: exI [of _ n])
next
  assume ?b
  then show ?a by (auto intro: exI [of _ l] Suc_leD)
qed

lemma bio_add_pages_None:
  "bio_add_pages K c ps b = None \<longleftrightarrow>
    (\<exists>n. length (bi_pages b) \<le> n \<and> n < length (bi_pages b) + length ps \<and> \<not> bio_add_page_ok K c n)"
proof (induction ps arbitrary: b)
  case (Cons p ps)
  have "(\<exists>n. length (bi_pages b) \<le> n \<and> n < length (bi_pages b) + length (p # ps) \<and> \<not> bio_add_page_ok K c n)
    \<longleftrightarrow> \<not> bio_add_page_ok K c (length (bi_pages b)) \<or>
      (\<exists>n. Suc (length (bi_pages b)) \<le> n \<and> n < Suc (length (bi_pages b)) + length ps \<and> \<not> bio_add_page_ok K c n)"
    by (simp only: ex_range_Cons list.size)
  then show ?case using Cons.IH [of "b\<lparr>bi_pages := bi_pages b @ [p]\<rparr>"] by auto
qed simp

lemma bio_add_pages_ok_upto:
  "bio_add_pages K c ps b \<noteq> None \<Longrightarrow> bio_add_pages K c ps b = Some (b\<lparr>bi_pages := bi_pages b @ ps\<rparr>)"
  using bio_add_pages_Some [of K c ps b] by auto

lemma bio_add_swap:
  assumes "bi_pages b = []"
  shows "bio_add_pages K c [f..<f + PAGES] b =
    (if \<exists>n<PAGES. \<not> bio_add_page_ok K c n then None else Some (b\<lparr>bi_pages := [f..<f + PAGES]\<rparr>))"
  using assms bio_add_pages_None [of K c "[f..<f + PAGES]" b] bio_add_pages_ok_upto [of K c "[f..<f + PAGES]" b]
  by auto

text \<open>
  Block requests are released on every path but one. Reading a chunk never leaks its request;
  writing one leaks it exactly if a page could not be added to it.
\<close>

theorem bio_accounting:
  assumes "phy_of i s = Inr j"
  shows "(\<exists>r t. my_swap_readpages K i s = Inr (r, t) \<and> live_bios t = live_bios s) \<and>
    (\<exists>r t. my_swap_writepages K i s = Inr (r, t) \<and>
      live_bios t = live_bios s + (if bio_kmalloc_ok K (clock s) \<and> (\<exists>n<PAGES. \<not> bio_add_page_ok K (clock s) n)
        then 1 else 0))"
  using assms
  by (cases "\<exists>n<PAGES. \<not> bio_add_page_ok K (clock s) n",
      simp_all add: swap_io_defs bio_add_swap split: prod.splits) auto

theorem bio_accounting_witness:
  "let s = (boot_pcie (0 :: nat))\<lparr>vmem := [\<lparr>phy_desc = Some 0, v_status = VPAGE_IN_MEM, vid = 0\<rparr>]\<rparr>;
       K = (plain_kernel True)\<lparr>bio_add_page_ok := \<lambda>_ n. n < 100\<rparr>
   in (\<exists>r t. my_swap_readpages K 0 s = Inr (r, t) \<and> live_bios t = 0) \<and>
      (\<exists>r t. my_swap_writepages K 0 s = Inr (r, t) \<and> live_bios t = 1)"
proof -
  let ?s = "(boot_pcie (0 :: nat))\<lparr>vmem := [\<lparr>phy_desc = Some 0, v_status = VPAGE_IN_MEM, vid = 0\<rparr>]\<rparr>"
  let ?K = "(plain_kernel True)\<lparr>bio_add_page_ok := \<lambda>_ n. n < 100\<rparr> :: nat kernel"
  have "phy_of 0 ?s = Inr 0" "live_bios ?s = 0" "bio_kmalloc_ok ?K (clock ?s)"
    by (simp_all add: phy_of_def boot_pcie_def pcie_sizes plain_kernel_def)
  moreover have "\<exists>n<PAGES. \<not> bio_add_page_ok ?K (clock ?s) n"
    by (rule exI [of _ 100]) (simp add: pcie_sizes)
  ultimately show ?thesis using bio_accounting [of 0 ?s 0 ?K] by (simp add: Let_def)
qed

section \<open>Entering a chunk in its middle\<close>

text \<open>The documented reaction of the kernel to a request to map a range that is mapped already.\<close>

definition remap_bugs :: "'c kernel \<Rightarrow> bool" where
  "remap_bugs K \<longleftrightarrow> (\<forall>a f n pt x. a div PAGE_SIZE \<le> x \<and> x < (a + n) div PAGE_SIZE \<and> pt x \<noteq> None \<longrightarrow>
     remap_pfn_range K a f n pt = Inl KernelBug)"

lemma plain_remap_bugs: "remap_bugs (plain_kernel v)"
  by (auto simp: remap_bugs_def plain_kernel_def list_ex_iff)

text \<open>
  C38: A chunk whose first access is not to its first page crashes the kernel later. The handler maps
  all pages but the first one and returns the first, which the kernel cannot install at the faulting
  address; so the first page stays without an entry, and the next access to it makes the handler map
  the rest a second time.
\<close>

theorem middle_entry_bugs:
  assumes K: "mm_ok K" "remap_bugs K" and vs: "vma_ok vs" and inv: "pcie_inv s" "pt_inv vs s"
    and c: "c < NVPAGES" "place s c = None" and n: "0 < n" "n < PAGES"
  shows "\<exists>t. user_touch K vs c n s = Inr t \<and> ptes t (vpn vs c n) \<noteq> None \<and>
    user_touch K vs c 0 t = Inl KernelBug"
proof -
  from K have zap: "zap_ok K" and remap: "remap_ok K" and fin: "finish_ok K" by (simp_all add: mm_ok_def)
  obtain j u where u: "fill_vpage K vs c s = Inr (0, u)" "pcie_inv u" "place u c = Some j"
    "\<forall>i<NVPAGES. \<forall>n<PAGES. ptes u (vpn vs i n) =
      (if i = c then None else map_option (\<lambda>j. frame_pfn j + n) (place u i))"
    by (rule fill_mapping [OF zap vs inv c], rule that; assumption)
  define t where "t = pcall (Get_page (frame_pfn j)) (u\<lparr>ptes := \<lambda>x. if vpn vs c 1 \<le> x \<and> x < vpn vs c PAGES
      then Some (frame_pfn j + 1 + (x - vpn vs c 1)) else ptes u x\<rparr>)"
  have fault: "pcieBase_fault K vs (vs + c * MY_PAGE_SIZE + n * PAGE_SIZE) s = Inr (0, Some (frame_pfn j), t)"
    using fault_fill [OF remap vs inv(1) c n(2) u(1-3)] u(4) c(1) by (simp add: t_def)
  have range: "vpn vs c 1 \<le> vpn vs c n" "vpn vs c n < vpn vs c PAGES" using n by (simp_all add: vpn_def)
  have entry: "ptes t (vpn vs c n) \<noteq> None" "ptes t (vpn vs c 0) = None"
    using range u(4) [rule_format, of c 0] c n by (auto simp: t_def vpn_def)
  have "finish_fault K (vpn vs c n) (frame_pfn j) (ptes t) = ptes t"
    using fin entry(1) by (auto simp: finish_ok_def)
  moreover have "ptes s (vpn vs c n) = None" using inv(2) c n by (simp add: pt_inv_def)
  ultimately have first: "user_touch K vs c n s = Inr t" using fault by (simp add: user_touch_def)
  note e = pcie_invD [OF u(2)]
  have jn: "j < NPPAGES" using e(9) [OF c(1) u(3)] .
  have vt: "v_status (vmem t ! c) = VPAGE_IN_MEM" "phy_desc (vmem t ! c) = Some j" "vid (vmem t ! c) = c"
    "length (vmem t) = NVPAGES" "length (phymem t) = NPPAGES"
    using e(1,2) e(3,4) [of c] c u(3) by (simp_all add: t_def place_def)
  have bug: "remap_pfn_range K (vs + c * MY_PAGE_SIZE + PAGE_SIZE) f (MY_PAGE_SIZE - PAGE_SIZE) (ptes t) = Inl KernelBug" for f
    using K(2) [unfolded remap_bugs_def, rule_format, of "vs + c * MY_PAGE_SIZE + PAGE_SIZE" "vpn vs c n"
        "MY_PAGE_SIZE - PAGE_SIZE" "ptes t" f] entry(1) range
    unfolding chunk_addr [OF vs c(1)] by blast
  have zero: "(0 :: nat) < PAGES" "MY_PAGE_SIZE \<noteq> PAGE_SIZE" by (simp_all add: pcie_sizes)
  have "phy_of c t = Inr j" using vt c jn by (simp add: phy_of_iff)
  then have "pcieBase_fault K vs (vs + c * MY_PAGE_SIZE + 0 * PAGE_SIZE) t = Inl KernelBug"
    unfolding pcieBase_fault_def Let_def chunk_addr(7) [OF vs c(1) zero(1)]
    using vt c zero(2) bug by (simp add: chunk_addr(2) [OF vs c(1)])
  then have "user_touch K vs c 0 t = Inl KernelBug" using entry(2) by (simp add: user_touch_def)
  with first entry(1) show ?thesis by blast
qed

theorem middle_entry_bugs_witness:
  "\<exists>t. user_touch (plain_kernel True) 0x7f0000000000 3 7 (pcie_mm_reset (boot_pcie (0 :: nat))) = Inr t \<and>
    ptes t (vpn 0x7f0000000000 3 7) \<noteq> None \<and> user_touch (plain_kernel True) 0x7f0000000000 3 0 t = Inl KernelBug"
proof -
  note r = reset_map_inv [OF plain_mm demo_vma boot_ok [where c = "0 :: nat"], of True]
  have "place (pcie_mm_reset (boot_pcie (0 :: nat))) 3 = None"
    using reset_spec(1) [OF boot_ok(1) [where c = "0 :: nat"], of 3] by (simp add: place_def pcie_sizes)
  with r show ?thesis
    by (intro middle_entry_bugs [OF plain_mm plain_remap_bugs demo_vma]) (simp_all add: map_inv_def pcie_sizes)
qed

section \<open>Reset\<close>

text \<open>The first chunk that is touched after a reset gets the first frame; no other entry changes.\<close>

lemma reset_touch:
  assumes K: "mm_ok K" and vs: "vma_ok vs" and s: "arrays_ok s" and c: "c < NVPAGES"
    and hole: "\<forall>m<PAGES. ptes s (vpn vs c m) = None"
  obtains t where "user_touch K vs c 0 (pcie_mm_reset s) = Inr t" "pcie_inv t" "place t c = Some 0"
    "\<forall>i. \<forall>n<PAGES. ptes t (vpn vs i n) = (if i = c then Some (frame_pfn 0 + n) else ptes s (vpn vs i n))"
proof -
  let ?r = "pcie_mm_reset s"
  from K have remap: "remap_ok K" and fin: "finish_ok K" by (simp_all add: mm_ok_def)
  note r = reset_spec [OF s]
  have inv: "pcie_inv ?r" by (rule reset_inv [OF s])
  have none: "place ?r c = None" using r(1) c by (simp add: place_def)
  have zero: "(0 :: nat) < PAGES" "0 < NPPAGES" by (simp_all add: pcie_sizes)
  have free: "find (\<lambda>j. p_status (phymem ?r ! j) = PPAGE_FREE) [0..<NPPAGES] = Some 0"
    using r(4) [OF zero(2)] zero(2) by (simp add: upt_conv_Cons)
  obtain u where u: "fill_vpage K vs c ?r = Inr (0, u)" "pcie_inv u"
    "vmem u = (vmem ?r)[c := (vmem ?r ! c)\<lparr>phy_desc := Some 0, v_status := VPAGE_IN_MEM\<rparr>]" "ptes u = ptes ?r"
    by (rule fill_free [OF inv c none free, of K vs], rule that; assumption)
  have pu: "place u c = Some 0" using u(3) c r(2) by (simp add: place_def)
  have pte: "ptes u = ptes s" using u(4) r(6) by simp
  define t where "t = pcall (Get_page (frame_pfn 0)) (u\<lparr>ptes := \<lambda>x. if vpn vs c 1 \<le> x \<and> x < vpn vs c PAGES
      then Some (frame_pfn 0 + 1 + (x - vpn vs c 1)) else ptes u x\<rparr>)"
  have fault: "pcieBase_fault K vs (vs + c * MY_PAGE_SIZE) ?r = Inr (0, Some (frame_pfn 0), t)"
    using fault_fill [OF remap vs inv c none zero(1) u(1,2) pu] hole pte by (simp add: t_def)
  have t_pte: "ptes t (vpn vs i n) = (if i = c \<and> 1 \<le> n then Some (frame_pfn 0 + n) else ptes s (vpn vs i n))"
    if "n < PAGES" for i n
    using vpn_range [OF that, of vs c 1 i] that pte by (auto simp: t_def vpn_def)
  define w where "w = t\<lparr>ptes := (ptes t)(vpn vs c 0 := Some (frame_pfn 0))\<rparr>"
  have "ptes t (vpn vs c 0) = None" using t_pte [OF zero(1), of c] hole zero by simp
  then have touch: "user_touch K vs c 0 ?r = Inr w"
    using fault fin hole zero r(6) by (simp add: user_touch_def w_def finish_ok_def)
  show thesis
  proof (rule that [OF touch])
    show "pcie_inv w" using pcie_inv_cong [of w u] u(2) by (simp add: w_def t_def)
    show "place w c = Some 0" using pu by (simp add: w_def t_def place_def)
    show "\<forall>i. \<forall>n<PAGES. ptes w (vpn vs i n) = (if i = c then Some (frame_pfn 0 + n) else ptes s (vpn vs i n))"
      using t_pte vpn_inject [OF _ zero(1), of _ vs _ c] by (auto simp: w_def)
  qed
qed

text \<open>
  A reset under a live mapping makes chunks share memory. The reset frees all frames and forgets
  the chunks, but leaves the page tables: if a chunk was mapped to the first frame, the next chunk
  that is touched is mapped to the same pages.
\<close>

theorem reset_aliases:
  assumes "mm_ok K" "vma_ok vs" "pcie_inv s" "pt_inv vs s" "v < NVPAGES" "place s v = Some 0"
    "c < NVPAGES" "c \<noteq> v" "place s c = None" "n < PAGES"
  shows "\<exists>t. user_touch K vs c 0 (pcie_mm_reset s) = Inr t \<and> ptes t (vpn vs v n) = Some (frame_pfn 0 + n) \<and>
    ptes t (vpn vs c n) = Some (frame_pfn 0 + n)"
proof -
  have "arrays_ok s" using pcie_invD(1,2) [OF assms(3)] by (simp add: arrays_ok_def)
  moreover have "\<forall>m<PAGES. ptes s (vpn vs c m) = None" using assms by (simp add: pt_inv_def)
  ultimately obtain t where "user_touch K vs c 0 (pcie_mm_reset s) = Inr t"
    "\<forall>i. \<forall>n<PAGES. ptes t (vpn vs i n) = (if i = c then Some (frame_pfn 0 + n) else ptes s (vpn vs i n))"
    by (rule reset_touch [OF assms(1,2) _ assms(7)])
  moreover have "ptes s (vpn vs v n) = Some (frame_pfn 0 + n)" using assms by (simp add: pt_inv_def)
  ultimately show ?thesis using assms(8,10) by auto
qed

theorem reset_aliases_witness:
  "\<exists>(s :: nat pcie) t. user_touch (plain_kernel True) 0x7f0000000000 2 0 (pcie_mm_reset (boot_pcie (0 :: nat))) = Inr s \<and>
    user_touch (plain_kernel True) 0x7f0000000000 1 0 (pcie_mm_reset s) = Inr t \<and>
    ptes t (vpn 0x7f0000000000 2 5) = Some (frame_pfn 0 + 5) \<and> ptes t (vpn 0x7f0000000000 1 5) = Some (frame_pfn 0 + 5)"
proof -
  note b = boot_ok [where c = "0 :: nat"]
  have two: "2 < NVPAGES" "1 < NVPAGES" "(0 :: nat) < NPPAGES" "5 < PAGES" by (simp_all add: pcie_sizes)
  have out: "2 \<notin> resident (pcie_mm_reset (boot_pcie (0 :: nat)))" using reset_empty [OF b(1)] by simp
  obtain s where s: "user_touch (plain_kernel True) 0x7f0000000000 2 0 (pcie_mm_reset (boot_pcie (0 :: nat))) = Inr s"
    "map_inv (plain_kernel True) 0x7f0000000000 None s"
    "resident s = insert 2 (if card (resident (pcie_mm_reset (boot_pcie (0 :: nat)))) < NPPAGES
      then resident (pcie_mm_reset (boot_pcie (0 :: nat)))
      else resident (pcie_mm_reset (boot_pcie (0 :: nat))) - {Min (resident (pcie_mm_reset (boot_pcie (0 :: nat))))})"
    by (rule touch_policy [OF reset_map_inv [OF plain_mm demo_vma b] two(1) out], rule that; assumption)
  have res: "resident s = {2}" using s(3) two(3) unfolding reset_empty(1) [OF b(1)] by simp
  have "\<forall>m<PAGES. ptes (boot_pcie (0 :: nat)) (vpn 0x7f0000000000 2 m) = None" by (simp add: boot_pcie_def)
  then have "place s 2 = Some 0"
    by (rule reset_touch [OF plain_mm demo_vma b(1) two(1), of True]) (use s(1) in simp)
  moreover have "1 \<notin> resident s" unfolding res by simp
  then have "place s 1 = None" using two(2) by (simp add: resident_def)
  moreover have "pcie_inv s" "pt_inv 0x7f0000000000 s" using s(2) by (simp_all add: map_inv_def)
  ultimately have "\<exists>t. user_touch (plain_kernel True) 0x7f0000000000 1 0 (pcie_mm_reset s) = Inr t \<and>
      ptes t (vpn 0x7f0000000000 2 5) = Some (frame_pfn 0 + 5) \<and> ptes t (vpn 0x7f0000000000 1 5) = Some (frame_pfn 0 + 5)"
    using two by (intro reset_aliases [OF plain_mm demo_vma]) simp_all
  with s(1) show ?thesis by blast
qed

text \<open>
  A reset forgets to clear the statistics of the frames: whatever the counters were, only those
  of the first frame are zero afterwards, the others keep their values. The totals are cleared.
\<close>

theorem reset_statistics:
  assumes "arrays_ok s" "j < NPPAGES"
  shows "total_read (pcie_mm_reset s) = 0 \<and> total_write (pcie_mm_reset s) = 0 \<and>
    (0 < j \<longrightarrow> read_cnt (phymem (pcie_mm_reset s) ! j) = read_cnt (phymem s ! j) \<and>
      write_cnt (phymem (pcie_mm_reset s) ! j) = write_cnt (phymem s ! j))"
  using reset_spec [OF assms(1)] assms(2) by blast

theorem reset_statistics_witness:
  "read_cnt (phymem (pcie_mm_reset (upd_p 3 (\<lambda>d. d\<lparr>read_cnt := 9\<rparr>) (boot_pcie (0 :: nat)))) ! 3) = 9"
proof -
  have "arrays_ok (upd_p 3 (\<lambda>d. d\<lparr>read_cnt := 9\<rparr>) (boot_pcie (0 :: nat)))"
    using boot_ok(1) [of 0] by (simp add: arrays_ok_def)
  from reset_statistics [OF this, of 3] show ?thesis by (simp add: pcie_sizes boot_pcie_def)
qed

end
