(* ===== verification/Pcie_Cdev.thy ===== *)
theory Pcie_Cdev
  imports Pcie_Paging
begin

text \<open>
  The character device, the swap device and the module entry points of the PCIe driver
  (\<^verbatim>\<open>pcie_cdev.c\<close>, \<^verbatim>\<open>pcie_main.c\<close>, \<^verbatim>\<open>pcie_proc.c\<close> and the first part of
  \<^verbatim>\<open>pcie_swap.c\<close>): which kernel objects each function acquires and releases, on every error
  path. What the kernel functions answer is an input (\<open>cdev_env\<close>).
\<close>

section \<open>State\<close>

datatype bdev = BdevNull | BdevErr int | BdevOpen

record cdev_env =
  alloc_region_ret :: int
  region_major :: nat
  cdev_add_ret :: int
  class_create_ok :: bool
  device_create_ok :: bool
  blkdev_err :: int
  rk3588 :: bool
  proc_mkdir_ok :: bool
  proc_create_ok :: bool

record PCIeAdapter =
  region_held :: bool
  cdev_added :: bool
  class_created :: bool
  device_created :: bool
  major :: nat
  swap_bdev :: bdev
  swap_device_path :: string
  proc_dir :: bool
  proc_entry :: "string option"

record 'c pcie_module =
  adap :: PCIeAdapter
  mm :: "'c pcie"

section \<open>File operations\<close>

text \<open>The command numbers: \<^verbatim>\<open>_IO(type, nr)\<close> has no direction and no size.\<close>

definition IO_cmd :: "nat \<Rightarrow> nat \<Rightarrow> nat" where
  "IO_cmd t nr = t * 2 ^ 8 + nr"

definition PCIE_CMD_INIT :: nat where "PCIE_CMD_INIT = IO_cmd (of_char (CHR ''P'')) 1"
definition PCIE_CMD_RESET :: nat where "PCIE_CMD_RESET = IO_cmd (of_char (CHR ''P'')) 2"
definition PCIE_CMD_GET_PTE :: nat where "PCIE_CMD_GET_PTE = IO_cmd (of_char (CHR ''P'')) 3"

definition pcieBase_open :: int where "pcieBase_open = 0"
definition pcieBase_close :: int where "pcieBase_close = 0"

definition pcieBase_ioctl ::
  "(nat \<Rightarrow> nat option) \<Rightarrow> (nat \<Rightarrow> nat option) \<Rightarrow> nat \<Rightarrow> nat \<Rightarrow> 'c pcie \<Rightarrow> (int \<times> 'c pcie) result" where
  "pcieBase_ioctl find_vma pte_offset_map_lock cmd arg s =
     (if cmd = PCIE_CMD_RESET then Inr (0, pcie_mm_reset s)
      else if cmd = PCIE_CMD_GET_PTE
      then rbind (get_vaddr_pte pte_offset_map_lock (find_vma arg) arg) (\<lambda>_. Inr (0, s))
      else Inr (0, s))"

definition pcieBase_mmap :: "nat \<Rightarrow> nat \<Rightarrow> int" where
  "pcieBase_mmap vm_start vm_end = (if ul (vm_end + 2 ^ 64 - vm_start) \<noteq> VIRTUAL_SIZE then - EINVAL else 0)"

section \<open>The character device\<close>

definition pciebase_cdev_init :: "cdev_env \<Rightarrow> PCIeAdapter \<Rightarrow> int \<times> PCIeAdapter" where
  "pciebase_cdev_init e a =
     (if alloc_region_ret e < 0 then (- EFAULT, a)
      else
        let a1 = a\<lparr>region_held := True, major := region_major e\<rparr> in
        if cdev_add_ret e < 0 then (cdev_add_ret e, a1\<lparr>region_held := False\<rparr>)
        else
          let a2 = a1\<lparr>cdev_added := True\<rparr> in
          if \<not> class_create_ok e then (- ENXIO, a2\<lparr>cdev_added := False, region_held := False\<rparr>)
          else
            let a3 = a2\<lparr>class_created := True\<rparr> in
            if \<not> device_create_ok e
            then (- EIO, a3\<lparr>class_created := False, cdev_added := False, region_held := False\<rparr>)
            else (0, a3\<lparr>device_created := True\<rparr>))"

definition pciebase_cdev_clean :: "PCIeAdapter \<Rightarrow> PCIeAdapter" where
  "pciebase_cdev_clean a = a\<lparr>device_created := False, class_created := False, cdev_added := False,
     region_held := False\<rparr>"

section \<open>The swap device\<close>

definition pciebase_swapdev_init :: "cdev_env \<Rightarrow> PCIeAdapter \<Rightarrow> int \<times> PCIeAdapter" where
  "pciebase_swapdev_init e a =
     (let a1 = a\<lparr>swap_device_path := (if rk3588 e then ''/dev/mmcblk0p8'' else ''/dev/vdb''),
                 swap_bdev := (if blkdev_err e < 0 then BdevErr (blkdev_err e) else BdevOpen)\<rparr>
      in case swap_bdev a1 of BdevErr _ \<Rightarrow> (- ENODEV, a1) | _ \<Rightarrow> (0, a1))"

text \<open>The pointer is only compared with NULL; an error pointer is passed on to \<^verbatim>\<open>blkdev_put\<close>.\<close>

definition pciebase_swapdev_clean :: "PCIeAdapter \<Rightarrow> PCIeAdapter result" where
  "pciebase_swapdev_clean a = (case swap_bdev a of
     BdevNull \<Rightarrow> Inr a
   | BdevErr _ \<Rightarrow> Inl BadPointer
   | BdevOpen \<Rightarrow> Inr (a\<lparr>swap_bdev := BdevNull\<rparr>))"

section \<open>The proc entry\<close>

definition proc_pcie_show :: "'c pcie \<Rightarrow> string" where
  "proc_pcie_show s =
     ''total_read: '' @ signed_decimal (sint (total_read s)) @ [newline] @
     ''total_write: '' @ signed_decimal (sint (total_write s)) @ [newline]"

text \<open>Without the directory, the parent pointer is NULL and the entry goes to the root of proc.\<close>

definition proc_pcie_init :: "cdev_env \<Rightarrow> PCIeAdapter \<Rightarrow> int \<times> PCIeAdapter" where
  "proc_pcie_init e a =
     (let a1 = a\<lparr>proc_dir := proc_mkdir_ok e\<rparr>
      in (0, if proc_create_ok e
             then a1\<lparr>proc_entry := Some (if proc_dir a1 then ''pcie_mm/total_swap'' else ''total_swap'')\<rparr> else a1))"

definition proc_pcie_clean :: "PCIeAdapter \<Rightarrow> int \<times> PCIeAdapter" where
  "proc_pcie_clean a =
     (if proc_dir a
      then (0, a\<lparr>proc_dir := False,
              proc_entry := (if proc_entry a = Some ''pcie_mm/total_swap'' then None else proc_entry a)\<rparr>)
      else (- ENOENT, a))"

section \<open>Module entry points\<close>

definition pciebase_init :: "cdev_env \<Rightarrow> 'c pcie_module \<Rightarrow> int \<times> 'c pcie_module" where
  "pciebase_init e m =
     (let m1 = m\<lparr>mm := pcie_mm_reset (mm m)\<rparr>;
          a1 = snd (pciebase_swapdev_init e (adap m1));
          a2 = snd (proc_pcie_init e a1)
      in case pciebase_cdev_init e a2 of (ret, a3) \<Rightarrow> (ret, m1\<lparr>adap := a3\<rparr>))"

definition pciebase_exit :: "'c pcie_module \<Rightarrow> 'c pcie_module result" where
  "pciebase_exit m =
     rbind (pciebase_swapdev_clean (pciebase_cdev_clean (snd (proc_pcie_clean (adap m)))))
       (\<lambda>a. Inr (m\<lparr>adap := a\<rparr>))"

section \<open>Properties\<close>

definition fresh_adapter :: PCIeAdapter where
  "fresh_adapter = \<lparr>region_held = False, cdev_added = False, class_created = False, device_created = False,
     major = 0, swap_bdev = BdevNull, swap_device_path = [], proc_dir = False, proc_entry = None\<rparr>"

definition cdev_up :: "PCIeAdapter \<Rightarrow> bool" where
  "cdev_up a \<longleftrightarrow> region_held a \<and> cdev_added a \<and> class_created a \<and> device_created a"

definition cdev_down :: "PCIeAdapter \<Rightarrow> bool" where
  "cdev_down a \<longleftrightarrow> \<not> region_held a \<and> \<not> cdev_added a \<and> \<not> class_created a \<and> \<not> device_created a"

definition all_released :: "PCIeAdapter \<Rightarrow> bool" where
  "all_released a \<longleftrightarrow> cdev_down a \<and> swap_bdev a = BdevNull \<and> \<not> proc_dir a \<and> proc_entry a = None"

lemmas cdev_defs = pciebase_init_def pciebase_exit_def pciebase_cdev_init_def pciebase_cdev_clean_def
  pciebase_swapdev_init_def pciebase_swapdev_clean_def proc_pcie_init_def proc_pcie_clean_def
  cdev_up_def cdev_down_def all_released_def fresh_adapter_def Let_def

definition good_env :: cdev_env where
  "good_env = \<lparr>alloc_region_ret = 0, region_major = 240, cdev_add_ret = 0, class_create_ok = True,
     device_create_ok = True, blkdev_err = 0, rk3588 = False, proc_mkdir_ok = True, proc_create_ok = True\<rparr>"

definition boot_module :: "nat pcie_module" where
  "boot_module = \<lparr>adap = fresh_adapter, mm = boot_pcie 0\<rparr>"

text \<open>
  Registering the character device is all or nothing: it returns 0 with region, cdev, class and
  device in place, or a negative error number with everything undone, whichever step failed.
\<close>

theorem cdev_init_atomic:
  "(fst (pciebase_cdev_init e fresh_adapter) = 0 \<and> cdev_up (snd (pciebase_cdev_init e fresh_adapter))) \<or>
   (fst (pciebase_cdev_init e fresh_adapter) < 0 \<and> cdev_down (snd (pciebase_cdev_init e fresh_adapter)))"
  by (simp add: cdev_defs errno_defs)

text \<open>
  Loading and unloading the module releases everything, provided that the swap device could be
  opened and the proc directory created.
\<close>

theorem module_round_trip:
  assumes "adap m = fresh_adapter" "fst (pciebase_init e m) = 0" "0 \<le> blkdev_err e" "proc_mkdir_ok e"
  shows "\<exists>m'. pciebase_exit (snd (pciebase_init e m)) = Inr m' \<and> all_released (adap m') \<and>
    mm m' = pcie_mm_reset (mm m)"
  using assms by (simp add: cdev_defs errno_defs split: if_splits)

theorem module_round_trip_witness:
  "\<exists>m'. pciebase_exit (snd (pciebase_init good_env boot_module)) = Inr m' \<and> all_released (adap m') \<and>
    mm m' = pcie_mm_reset (mm boot_module)"
  by (rule module_round_trip) (simp_all add: boot_module_def good_env_def cdev_defs)

text \<open>
  A missing swap device goes unnoticed until the module is removed. Loading the module succeeds
  without it; unloading then releases the error pointer as if it were a block device.
\<close>

theorem swap_missing_crashes:
  assumes "adap m = fresh_adapter" "blkdev_err e < 0" "fst (pciebase_cdev_init e fresh_adapter) = 0"
  shows "fst (pciebase_init e m) = 0 \<and> pciebase_exit (snd (pciebase_init e m)) = Inl BadPointer"
  using assms by (simp add: cdev_defs errno_defs split: if_splits)

theorem swap_missing_crashes_witness:
  "fst (pciebase_init (good_env\<lparr>blkdev_err := -6\<rparr>) boot_module) = 0 \<and>
   pciebase_exit (snd (pciebase_init (good_env\<lparr>blkdev_err := -6\<rparr>) boot_module)) = Inl BadPointer"
  by (rule swap_missing_crashes) (simp_all add: boot_module_def good_env_def cdev_defs)

text \<open>
  A failed load leaks. If the character device cannot be registered, the module is not loaded
  and its exit function never runs, but the swap device stays open and the proc directory exists.
\<close>

theorem failed_load_leaks:
  assumes "adap m = fresh_adapter" "0 \<le> blkdev_err e" "proc_mkdir_ok e" "fst (pciebase_init e m) \<noteq> 0"
  shows "swap_bdev (adap (snd (pciebase_init e m))) = BdevOpen \<and> proc_dir (adap (snd (pciebase_init e m))) \<and>
    cdev_down (adap (snd (pciebase_init e m)))"
  using assms by (simp add: cdev_defs errno_defs split: if_splits)

theorem failed_load_leaks_witness:
  "swap_bdev (adap (snd (pciebase_init (good_env\<lparr>class_create_ok := False\<rparr>) boot_module))) = BdevOpen \<and>
   proc_dir (adap (snd (pciebase_init (good_env\<lparr>class_create_ok := False\<rparr>) boot_module))) \<and>
   cdev_down (adap (snd (pciebase_init (good_env\<lparr>class_create_ok := False\<rparr>) boot_module)))"
  by (rule failed_load_leaks) (simp_all add: boot_module_def good_env_def cdev_defs errno_defs)

text \<open>
  A fault inside an accepted mapping indexes the descriptor table within its bounds: the mapping
  is accepted exactly if it has 32 GB, and then every address of it belongs to one of the 8192 chunks.
\<close>

theorem mmap_bounds:
  assumes "vm_start \<le> vm_end" "vm_end < 2 ^ 64"
  shows "(pcieBase_mmap vm_start vm_end = 0 \<longleftrightarrow> vm_end = vm_start + VIRTUAL_SIZE) \<and>
    (pcieBase_mmap vm_start vm_end = 0 \<longrightarrow> vm_start \<le> address \<longrightarrow> address < vm_end \<longrightarrow>
      ul (address + 2 ^ 64 - vm_start) div MY_PAGE_SIZE < NVPAGES)"
proof -
  have sub: "ul (a + 2 ^ 64 - vm_start) = a - vm_start" if "vm_start \<le> a" "a < 2 ^ 64" for a
  proof -
    have "a + 2 ^ 64 - vm_start = (a - vm_start) + 2 ^ 64" using that by simp
    with that show ?thesis by (simp only: ul_def mod_add_self2) simp
  qed
  have acc: "pcieBase_mmap vm_start vm_end = 0 \<longleftrightarrow> vm_end = vm_start + VIRTUAL_SIZE"
    using sub [OF assms] assms by (auto simp: pcieBase_mmap_def errno_defs)
  moreover have "ul (address + 2 ^ 64 - vm_start) div MY_PAGE_SIZE < NVPAGES"
    if "pcieBase_mmap vm_start vm_end = 0" "vm_start \<le> address" "address < vm_end"
  proof -
    from that acc have "address - vm_start < VIRTUAL_SIZE" by simp
    then have "(address - vm_start) div 4194304 < 8192" by (simp add: pcie_sizes)
    moreover have "ul (address + 2 ^ 64 - vm_start) = address - vm_start" using sub that assms by simp
    ultimately show ?thesis by (simp only: pcie_sizes)
  qed
  ultimately show ?thesis by blast
qed

theorem mmap_bounds_witness:
  "pcieBase_mmap 0x7f0000000000 0x7f0800000000 = 0 \<and>
   ul (0x7f07ffffffff + 2 ^ 64 - 0x7f0000000000) div MY_PAGE_SIZE < NVPAGES"
  using mmap_bounds [of "0x7f0000000000" "0x7f0800000000" "0x7f07ffffffff"] by (simp add: pcie_sizes)

text \<open>
  The ioctl accepts every command. It never reports an error; only the page table query can go
  wrong, and does so with a null pointer for an address above the last mapping of the process.
\<close>

theorem ioctl_total:
  "pcieBase_ioctl find_vma lookup cmd arg s =
     (if cmd = PCIE_CMD_GET_PTE \<and> find_vma arg = None then Inl NullDeref
      else Inr (0, if cmd = PCIE_CMD_RESET then pcie_mm_reset s else s))"
  by (auto simp: pcieBase_ioctl_def get_vaddr_pte_def PCIE_CMD_RESET_def PCIE_CMD_GET_PTE_def IO_cmd_def
      split: option.splits)

end
