(* ===== verification/User_Copy.thy ===== *)
theory User_Copy
  imports Pcie_Paging
begin

text \<open>
  The test program of the PCIe driver (\<^verbatim>\<open>user_copy.c\<close>): reading the size from the command
  line, and the two copy loops over the mapping. The loops walk through the mapping page by page, so
  they enter every chunk at its first page and the guarantees of \<open>Pcie_Paging\<close> apply.
\<close>

section \<open>Reading the size\<close>

text \<open>
  \<^verbatim>\<open>strtol\<close> with base 10: white space, an optional sign, digits; the value is clipped to the
  range of a 64-bit long, with the range error. The second result is the rest of the string; without
  digits it is the whole string.
\<close>

definition is_space :: "char \<Rightarrow> bool" where
  "is_space c \<longleftrightarrow> c = CHR '' '' \<or> (9 \<le> (of_char c :: nat) \<and> (of_char c :: nat) \<le> 13)"

definition is_digit :: "char \<Rightarrow> bool" where
  "is_digit c \<longleftrightarrow> 48 \<le> (of_char c :: nat) \<and> (of_char c :: nat) \<le> 57"

definition strtol10 :: "string \<Rightarrow> int \<times> string \<times> bool" where
  "strtol10 s =
     (let s1 = dropWhile is_space s;
          neg = (s1 \<noteq> [] \<and> hd s1 = CHR ''-'');
          s2 = (if s1 \<noteq> [] \<and> (hd s1 = CHR ''-'' \<or> hd s1 = CHR ''+'') then tl s1 else s1);
          ds = takeWhile is_digit s2;
          v = (if neg then - int (undecimal ds) else int (undecimal ds))
      in if ds = [] then (0, s, False)
         else if v < - (2 ^ 63) then (- (2 ^ 63), dropWhile is_digit s2, True)
         else if 2 ^ 63 \<le> v then (2 ^ 63 - 1, dropWhile is_digit s2, True)
         else (v, dropWhile is_digit s2, False))"

text \<open>The left side is the status the program exits with.\<close>

definition strToLong :: "string \<Rightarrow> int + int" where
  "strToLong str = (case strtol10 str of (num, rest, erange) \<Rightarrow>
     if erange then Inl (- 1)
     else if rest = str then Inl (- 2)
     else if rest \<noteq> [] then Inl (- 3)
     else Inr num)"

text \<open>The first part of \<^verbatim>\<open>main\<close>: the number of bytes to copy.\<close>

definition main_size :: "string list \<Rightarrow> int + nat" where
  "main_size argv =
     (if length argv \<noteq> 2 then Inl 1
      else case strToLong (argv ! 1) of
          Inl code \<Rightarrow> Inl code
        | Inr gb \<Rightarrow> if gb \<le> 0 then Inl 2 else Inr (ul (nat gb * 2 ^ 30)))"

section \<open>The copy loops\<close>

definition BUF_SIZE :: nat where "BUF_SIZE = 4096"

text \<open>One \<^verbatim>\<open>memcpy\<close> of a buffer at an offset of the mapping, block by block.\<close>

definition cell_at :: "nat \<Rightarrow> nat \<Rightarrow> cell" where
  "cell_at off k = (off div BUF_SIZE div PAGES, off div BUF_SIZE mod PAGES, k)"

definition copy_out :: "(nat \<Rightarrow> 'c) \<Rightarrow> nat \<Rightarrow> (cell, 'c) memop list" where
  "copy_out buf off = map (\<lambda>k. Store (cell_at off k) (buf k)) [0..<8]"

definition copy_in :: "nat \<Rightarrow> (cell, 'c) memop list" where
  "copy_in off = map (\<lambda>k. Load (cell_at off k)) [0..<8]"

text \<open>\<^verbatim>\<open>while (total_size != data_size)\<close>, with fuel for the number of rounds.\<close>

fun copy_loop :: "nat \<Rightarrow> (nat \<Rightarrow> (cell, 'c) memop list) \<Rightarrow> nat \<Rightarrow> nat \<Rightarrow> (cell, 'c) memop list result" where
  "copy_loop 0 body off bytes = Inl Diverges"
| "copy_loop (Suc fuel) body off bytes =
     (if off = bytes then Inr []
      else rbind (copy_loop fuel body (ul (off + BUF_SIZE)) bytes) (\<lambda>rest. Inr (body off @ rest)))"

text \<open>The accesses of the program: all of the writing loop, then all of the reading loop.\<close>

definition main_ops :: "nat \<Rightarrow> (nat \<Rightarrow> 'c) \<Rightarrow> nat \<Rightarrow> (cell, 'c) memop list result" where
  "main_ops fuel buf bytes = rbind (copy_loop fuel (copy_out buf) 0 bytes) (\<lambda>ws.
     rbind (copy_loop fuel copy_in 0 bytes) (\<lambda>rs. Inr (ws @ rs)))"

section \<open>The whole program\<close>

text \<open>
  The calls of \<^verbatim>\<open>main\<close> in order; the results of \<^verbatim>\<open>open\<close> and \<^verbatim>\<open>mmap\<close> are not tested by the code. \<open>time k\<close>
  is the answer of the k-th \<^verbatim>\<open>gettimeofday\<close> in seconds and microseconds. A report has the number of gigabytes and the
  microseconds that it prints as seconds.
\<close>

datatype user_call =
    Print_gb string nat
  | Print_addr
  | Print_time string int
  | Report string nat int
  | Open_dev
  | Mmap_dev nat
  | Ioctl_reset
  | Copy_to_map nat
  | Copy_from_map nat
  | Munmap_dev nat
  | Close_dev

definition micros :: "(nat \<Rightarrow> int \<times> int) \<Rightarrow> nat \<Rightarrow> int" where
  "micros time k = fst (time k) * 1000000 + snd (time k)"

definition user_main :: "(nat \<Rightarrow> int \<times> int) \<Rightarrow> string list \<Rightarrow> int \<times> user_call list" where
  "user_main time argv = (case main_size argv of
     Inl code \<Rightarrow> (code, [])
   | Inr data_size \<Rightarrow>
       let mmap_size = 32 * 2 ^ 30; gb = data_size div 2 ^ 30 in
       (0, [Print_gb ''mmap_size'' (mmap_size div 2 ^ 30), Print_gb ''data_size'' gb, Open_dev, Mmap_dev mmap_size, Print_addr,
            Ioctl_reset, Print_time ''before_w'' (micros time 0), Copy_to_map data_size, Print_time ''after_w'' (micros time 1),
            Print_time ''before_r'' (micros time 2), Copy_from_map data_size, Print_time ''after_r'' (micros time 3),
            Report ''write'' gb (micros time 1 - micros time 0), Report ''read'' gb (micros time 3 - micros time 2),
            Munmap_dev mmap_size, Close_dev]))"

section \<open>Lemmas\<close>

lemma main_size_cases:
  assumes "main_size argv = Inr bytes"
  shows "bytes mod BUF_SIZE = 0 \<and> bytes < 2 ^ 64"
proof -
  obtain gb where "bytes = ul (nat gb * 2 ^ 30)"
    using assms by (auto simp: main_size_def split: if_splits sum.splits)
  moreover have "ul (nat gb * 2 ^ 30) mod 4096 = (nat gb * 2 ^ 30) mod 4096"
    by (simp add: ul_def mod_mod_cancel)
  moreover have "(nat gb * 2 ^ 30) mod 4096 = 0" by (simp add: mod_mult_right_eq [symmetric])
  ultimately show ?thesis by (simp add: BUF_SIZE_def ul_def)
qed

lemma copy_loop_ends:
  assumes "bytes < 2 ^ 64" "BUF_SIZE * k + BUF_SIZE * m = bytes"
  shows "m < fuel \<Longrightarrow> copy_loop fuel body (BUF_SIZE * k) bytes
    = Inr (concat (map (\<lambda>r. body (BUF_SIZE * r)) [k..<k + m]))"
  using assms(2)
proof (induction m arbitrary: k fuel)
  case 0
  then show ?case by (cases fuel) simp_all
next
  case (Suc m)
  then obtain f where f: "fuel = Suc f" by (cases fuel) simp_all
  have pos: "0 < BUF_SIZE" by (simp add: BUF_SIZE_def)
  with Suc.prems have "BUF_SIZE * k \<noteq> bytes" by auto
  moreover have "BUF_SIZE * Suc k \<le> bytes" using Suc.prems by simp
  then have "ul (BUF_SIZE * k + BUF_SIZE) = BUF_SIZE * Suc k" using assms(1) by simp
  ultimately show ?case
    using Suc.IH [of f "Suc k"] Suc.prems f by (simp del: upt_Suc add: upt_conv_Cons)
qed

text \<open>The addresses of a run, and what it means that each may follow the one before.\<close>

fun addr_chain :: "('a option \<Rightarrow> 'a \<Rightarrow> bool) \<Rightarrow> 'a option \<Rightarrow> 'a list \<Rightarrow> bool" where
  "addr_chain F p [] \<longleftrightarrow> True"
| "addr_chain F p (a # as) \<longleftrightarrow> F p a \<and> addr_chain F (Some a) as"

lemma chained_addr: "chained F p qs \<longleftrightarrow> addr_chain F p (map op_addr qs)"
  by (induction qs arbitrary: p) simp_all

lemma addr_chain_append:
  "addr_chain F p (xs @ ys) \<longleftrightarrow> addr_chain F p xs \<and> addr_chain F (if xs = [] then p else Some (last xs)) ys"
  by (induction xs arbitrary: p) simp_all

definition page_cells :: "nat \<Rightarrow> cell list" where
  "page_cells r = map (\<lambda>k. (r div PAGES, r mod PAGES, k)) [0..<8]"

lemma page_cells_eq: "page_cells r = (r div PAGES, r mod PAGES, 0) # map (\<lambda>k. (r div PAGES, r mod PAGES, k)) [1, 2, 3, 4, 5, 6, 7]"
  by (simp add: page_cells_def upt_rec)

lemma page_cells_last: "page_cells r \<noteq> []" "last (page_cells r) = (r div PAGES, r mod PAGES, 7)"
  by (simp_all add: page_cells_eq)

lemma copy_bodies:
  "copy_out buf (BUF_SIZE * r) = map (\<lambda>a. Store a (buf (snd (snd a)))) (page_cells r)"
  "copy_in (BUF_SIZE * r) = map Load (page_cells r)"
  by (simp_all add: copy_out_def copy_in_def cell_at_def page_cells_def BUF_SIZE_def)

lemma page_chain:
  assumes "r < NVPAGES * PAGES" "r mod PAGES = 0 \<or> (\<exists>n k. p = Some (r div PAGES, n, k))"
  shows "addr_chain enters p (page_cells r)"
proof -
  have "r div PAGES < NVPAGES" "r mod PAGES < PAGES"
    using assms(1) by (simp_all add: pcie_sizes)
  with assms(2) show ?thesis by (auto simp: page_cells_eq)
qed

lemma Suc_chunk: "Suc r mod PAGES = 0 \<or> Suc r div PAGES = r div PAGES"
  by (simp add: pcie_sizes mod_Suc div_Suc)

lemma walk_chain:
  "k + m \<le> NVPAGES * PAGES \<Longrightarrow> k mod PAGES = 0 \<or> (\<exists>n k'. p = Some (k div PAGES, n, k')) \<Longrightarrow>
     addr_chain enters p (concat (map page_cells [k..<k + m]))"
proof (induction m arbitrary: k p)
  case (Suc m)
  have "addr_chain enters (Some (k div PAGES, k mod PAGES, 7)) (concat (map page_cells [Suc k..<Suc k + m]))"
    using Suc.prems Suc_chunk [of k] by (intro Suc.IH) auto
  moreover have "addr_chain enters p (page_cells k)" using Suc.prems by (intro page_chain) auto
  moreover have "[k..<k + Suc m] = k # [Suc k..<Suc k + m]" by (simp add: upt_conv_Cons)
  ultimately show ?case by (simp only: list.map concat.simps addr_chain_append page_cells_last if_False)
qed simp

text \<open>What a flat memory returns to a program that writes some cells and then reads them.\<close>

lemma flat_writes:
  "flat_ok m (map (\<lambda>a. Store a (g a)) as @ qs) outs \<Longrightarrow>
     \<exists>outs'. outs = replicate (length as) None @ outs' \<and>
       flat_ok (\<lambda>a. if a \<in> set as then Some (g a) else m a) qs outs'"
proof (induction as arbitrary: m outs)
  case (Cons a as)
  then obtain outs0 where o: "outs = None # outs0" "flat_ok (m(a := Some (g a))) (map (\<lambda>a. Store a (g a)) as @ qs) outs0"
    by (cases outs; cases "hd outs") auto
  from Cons.IH [OF o(2)] obtain outs' where "outs0 = replicate (length as) None @ outs'"
    "flat_ok (\<lambda>b. if b \<in> set as then Some (g b) else (m(a := Some (g a))) b) qs outs'" by blast
  moreover have "(\<lambda>b. if b \<in> set as then Some (g b) else (m(a := Some (g a))) b)
      = (\<lambda>b. if b \<in> set (a # as) then Some (g b) else m b)" by auto
  ultimately show ?case using o(1) by auto
qed simp

lemma flat_reads:
  "flat_ok m (map Load as) outs \<Longrightarrow> \<forall>a\<in>set as. m a = Some (g a) \<Longrightarrow> outs = map (\<lambda>a. Some (g a)) as"
proof (induction as arbitrary: outs m)
  case Nil
  then show ?case by (cases outs) simp_all
next
  case (Cons a as)
  then obtain c outs0 where o: "outs = Some c # outs0" "c = g a" "flat_ok (m(a := Some c)) (map Load as) outs0"
    by (cases outs; cases "hd outs") auto
  with Cons.prems have "m(a := Some c) = m" by auto
  with Cons o show ?case by auto
qed

lemma main_ops_eq:
  assumes "BUF_SIZE * m < 2 ^ 64" "m < fuel"
  shows "main_ops fuel buf (BUF_SIZE * m) =
    Inr (map (\<lambda>a. Store a (buf (snd (snd a)))) (concat (map page_cells [0..<m])) @
         map Load (concat (map page_cells [0..<m])))"
  using copy_loop_ends [OF assms(1), of 0 m fuel "copy_out buf"] copy_loop_ends [OF assms(1), of 0 m fuel copy_in]
    assms(2)
  by (simp add: main_ops_def copy_bodies map_concat comp_def)

lemma length_page_cells: "length (concat (map page_cells [0..<m])) = 8 * m"
  by (simp add: length_concat comp_def page_cells_def sum_list_triv)

lemma decimal_digits: "\<forall>c\<in>set (decimal n). is_digit c"
proof
  show "is_digit c" if "c \<in> set (decimal n)" for c
    using decimal_range [OF that] by (simp add: is_digit_def)
qed

lemma strtol_decimal:
  assumes "n < 2 ^ 63"
  shows "strtol10 (decimal n) = (int n, [], False)"
proof -
  have neq: "\<not> is_space c" "c \<noteq> CHR ''-''" "c \<noteq> CHR ''+''" if "is_digit c" for c
    using that by (auto simp: is_digit_def is_space_def)
  have hd: "is_digit (hd (decimal n))" using decimal_digits [of n] by simp
  have "dropWhile is_space (decimal n) = decimal n"
    using neq(1) [OF hd] decimal_not_Nil(1) [of n] by (cases "decimal n") simp_all
  moreover have tw: "takeWhile is_digit (decimal n) = decimal n" "dropWhile is_digit (decimal n) = []"
    using decimal_digits [of n] by simp_all
  ultimately show ?thesis
    using assms neq(2,3) [OF hd] decimal_not_Nil(1) [of n] by (simp add: strtol10_def Let_def tw(1))
qed

section \<open>Properties\<close>

text \<open>
  C7: The program reads back what it wrote. For every accepted size up to 32 GB both loops end, no
  access faults, and the reading loop returns the contents of the buffer for every page, whichever
  chunks were written to the swap device in between.
\<close>

theorem user_copy_round_trip:
  assumes "main_size argv = Inr bytes" "bytes \<le> VIRTUAL_SIZE" "bytes div BUF_SIZE < fuel"
    and "mm_ok K" "io_ok K" "vma_ok vs" "arrays_ok s" "unmapped vs s"
  shows "\<exists>ops rs t. main_ops fuel buf bytes = Inr ops \<and>
    mem_run (user_load K vs) (user_store K vs) (pcie_mm_reset s) ops = Inr (rs, t) \<and>
    rs = replicate (8 * (bytes div BUF_SIZE)) None @
      map (\<lambda>a. Some (buf (snd (snd a)))) (concat (map page_cells [0..<bytes div BUF_SIZE]))"
proof -
  define m where "m = bytes div BUF_SIZE"
  define as where "as = concat (map page_cells [0..<m])"
  have b: "bytes = BUF_SIZE * m" "BUF_SIZE * m < 2 ^ 64"
    using main_size_cases [OF assms(1)] by (auto simp: m_def)
  let ?ws = "map (\<lambda>a. Store a (buf (snd (snd a)))) as" and ?rs = "map Load as :: (cell, 'a) memop list"
  have ops: "main_ops fuel buf bytes = Inr (?ws @ ?rs)"
    using main_ops_eq [OF b(2), of fuel buf] assms(3) by (simp add: b(1) as_def BUF_SIZE_def)
  have "m \<le> NVPAGES * PAGES" using assms(2) b(1) by (simp add: pcie_sizes BUF_SIZE_def)
  then have "addr_chain enters p as" for p
    using walk_chain [of 0 m p] by (simp add: as_def)
  then have chain: "chained enters None (?ws @ ?rs)"
    by (simp add: chained_addr addr_chain_append comp_def)
  have inv: "data_inv K vs None (pcie_mm_reset s)"
    using reset_map_inv [OF assms(4,6,7,8)] assms(5) by (simp add: data_inv_def)
  obtain rs t where run: "mem_run (user_load K vs) (user_store K vs) (pcie_mm_reset s) (?ws @ ?rs) = Inr (rs, t)"
    using data.run_safe [OF inv chain] by blast
  from data.run_flat [OF inv chain run, of "\<lambda>_. None"] have "flat_ok (\<lambda>_. None) (?ws @ ?rs) rs"
    by (simp add: map_le_def)
  from flat_writes [OF this] obtain outs where o: "rs = replicate (length as) None @ outs"
    "flat_ok (\<lambda>a. if a \<in> set as then Some (buf (snd (snd a))) else None) ?rs outs" by blast
  from flat_reads [OF o(2), of "\<lambda>a. buf (snd (snd a))"] have "outs = map (\<lambda>a. Some (buf (snd (snd a)))) as"
    by simp
  with ops run o(1) show ?thesis by (auto simp: as_def length_page_cells m_def)
qed

lemma demo_size: "main_size [''user_copy'', decimal 9] = Inr 9663676416"
  by (simp add: main_size_def strToLong_def strtol_decimal)

theorem user_copy_round_trip_witness:
  "\<exists>ops rs t. main_ops 3000000 (\<lambda>k. k + 1) 9663676416 = Inr ops \<and>
    mem_run (user_load (plain_kernel True) 0x7f0000000000) (user_store (plain_kernel True) 0x7f0000000000)
      (pcie_mm_reset (boot_pcie 0)) ops = Inr (rs, t) \<and>
    rs = replicate (8 * (9663676416 div BUF_SIZE)) None @
      map (\<lambda>a. Some (snd (snd a) + 1)) (concat (map page_cells [0..<9663676416 div BUF_SIZE]))"
  by (rule user_copy_round_trip [OF demo_size _ _ plain_mm plain_io demo_vma boot_ok])
     (simp_all add: pcie_sizes BUF_SIZE_def)

text \<open>
  C39: The size is not compared with the mapping. For an accepted size beyond 32 GB the program still ends its loops, but they
  leave the 32 GB that it has mapped: the writing loop reaches the first address behind the mapping.
\<close>

theorem copy_leaves_mapping:
  assumes "main_size argv = Inr bytes" "VIRTUAL_SIZE < bytes" "bytes div BUF_SIZE < fuel"
  shows "Mmap_dev VIRTUAL_SIZE \<in> set (snd (user_main time argv)) \<and> Copy_to_map bytes \<in> set (snd (user_main time argv)) \<and>
    (\<exists>ops. main_ops fuel buf bytes = Inr ops \<and> Store (cell_at VIRTUAL_SIZE 0) (buf 0) \<in> set ops \<and> \<not> fst (cell_at VIRTUAL_SIZE 0) < NVPAGES)"
proof -
  define m where "m = bytes div BUF_SIZE"
  let ?as = "concat (map page_cells [0..<m])"
  have b: "bytes = BUF_SIZE * m" "BUF_SIZE * m < 2 ^ 64" using main_size_cases [OF assms(1)] by (auto simp: m_def)
  have ops: "main_ops fuel buf bytes = Inr (map (\<lambda>a. Store a (buf (snd (snd a)))) ?as @ map Load ?as)"
    using main_ops_eq [OF b(2), of fuel buf] assms(3) by (simp add: b(1) BUF_SIZE_def)
  have "NVPAGES * PAGES < m" using assms(2) b(1) by (simp add: pcie_sizes BUF_SIZE_def)
  moreover have "cell_at VIRTUAL_SIZE 0 \<in> set (page_cells (NVPAGES * PAGES))"
    by (simp add: page_cells_eq cell_at_def pcie_sizes BUF_SIZE_def)
  ultimately have "cell_at VIRTUAL_SIZE 0 \<in> set ?as" by (auto simp: atLeast0LessThan)
  then have "Store (cell_at VIRTUAL_SIZE 0) (buf (snd (snd (cell_at VIRTUAL_SIZE 0)))) \<in> set (map (\<lambda>a. Store a (buf (snd (snd a)))) ?as)"
    unfolding set_map by (rule imageI)
  moreover have "snd (snd (cell_at VIRTUAL_SIZE 0)) = 0" by (simp add: cell_at_def)
  moreover have "\<not> fst (cell_at VIRTUAL_SIZE 0) < NVPAGES" by (simp add: cell_at_def pcie_sizes BUF_SIZE_def)
  moreover have "Mmap_dev VIRTUAL_SIZE \<in> set (snd (user_main time argv))" "Copy_to_map bytes \<in> set (snd (user_main time argv))"
    using assms(1) by (simp_all add: user_main_def Let_def pcie_sizes)
  ultimately show ?thesis using ops by auto
qed

theorem copy_leaves_mapping_witness:
  "main_size [''user_copy'', decimal 33] = Inr (33 * 2 ^ 30) \<and>
    (\<exists>ops. main_ops 10000000 (\<lambda>k. k + 1) (33 * 2 ^ 30) = Inr ops \<and> Store (cell_at VIRTUAL_SIZE 0) (1 :: nat) \<in> set ops)"
proof -
  have s: "main_size [''user_copy'', decimal 33] = Inr (33 * 2 ^ 30)"
    by (simp add: main_size_def strToLong_def strtol_decimal)
  have "VIRTUAL_SIZE < 33 * 2 ^ 30" "33 * 2 ^ 30 div BUF_SIZE < (10000000 :: nat)" by (simp_all add: pcie_sizes BUF_SIZE_def)
  from copy_leaves_mapping [OF s this, of "\<lambda>_. (0, 0)" "\<lambda>k. k + 1"] s show ?thesis by auto
qed

text \<open>
  What the program accepts on its command line: exactly one argument that is a decimal number
  greater than zero, with nothing behind the digits; every other command line ends with one of the
  five exit codes. The size it then copies is a whole number of buffers, so the loops, which stop
  only on equality, end; but above 32 GB they would leave the mapping.
\<close>

theorem main_size_spec:
  "case main_size argv of
     Inl code \<Rightarrow> code \<in> {1, 2, -1, -2, -3}
   | Inr bytes \<Rightarrow> length argv = 2 \<and> bytes mod BUF_SIZE = 0 \<and>
       (\<exists>gb > 0. strToLong (argv ! 1) = Inr gb \<and> bytes = ul (nat gb * 2 ^ 30))"
proof (cases "main_size argv")
  case (Inl code)
  then show ?thesis
    by (auto simp: main_size_def strToLong_def split: if_splits sum.splits prod.splits)
next
  case (Inr bytes)
  then show ?thesis using main_size_cases [OF Inr]
    by (auto simp: main_size_def not_le split: if_splits sum.splits)
qed

text \<open>
  The size argument round-trips: the decimal form of a number of gigabytes is read back as that
  number of gigabytes.
\<close>

theorem main_size_decimal:
  assumes "0 < gb" "gb < 2 ^ 34"
  shows "main_size [prog, decimal gb] = Inr (gb * 2 ^ 30)"
  using assms decimal_not_Nil(1) [of gb] by (simp add: main_size_def strToLong_def strtol_decimal)

theorem main_size_decimal_witness:
  "main_size [''user_copy'', decimal 20] = Inr (20 * 2 ^ 30)"
  by (rule main_size_decimal) simp_all

end
