(* ===== verification/Fan_Trans.thy ===== *)
theory Fan_Trans
  imports Kernel_Prelude
begin

unbundle bit_operations_syntax

text \<open>
  The fan driver's transports (\<^verbatim>\<open>virt_fan.h\<close>, \<^verbatim>\<open>virt_trans.c\<close>,
  \<^verbatim>\<open>fan_trans.c\<close>) and the retry loops on top of them (\<^verbatim>\<open>fan_read\<close> and
  \<^verbatim>\<open>fan_write\<close> of \<^verbatim>\<open>virt_fan.c\<close>). The two transports implement the same two
  functions and are alternatives at build time: one serves the values from the driver's own buffer,
  the other talks to a controller on an I2C bus. Their common contract is the locale
  \<open>fan_transport\<close>.
\<close>

section \<open>Constants and data\<close>

definition FAN_FAIL_MAX_RETRY :: nat where "FAN_FAIL_MAX_RETRY = 50"
definition FAN_CMD_SET_PWM :: u32 where "FAN_CMD_SET_PWM = 0x180010"
definition FAN_CMD_GET_PWM :: u32 where "FAN_CMD_GET_PWM = 0x180011"
definition FAN_CMD_GET_RPM :: u32 where "FAN_CMD_GET_RPM = 0x18000D"
definition FAN_REG_SEND :: u8 where "FAN_REG_SEND = 0x20"
definition FAN_REG_RECV :: u8 where "FAN_REG_RECV = 0x21"
definition FAN_REG_SET_PWM :: u8 where "FAN_REG_SET_PWM = 0x22"
definition FAN_SEND_COMMAND_SIZE :: nat where "FAN_SEND_COMMAND_SIZE = 7"
definition FAN_SEND_PEC_SIZE :: nat where "FAN_SEND_PEC_SIZE = 7"
definition FAN_RECV_CONTROL_AND_PEC_SIZE :: nat where "FAN_RECV_CONTROL_AND_PEC_SIZE = 3"
definition FAN_RECV_PEC_EXCEPT_CONTENT_SIZE :: nat where "FAN_RECV_PEC_EXCEPT_CONTENT_SIZE = 6"
definition FAN_RECV_CONTROL_NUM_OFFSET :: nat where "FAN_RECV_CONTROL_NUM_OFFSET = 3"
definition FAN_RECV_CONTENT_OFFSET :: nat where "FAN_RECV_CONTENT_OFFSET = 5"
definition BUFFER_SIZE :: nat where "BUFFER_SIZE = 64"
definition FAN_MAX_NUM :: nat where "FAN_MAX_NUM = 16"
definition FAN_ITEM_NUM :: nat where "FAN_ITEM_NUM = 3"
definition FAN_MAX_RPM :: nat where "FAN_MAX_RPM = 5000"

lemmas fan_sizes = FAN_FAIL_MAX_RETRY_def FAN_SEND_COMMAND_SIZE_def FAN_SEND_PEC_SIZE_def
  FAN_RECV_CONTROL_AND_PEC_SIZE_def FAN_RECV_PEC_EXCEPT_CONTENT_SIZE_def FAN_RECV_CONTROL_NUM_OFFSET_def
  FAN_RECV_CONTENT_OFFSET_def BUFFER_SIZE_def FAN_MAX_NUM_def FAN_ITEM_NUM_def FAN_MAX_RPM_def
lemmas fan_cmds = FAN_CMD_SET_PWM_def FAN_CMD_GET_PWM_def FAN_CMD_GET_RPM_def

text \<open>The device data, with the state of the bus and a count of the transfers and delays.\<close>

record 'b fan_data =
  pwm :: "u8 list"
  pwm_enabled :: "u8 list"
  bus :: 'b
  attempts :: nat
  delays :: nat

definition fan_arrays :: "'b fan_data \<Rightarrow> bool" where
  "fan_arrays d \<longleftrightarrow> length (pwm d) = FAN_MAX_NUM \<and> length (pwm_enabled d) = FAN_MAX_NUM"

text \<open>\<^verbatim>\<open>data->pwm[nr-1]\<close>, for a fan number that is an int.\<close>

definition pwm_at :: "int \<Rightarrow> 'b fan_data \<Rightarrow> u8 result" where
  "pwm_at nr d = (if 1 \<le> nr \<and> nr \<le> int (length (pwm d)) then Inr (pwm d ! nat (nr - 1)) else Inl OutOfBounds)"

type_synonym 'b fan_op = "'b fan_data \<Rightarrow> (int \<times> u8 list \<times> 'b fan_data) result"

section \<open>The virtual transport\<close>

text \<open>\<open>rbuf\<close> is the caller's buffer before the call; a u16 is stored with the low byte first.\<close>

definition virt_fan_read :: "u32 \<Rightarrow> int \<Rightarrow> u8 list \<Rightarrow> 'b fan_op" where
  "virt_fan_read command nr rbuf d =
     (if command = FAN_CMD_GET_PWM then rbind (pwm_at nr d) (\<lambda>v.
        if length rbuf < 1 then Inl OutOfBounds else Inr (0, rbuf[0 := v], d))
      else if command = FAN_CMD_GET_RPM then rbind (pwm_at nr d) (\<lambda>v.
        let rpm = of_nat (unat v * FAN_MAX_RPM div 255) :: u16 in
        if length rbuf < 2 then Inl OutOfBounds
        else Inr (0, rbuf[0 := ucast (rpm AND 0xFF), 1 := ucast (drop_bit 8 rpm)], d))
      else Inr (0, rbuf, d))"

definition virt_fan_write :: "u32 \<Rightarrow> int \<Rightarrow> u8 list \<Rightarrow> 'b fan_op" where
  "virt_fan_write command nr wbuf d = Inr (0, wbuf, d)"

section \<open>The I2C transport\<close>

text \<open>
  The bus functions of the kernel, the packet error code, the client's address and flags, and what
  happens to be on the stack where the buffer lives.
\<close>

record 'b i2c_ops =
  i2c_addr :: u16
  i2c_master_send :: "u8 list \<Rightarrow> 'b \<Rightarrow> int \<times> 'b"
  i2c_transfer :: "u8 list \<Rightarrow> nat \<Rightarrow> 'b \<Rightarrow> int \<times> u8 list \<times> 'b"
  i2c_smbus_pec :: "u8 \<Rightarrow> u8 list \<Rightarrow> u8"
  stack :: "u8 list"

definition overlay :: "nat \<Rightarrow> 'a list \<Rightarrow> 'a list \<Rightarrow> 'a list" where
  "overlay k xs ys = take k ys @ xs @ drop (k + length xs) ys"

definition addr_byte :: "'b i2c_ops \<Rightarrow> u8" where
  "addr_byte I = ucast (push_bit 1 (i2c_addr I))"

definition cmd_bytes :: "u32 \<Rightarrow> int \<Rightarrow> u8 list" where
  "cmd_bytes command nr = [ucast (drop_bit 16 command AND 0xFF), ucast (drop_bit 8 command AND 0xFF),
     ucast (command AND 0xFF), of_int nr]"

definition i2c_fan_read :: "'b i2c_ops \<Rightarrow> u32 \<Rightarrow> int \<Rightarrow> u8 list \<Rightarrow> 'b fan_op" where
  "i2c_fan_read I command nr rbuf d =
     (let rlen = length rbuf;
          b1 = overlay 0 ([addr_byte I, FAN_REG_SEND, 0x04] @ cmd_bytes command nr) (stack I);
          b2 = b1[FAN_SEND_PEC_SIZE := i2c_smbus_pec I 0 (take FAN_SEND_PEC_SIZE b1)]
      in case i2c_master_send I (take FAN_SEND_COMMAND_SIZE (drop 1 b2)) (bus d) of (ret, w1) \<Rightarrow>
        if ret \<noteq> int FAN_SEND_COMMAND_SIZE then Inr (- EIO, rbuf, d\<lparr>bus := w1, attempts := attempts d + 1\<rparr>)
        else
          let b3 = b2[1 := FAN_REG_RECV, 2 := addr_byte I OR 1];
              n = rlen + FAN_RECV_CONTROL_AND_PEC_SIZE
          in if BUFFER_SIZE < FAN_RECV_CONTROL_NUM_OFFSET + n then Inl OutOfBounds
          else case i2c_transfer I [b3 ! 1] n w1 of (ret, rx, w2) \<Rightarrow>
            let d2 = d\<lparr>bus := w2, attempts := attempts d + 1\<rparr>;
                b4 = overlay FAN_RECV_CONTROL_NUM_OFFSET (take n rx) b3
            in if ret \<noteq> 2 then Inr (- EIO, rbuf, d2)
            else if unat (b4 ! FAN_RECV_CONTROL_NUM_OFFSET) \<noteq> rlen + 1 then Inr (- EIO, rbuf, d2)
            else if i2c_smbus_pec I 0 (take (rlen + FAN_RECV_PEC_EXCEPT_CONTENT_SIZE) b4) \<noteq> 0
            then Inr (- EIO, rbuf, d2)
            else Inr (0, take rlen (drop FAN_RECV_CONTENT_OFFSET b4), d2))"

definition i2c_fan_write :: "'b i2c_ops \<Rightarrow> u32 \<Rightarrow> int \<Rightarrow> u8 list \<Rightarrow> 'b fan_op" where
  "i2c_fan_write I command nr wbuf d =
     (let wlen = length wbuf in
      if BUFFER_SIZE \<le> FAN_SEND_PEC_SIZE + wlen then Inl OutOfBounds
      else
        let b1 = overlay 0 ([addr_byte I, FAN_REG_SET_PWM, 0x05] @ cmd_bytes command nr) (stack I);
            b2 = overlay FAN_SEND_PEC_SIZE wbuf b1;
            b3 = b2[FAN_SEND_PEC_SIZE + wlen := i2c_smbus_pec I 0 (take (FAN_SEND_PEC_SIZE + wlen) b2)]
        in case i2c_master_send I (take (FAN_SEND_COMMAND_SIZE + wlen) (drop 1 b3)) (bus d) of (ret, w1) \<Rightarrow>
          let d1 = d\<lparr>bus := w1, attempts := attempts d + 1\<rparr>
          in if ret \<noteq> int (FAN_SEND_COMMAND_SIZE + wlen) then Inr (- EIO, wbuf, d1) else Inr (ret, wbuf, d1))"

section \<open>Retries\<close>

text \<open>
  The loop \<^verbatim>\<open>for (i = 0; i < FAN_FAIL_MAX_RETRY; i++)\<close>; \<open>n\<close> is the number of rounds that
  are left after this one. The buffer carries over from one attempt to the next.
\<close>

fun retry :: "nat \<Rightarrow> (u8 list \<Rightarrow> 'b fan_op) \<Rightarrow> u8 list \<Rightarrow> 'b fan_op" where
  "retry n f buf d = rbind (f buf d) (\<lambda>(ret, buf1, d1).
     if ret = 0 then Inr (ret, buf1, d1)
     else let d2 = d1\<lparr>delays := delays d1 + 1\<rparr> in
       (case n of 0 \<Rightarrow> Inr (ret, buf1, d2) | Suc m \<Rightarrow> retry m f buf1 d2))"

declare retry.simps [simp del]

definition fan_read ::
  "(u32 \<Rightarrow> int \<Rightarrow> u8 list \<Rightarrow> 'b fan_op) \<Rightarrow> u32 \<Rightarrow> int \<Rightarrow> u8 list \<Rightarrow> 'b fan_op" where
  "fan_read rd command nr rbuf = retry (FAN_FAIL_MAX_RETRY - 1) (rd command nr) rbuf"

definition fan_write ::
  "(u32 \<Rightarrow> int \<Rightarrow> u8 list \<Rightarrow> 'b fan_op) \<Rightarrow> u32 \<Rightarrow> int \<Rightarrow> u8 list \<Rightarrow> 'b fan_op" where
  "fan_write wr command nr wbuf = retry (FAN_FAIL_MAX_RETRY - 1) (wr command nr) wbuf"

section \<open>The retry loop\<close>

text \<open>
  \<open>retry\<close> ends with a value when its body does, after at most one attempt and one delay per round;
  a zero comes from the last attempt, any other result means that every round was used up.
\<close>

lemma retry_inv:
  assumes body: "\<And>b d. I b d \<Longrightarrow> \<exists>r b' d'. f b d = Inr (r, b', d') \<and> I b' d' \<and> delays d' = delays d \<and> attempts d' \<le> attempts d + 1"
    and delay: "\<And>b d. I b d \<Longrightarrow> I b (d\<lparr>delays := delays d + 1\<rparr>)"
  shows "I b d \<Longrightarrow> \<exists>r b' d'. retry n f b d = Inr (r, b', d') \<and> I b' d' \<and> attempts d' \<le> attempts d + n + 1 \<and>
    (r = 0 \<longrightarrow> delays d' \<le> delays d + n) \<and> (r \<noteq> 0 \<longrightarrow> delays d' = delays d + n + 1)"
proof (induction n arbitrary: b d)
  case 0
  then obtain r b' d' where r: "f b d = Inr (r, b', d')" "I b' d'" "delays d' = delays d" "attempts d' \<le> attempts d + 1"
    using body [of b d] by blast
  then show ?case using delay [of b' d'] by (simp add: retry.simps [of 0])
next
  case (Suc n)
  then obtain r b1 d1 where r: "f b d = Inr (r, b1, d1)" "I b1 d1" "delays d1 = delays d" "attempts d1 \<le> attempts d + 1"
    using body [of b d] by blast
  show ?case
  proof (cases "r = 0")
    case True
    with r show ?thesis by (simp add: retry.simps [of "Suc n"])
  next
    case False
    obtain r' b' d' where r': "retry n f b1 (d1\<lparr>delays := delays d1 + 1\<rparr>) = Inr (r', b', d')" "I b' d'"
      "attempts d' \<le> attempts d1 + n + 1"
      "(r' = 0 \<longrightarrow> delays d' \<le> delays d + 1 + n) \<and> (r' \<noteq> 0 \<longrightarrow> delays d' = delays d + 1 + n + 1)"
      using Suc.IH [OF delay [OF r(2)]] r(3) by auto
    with False r show ?thesis by (auto simp: retry.simps [of "Suc n"])
  qed
qed

lemma retry_first: "f b d = Inr (0, b', d') \<Longrightarrow> retry n f b d = Inr (0, b', d')"
  by (simp add: retry.simps)

lemma retry_result:
  assumes "\<And>d. \<exists>r b' d'. f b d = Inr (r, b', d') \<and> Q r b' \<and> attempts d' \<le> attempts d + 1"
    and "\<And>r b'. Q r b' \<Longrightarrow> r \<noteq> 0 \<Longrightarrow> b' = b"
  shows "\<exists>r b' d'. retry n f b d = Inr (r, b', d') \<and> Q r b' \<and> attempts d' \<le> attempts d + n + 1"
proof (induction n arbitrary: d)
  case 0
  obtain r b' d' where "f b d = Inr (r, b', d')" "Q r b'" "attempts d' \<le> attempts d + 1" using assms(1) by blast
  then show ?case by (cases "r = 0") (simp_all add: retry.simps [of 0])
next
  case (Suc n)
  obtain r b1 d1 where r: "f b d = Inr (r, b1, d1)" "Q r b1" "attempts d1 \<le> attempts d + 1" using assms(1) by blast
  show ?case
  proof (cases "r = 0")
    case True
    with r show ?thesis by (simp add: retry.simps [of "Suc n"])
  next
    case False
    then have "b1 = b" using assms(2) r(2) by blast
    moreover obtain r' b' d' where "retry n f b (d1\<lparr>delays := delays d1 + 1\<rparr>) = Inr (r', b', d')" "Q r' b'"
      "attempts d' \<le> attempts d1 + n + 1"
      using Suc.IH [of "d1\<lparr>delays := delays d1 + 1\<rparr>"] by auto
    ultimately show ?thesis using False r by (simp add: retry.simps [of "Suc n"])
  qed
qed

text \<open>A body that never answers zero is run in every round.\<close>

lemma retry_exhausts:
  assumes "\<And>d. \<exists>d'. f b d = Inr (r, b, d') \<and> attempts d' = attempts d + 1" "r \<noteq> 0"
  shows "\<exists>d'. retry n f b d = Inr (r, b, d') \<and> attempts d' = attempts d + n + 1"
proof (induction n arbitrary: d)
  case 0
  obtain d1 where "f b d = Inr (r, b, d1)" "attempts d1 = attempts d + 1" using assms(1) by blast
  with assms(2) show ?case
    by (intro exI [of _ "d1\<lparr>delays := delays d1 + 1\<rparr>"]) (simp add: retry.simps [of 0])
next
  case (Suc n)
  obtain d1 where d1: "f b d = Inr (r, b, d1)" "attempts d1 = attempts d + 1" using assms(1) by blast
  obtain d' where "retry n f b (d1\<lparr>delays := delays d1 + 1\<rparr>) = Inr (r, b, d')" "attempts d' = attempts d1 + n + 1"
    using Suc.IH [of "d1\<lparr>delays := delays d1 + 1\<rparr>"] by auto
  with d1 assms(2) show ?case by (simp add: retry.simps [of "Suc n"])
qed

section \<open>The contract of a transport\<close>

text \<open>
  Both functions end with a value on the requests the driver makes, leave the driver's arrays alone
  and the length of the caller's buffer as it is; a read never answers with a positive number.
\<close>

locale fan_transport =
  fixes rd wr :: "u32 \<Rightarrow> int \<Rightarrow> u8 list \<Rightarrow> 'b fan_op"
    and inv :: "'b fan_data \<Rightarrow> bool"
    and rd_ok :: "u32 \<Rightarrow> int \<Rightarrow> nat \<Rightarrow> bool"
    and wr_ok :: "nat \<Rightarrow> bool"
  assumes rd_safe: "inv d \<Longrightarrow> rd_ok c nr (length b) \<Longrightarrow> \<exists>r b' d'. rd c nr b d = Inr (r, b', d') \<and> inv d' \<and>
      length b' = length b \<and> r \<le> 0 \<and> pwm d' = pwm d \<and> pwm_enabled d' = pwm_enabled d \<and>
      delays d' = delays d \<and> attempts d' \<le> attempts d + 1"
    and wr_safe: "inv d \<Longrightarrow> wr_ok (length b) \<Longrightarrow> \<exists>r d'. wr c nr b d = Inr (r, b, d') \<and> inv d' \<and>
      pwm d' = pwm d \<and> pwm_enabled d' = pwm_enabled d \<and> delays d' = delays d \<and> attempts d' \<le> attempts d + 1"
    and inv_delay: "inv d \<Longrightarrow> inv (d\<lparr>delays := m\<rparr>)"
begin

lemma fan_read_safe:
  assumes "inv d" "rd_ok c nr (length b)"
  shows "\<exists>r b' d'. fan_read rd c nr b d = Inr (r, b', d') \<and> inv d' \<and> length b' = length b \<and>
    pwm d' = pwm d \<and> pwm_enabled d' = pwm_enabled d \<and> attempts d' \<le> attempts d + FAN_FAIL_MAX_RETRY \<and>
    delays d' \<le> delays d + FAN_FAIL_MAX_RETRY"
proof -
  let ?I = "\<lambda>b' d'. inv d' \<and> length b' = length b \<and> pwm d' = pwm d \<and> pwm_enabled d' = pwm_enabled d"
  have body: "\<exists>r b' d'. rd c nr b1 d1 = Inr (r, b', d') \<and> ?I b' d' \<and> delays d' = delays d1 \<and> attempts d' \<le> attempts d1 + 1"
    if "?I b1 d1" for b1 d1
    using rd_safe [of d1 c nr b1] that assms(2) by auto
  have "\<exists>r b' d'. retry 49 (rd c nr) b d = Inr (r, b', d') \<and> ?I b' d' \<and> attempts d' \<le> attempts d + 49 + 1 \<and>
    (r = 0 \<longrightarrow> delays d' \<le> delays d + 49) \<and> (r \<noteq> 0 \<longrightarrow> delays d' = delays d + 49 + 1)"
    by (rule retry_inv [where I = ?I, OF body]) (use assms(1) in \<open>simp_all add: inv_delay\<close>)
  then obtain r b' d' where "retry 49 (rd c nr) b d = Inr (r, b', d')" "?I b' d'" "attempts d' \<le> attempts d + 50"
    "delays d' \<le> delays d + 50" by fastforce
  then show ?thesis by (auto simp: fan_read_def FAN_FAIL_MAX_RETRY_def)
qed

lemma fan_write_safe:
  assumes "inv d" "wr_ok (length b)"
  shows "\<exists>r b' d'. fan_write wr c nr b d = Inr (r, b', d') \<and> inv d' \<and> pwm d' = pwm d \<and>
    pwm_enabled d' = pwm_enabled d \<and> attempts d' \<le> attempts d + FAN_FAIL_MAX_RETRY"
proof -
  let ?I = "\<lambda>b' d'. inv d' \<and> b' = b \<and> pwm d' = pwm d \<and> pwm_enabled d' = pwm_enabled d"
  have body: "\<exists>r b' d'. wr c nr b1 d1 = Inr (r, b', d') \<and> ?I b' d' \<and> delays d' = delays d1 \<and> attempts d' \<le> attempts d1 + 1"
    if "?I b1 d1" for b1 d1
    using wr_safe [of d1 b1 c nr] that assms(2) by auto
  have "\<exists>r b' d'. retry 49 (wr c nr) b d = Inr (r, b', d') \<and> ?I b' d' \<and> attempts d' \<le> attempts d + 49 + 1 \<and>
    (r = 0 \<longrightarrow> delays d' \<le> delays d + 49) \<and> (r \<noteq> 0 \<longrightarrow> delays d' = delays d + 49 + 1)"
    by (rule retry_inv [where I = ?I, OF body]) (use assms(1) in \<open>simp_all add: inv_delay\<close>)
  then show ?thesis by (auto simp: fan_write_def FAN_FAIL_MAX_RETRY_def)
qed

end

end
