(* ===== verification/Fan_Bus.thy ===== *)
theory Fan_Bus
  imports Fan_Trans
begin

unbundle bit_operations_syntax

text \<open>
  Both transports of the fan driver meet the contract \<open>fan_transport\<close>; what the I2C transport puts on
  the bus and accepts from it; what the virtual transport answers.
\<close>

section \<open>Both transports meet the contract\<close>

definition virt_rd_ok :: "u32 \<Rightarrow> int \<Rightarrow> nat \<Rightarrow> bool" where
  "virt_rd_ok c nr n \<longleftrightarrow> 1 \<le> nr \<and> nr \<le> int FAN_MAX_NUM \<and> 1 \<le> n \<and> (c = FAN_CMD_GET_RPM \<longrightarrow> 2 \<le> n)"

interpretation virt: fan_transport virt_fan_read virt_fan_write fan_arrays virt_rd_ok "\<lambda>n. True"
proof
  show "\<exists>r b' d'. virt_fan_read c nr b d = Inr (r, b', d') \<and> fan_arrays d' \<and> length b' = length b \<and> r \<le> 0 \<and>
      pwm d' = pwm d \<and> pwm_enabled d' = pwm_enabled d \<and> delays d' = delays d \<and> attempts d' \<le> attempts d + 1"
    if "fan_arrays d" "virt_rd_ok c nr (length b)" for c nr b and d :: "'a fan_data"
    using that by (auto simp: virt_fan_read_def virt_rd_ok_def pwm_at_def fan_arrays_def Let_def)
qed (simp_all add: virt_fan_write_def fan_arrays_def)

lemma length_overlay [simp]: "k + length xs \<le> length ys \<Longrightarrow> length (overlay k xs ys) = length ys"
  by (simp add: overlay_def)

lemma length_cmd_bytes [simp]: "length (cmd_bytes c nr) = 4"
  by (simp add: cmd_bytes_def)

definition i2c_inv :: "'b i2c_ops \<Rightarrow> 'b fan_data \<Rightarrow> bool" where
  "i2c_inv I d \<longleftrightarrow> length (stack I) = BUFFER_SIZE \<and> fan_arrays d"

definition i2c_rd_ok :: "u32 \<Rightarrow> int \<Rightarrow> nat \<Rightarrow> bool" where
  "i2c_rd_ok c nr n \<longleftrightarrow> n + FAN_RECV_PEC_EXCEPT_CONTENT_SIZE \<le> BUFFER_SIZE"

definition i2c_wr_ok :: "nat \<Rightarrow> bool" where
  "i2c_wr_ok n \<longleftrightarrow> FAN_SEND_PEC_SIZE + n < BUFFER_SIZE"

interpretation i2c: fan_transport "i2c_fan_read I" "i2c_fan_write I" "i2c_inv I" i2c_rd_ok i2c_wr_ok for I
proof
  show "\<exists>r b' d'. i2c_fan_read I c nr b d = Inr (r, b', d') \<and> i2c_inv I d' \<and> length b' = length b \<and> r \<le> 0 \<and>
      pwm d' = pwm d \<and> pwm_enabled d' = pwm_enabled d \<and> delays d' = delays d \<and> attempts d' \<le> attempts d + 1"
    if "i2c_inv I d" "i2c_rd_ok c nr (length b)" for c nr b and d :: "'a fan_data"
    using that
    by (simp add: i2c_fan_read_def Let_def i2c_inv_def i2c_rd_ok_def fan_arrays_def fan_sizes errno_defs
        split: prod.splits)
  show "\<exists>r d'. i2c_fan_write I c nr b d = Inr (r, b, d') \<and> i2c_inv I d' \<and> pwm d' = pwm d \<and>
      pwm_enabled d' = pwm_enabled d \<and> delays d' = delays d \<and> attempts d' \<le> attempts d + 1"
    if "i2c_inv I d" "i2c_wr_ok (length b)" for c nr b and d :: "'a fan_data"
    using that
    by (simp add: i2c_fan_write_def Let_def i2c_inv_def i2c_wr_ok_def fan_arrays_def fan_sizes split: prod.splits)
qed (simp add: i2c_inv_def fan_arrays_def)

section \<open>Frames on the bus\<close>

definition cmd_head :: "'b i2c_ops \<Rightarrow> u32 \<Rightarrow> int \<Rightarrow> u8 list" where
  "cmd_head I c nr = [addr_byte I, FAN_REG_SEND, 0x04] @ cmd_bytes c nr"

definition cmd_frame :: "'b i2c_ops \<Rightarrow> u32 \<Rightarrow> int \<Rightarrow> u8 list" where
  "cmd_frame I c nr = tl (cmd_head I c nr) @ [i2c_smbus_pec I 0 (cmd_head I c nr)]"

definition set_head :: "'b i2c_ops \<Rightarrow> u32 \<Rightarrow> int \<Rightarrow> u8 list \<Rightarrow> u8 list" where
  "set_head I c nr v = [addr_byte I, FAN_REG_SET_PWM, 0x05] @ cmd_bytes c nr @ v"

definition set_frame :: "'b i2c_ops \<Rightarrow> u32 \<Rightarrow> int \<Rightarrow> u8 list \<Rightarrow> u8 list" where
  "set_frame I c nr v = tl (set_head I c nr v) @ [i2c_smbus_pec I 0 (set_head I c nr v)]"

definition recv_head :: "'b i2c_ops \<Rightarrow> u8 list" where
  "recv_head I = [addr_byte I, FAN_REG_RECV, addr_byte I OR 1]"

text \<open>The answer is accepted if its count byte and its packet error code are right.\<close>

definition answer_ok :: "'b i2c_ops \<Rightarrow> nat \<Rightarrow> u8 list \<Rightarrow> bool" where
  "answer_ok I n rx \<longleftrightarrow> unat (rx ! 0) = n + 1 \<and> i2c_smbus_pec I 0 (recv_head I @ rx) = 0"

lemma list64: "length xs = 64 \<Longrightarrow> \<exists>a b c d e f g h ys. xs = a # b # c # d # e # f # g # h # ys \<and> length ys = 56"
  by (auto simp: eval_nat_numeral length_Suc_conv)

lemma overlay_nth: "k + length xs \<le> length ys \<Longrightarrow> j < length xs \<Longrightarrow> overlay k xs ys ! (k + j) = xs ! j"
  by (simp add: overlay_def nth_append)

text \<open>
  \<open>i2c_transfer\<close> answers with the number of messages it completed; a completed read message has
  filled its buffer.
\<close>

definition fills_buffer :: "'b i2c_ops \<Rightarrow> bool" where
  "fills_buffer I \<longleftrightarrow> (\<forall>m n w rx w'. i2c_transfer I m n w = (2, rx, w') \<longrightarrow> length rx = n)"

lemma i2c_read_eq:
  assumes st: "length (stack I) = BUFFER_SIZE" and n: "length b + FAN_RECV_PEC_EXCEPT_CONTENT_SIZE \<le> BUFFER_SIZE"
    and law: "fills_buffer I"
  shows "i2c_fan_read I c nr b d = Inr (case i2c_master_send I (cmd_frame I c nr) (bus d) of (ret, w1) \<Rightarrow>
    if ret \<noteq> int FAN_SEND_COMMAND_SIZE then (- EIO, b, d\<lparr>bus := w1, attempts := attempts d + 1\<rparr>)
    else case i2c_transfer I [FAN_REG_RECV] (length b + FAN_RECV_CONTROL_AND_PEC_SIZE) w1 of (ret, rx, w2) \<Rightarrow>
      if ret = 2 \<and> answer_ok I (length b) rx
      then (0, take (length b) (drop 2 rx), d\<lparr>bus := w2, attempts := attempts d + 1\<rparr>)
      else (- EIO, b, d\<lparr>bus := w2, attempts := attempts d + 1\<rparr>))"
proof -
  obtain s0 s1 s2 s3 s4 s5 s6 s7 ys where
    s: "stack I = s0 # s1 # s2 # s3 # s4 # s5 # s6 # s7 # ys" "length ys = 56"
    using list64 [of "stack I"] st by (auto simp: fan_sizes)
  define p where "p = i2c_smbus_pec I 0 (cmd_head I c nr)"
  define b1 where "b1 = overlay 0 ([addr_byte I, FAN_REG_SEND, 0x04] @ cmd_bytes c nr) (stack I)"
  have b1: "b1 = cmd_head I c nr @ s7 # ys" by (simp add: b1_def overlay_def s cmd_head_def)
  have h: "length (cmd_head I c nr) = 7" by (simp add: cmd_head_def)
  define b2 where "b2 = b1[FAN_SEND_PEC_SIZE := i2c_smbus_pec I 0 (take FAN_SEND_PEC_SIZE b1)]"
  have b2: "b2 = cmd_head I c nr @ p # ys" by (simp add: b2_def b1 h fan_sizes p_def list_update_append)
  have sent: "take FAN_SEND_COMMAND_SIZE (drop 1 b2) = cmd_frame I c nr"
    by (simp add: b2 cmd_frame_def cmd_head_def fan_sizes p_def cmd_bytes_def)
  define b3 where "b3 = b2[1 := FAN_REG_RECV, 2 := addr_byte I OR 1]"
  obtain zs where b3: "b3 = recv_head I @ zs" "length zs = 61"
    by (simp add: b3_def b2 cmd_head_def recv_head_def s(2))
  have lh: "length (recv_head I) = 3" by (simp add: recv_head_def)
  let ?n = "length b + FAN_RECV_CONTROL_AND_PEC_SIZE"
  have parts: "overlay FAN_RECV_CONTROL_NUM_OFFSET (take ?n rx) b3 ! FAN_RECV_CONTROL_NUM_OFFSET = rx ! 0"
    "take (length b + FAN_RECV_PEC_EXCEPT_CONTENT_SIZE) (overlay FAN_RECV_CONTROL_NUM_OFFSET (take ?n rx) b3) = recv_head I @ rx"
    "take (length b) (drop FAN_RECV_CONTENT_OFFSET (overlay FAN_RECV_CONTROL_NUM_OFFSET (take ?n rx) b3)) = take (length b) (drop 2 rx)"
    if "length rx = ?n" for rx
    using that by (simp_all add: overlay_def b3 lh fan_sizes nth_append)
  have b3': "b3 ! 1 = FAN_REG_RECV" by (simp add: b3 recv_head_def)
  have fits: "\<not> BUFFER_SIZE < FAN_RECV_CONTROL_NUM_OFFSET + ?n" using n by (simp add: fan_sizes)
  obtain ret w1 where send: "i2c_master_send I (cmd_frame I c nr) (bus d) = (ret, w1)" by fastforce
  obtain ret2 rx w2 where recv: "i2c_transfer I [FAN_REG_RECV] ?n w1 = (ret2, rx, w2)" by (metis prod_cases3)
  note eq = i2c_fan_read_def Let_def b1_def [symmetric] b2_def [symmetric] sent b3_def [symmetric] b3' send recv prod.case
  show ?thesis
  proof (cases "ret2 = 2")
    case True
    then have "length rx = ?n" using law recv unfolding fills_buffer_def by blast
    note parts = parts [OF this]
    show ?thesis unfolding eq parts using fits True by (simp add: answer_ok_def)
  next
    case False
    with fits show ?thesis unfolding eq by simp
  qed
qed

text \<open>
  C16: Whatever the bus does, a read over I2C ends after at most 50 attempts with the content of an
  answer whose count byte and packet error code are right, or with \<^verbatim>\<open>-EIO\<close> and the
  caller's buffer as it was.
\<close>

theorem i2c_read_integrity:
  assumes st: "length (stack I) = BUFFER_SIZE" and n: "length b + FAN_RECV_PEC_EXCEPT_CONTENT_SIZE \<le> BUFFER_SIZE"
    and law: "fills_buffer I"
  shows "\<exists>r b' d'. fan_read (i2c_fan_read I) c nr b d = Inr (r, b', d') \<and> attempts d' \<le> attempts d + FAN_FAIL_MAX_RETRY \<and>
    (r = - EIO \<and> b' = b \<or>
     r = 0 \<and> (\<exists>w1 rx w2. i2c_transfer I [FAN_REG_RECV] (length b + FAN_RECV_CONTROL_AND_PEC_SIZE) w1 = (2, rx, w2) \<and>
       answer_ok I (length b) rx \<and> b' = take (length b) (drop 2 rx)))"
proof -
  let ?Q = "\<lambda>r b'. r = - EIO \<and> b' = b \<or>
     r = 0 \<and> (\<exists>w1 rx w2. i2c_transfer I [FAN_REG_RECV] (length b + FAN_RECV_CONTROL_AND_PEC_SIZE) w1 = (2, rx, w2) \<and>
       answer_ok I (length b) rx \<and> b' = take (length b) (drop 2 rx))"
  have "\<exists>r b' d'. i2c_fan_read I c nr b d1 = Inr (r, b', d') \<and> ?Q r b' \<and> attempts d' \<le> attempts d1 + 1" for d1 :: "'a fan_data"
    unfolding i2c_read_eq [OF st n law] by (simp split: prod.splits) blast
  then have "\<exists>r b' d'. retry 49 (i2c_fan_read I c nr) b d = Inr (r, b', d') \<and> ?Q r b' \<and> attempts d' \<le> attempts d + 49 + 1"
    by (rule retry_result [where Q = ?Q]) (auto simp: errno_defs)
  then obtain r b' d' where "retry 49 (i2c_fan_read I c nr) b d = Inr (r, b', d')" "?Q r b'" "attempts d' \<le> attempts d + 49 + 1"
    by blast
  then show ?thesis by (intro exI conjI) (simp_all add: fan_read_def FAN_FAIL_MAX_RETRY_def add.commute)
qed

text \<open>A read that the controller answers correctly.\<close>

lemma i2c_read_spec:
  assumes "length (stack I) = BUFFER_SIZE" "length b + FAN_RECV_PEC_EXCEPT_CONTENT_SIZE \<le> BUFFER_SIZE" "fills_buffer I"
    and "i2c_master_send I (cmd_frame I c nr) (bus d) = (int FAN_SEND_COMMAND_SIZE, w1)"
    and "i2c_transfer I [FAN_REG_RECV] (length b + FAN_RECV_CONTROL_AND_PEC_SIZE) w1 = (2, rx, w2)"
    and "answer_ok I (length b) rx"
  shows "fan_read (i2c_fan_read I) c nr b d =
    Inr (0, take (length b) (drop 2 rx), d\<lparr>bus := w2, attempts := attempts d + 1\<rparr>)"
  unfolding fan_read_def by (rule retry_first) (simp add: i2c_read_eq [OF assms(1-3)] assms(4-6))

text \<open>What reaches the bus when a value is set.\<close>

lemma i2c_write_spec:
  assumes st: "length (stack I) = BUFFER_SIZE" and n: "FAN_SEND_PEC_SIZE + length v < BUFFER_SIZE"
    and send: "i2c_master_send I (set_frame I c nr v) (bus d) = (ret, w1)"
  shows "i2c_fan_write I c nr v d =
    Inr (if ret = int (FAN_SEND_COMMAND_SIZE + length v) then ret else - EIO, v,
      d\<lparr>bus := w1, attempts := attempts d + 1\<rparr>)"
proof -
  obtain s0 s1 s2 s3 s4 s5 s6 s7 ys where
    s: "stack I = s0 # s1 # s2 # s3 # s4 # s5 # s6 # s7 # ys" "length ys = 56"
    using list64 [of "stack I"] st by (auto simp: fan_sizes)
  let ?n = "FAN_SEND_PEC_SIZE + length v"
  define b1 where "b1 = overlay 0 ([addr_byte I, FAN_REG_SET_PWM, 0x05] @ cmd_bytes c nr) (stack I)"
  define b2 where "b2 = overlay FAN_SEND_PEC_SIZE v b1"
  have h: "length (set_head I c nr v) = ?n" by (simp add: set_head_def fan_sizes)
  have b2: "b2 = set_head I c nr v @ drop (length v) (s7 # ys)"
    by (simp add: b2_def b1_def overlay_def s set_head_def fan_sizes cmd_bytes_def drop_Cons')
  obtain z zs where z: "drop (length v) (s7 # ys) = z # zs"
    using n s(2) by (cases "drop (length v) (s7 # ys)") (auto simp: fan_sizes)
  define b3 where "b3 = b2[?n := i2c_smbus_pec I 0 (take ?n b2)]"
  have b3: "b3 = set_head I c nr v @ i2c_smbus_pec I 0 (set_head I c nr v) # zs"
    by (simp add: b3_def b2 z h list_update_append)
  have sent: "take (FAN_SEND_COMMAND_SIZE + length v) (drop 1 b3) = set_frame I c nr v"
    by (simp add: b3 set_frame_def set_head_def fan_sizes cmd_bytes_def take_Cons')
  show ?thesis
    unfolding i2c_fan_write_def Let_def b1_def [symmetric] b2_def [symmetric] b3_def [symmetric] sent send prod.case
    using n by simp
qed

section \<open>An answer with a correct packet error code\<close>

text \<open>The answer of a controller: the count byte, a control byte, the content and the code over the whole exchange.\<close>

definition answer :: "'b i2c_ops \<Rightarrow> u8 \<Rightarrow> u8 list \<Rightarrow> u8 list" where
  "answer I ctrl v = (let body = [of_nat (length v + 1), ctrl] @ v in body @ [i2c_smbus_pec I 0 (recv_head I @ body)])"

definition pec_law :: "'b i2c_ops \<Rightarrow> bool" where
  "pec_law I \<longleftrightarrow> (\<forall>xs. i2c_smbus_pec I 0 (xs @ [i2c_smbus_pec I 0 xs]) = 0)"

lemma answer_accepted:
  assumes "pec_law I" "length v < 255"
  shows "answer_ok I (length v) (answer I ctrl v)"
proof -
  let ?body = "[of_nat (length v + 1), ctrl] @ v"
  have "unat (answer I ctrl v ! 0) = length v + 1"
    using assms(2) unat_of_nat_small [where ?'a = 8, of "length v + 1"] by (simp add: answer_def Let_def)
  moreover have "recv_head I @ answer I ctrl v = (recv_head I @ ?body) @ [i2c_smbus_pec I 0 (recv_head I @ ?body)]"
    by (simp add: answer_def Let_def)
  then have "i2c_smbus_pec I 0 (recv_head I @ answer I ctrl v) = 0"
    using assms(1) unfolding pec_law_def by metis
  ultimately show ?thesis by (simp add: answer_ok_def)
qed

text \<open>CRC-8 with the polynomial of the SMBus specification, and a bus with one such controller.\<close>

fun crc8_bits :: "nat \<Rightarrow> u8 \<Rightarrow> u8" where
  "crc8_bits 0 c = c"
| "crc8_bits (Suc n) c = crc8_bits n (if bit c 7 then push_bit 1 c XOR 7 else push_bit 1 c)"

definition crc8 :: "u8 \<Rightarrow> u8 list \<Rightarrow> u8" where
  "crc8 crc xs = foldl (\<lambda>c b. crc8_bits 8 (c XOR b)) crc xs"

definition sample_bus :: "u8 list i2c_ops" where
  "sample_bus = \<lparr>i2c_addr = 0x30, i2c_master_send = (\<lambda>xs w. (int (length xs), xs)),
     i2c_transfer = (\<lambda>m n w. (2, take n ([2, 0, 0x4C, crc8 0 [0x60, 0x21, 0x61, 2, 0, 0x4C]] @ replicate n 0), w)),
     i2c_smbus_pec = crc8, stack = replicate 64 0\<rparr>"

definition sample_fan :: "u8 list fan_data" where
  "sample_fan = \<lparr>pwm = replicate 16 0x4C, pwm_enabled = replicate 16 0, bus = [], attempts = 0, delays = 0\<rparr>"

lemma crc8_bits_0 [simp]: "crc8_bits n 0 = 0"
  by (induction n) simp_all

lemma sample_bus_laws: "fills_buffer sample_bus" "pec_law sample_bus" "length (stack sample_bus) = BUFFER_SIZE"
  by (simp_all add: fills_buffer_def pec_law_def sample_bus_def crc8_def BUFFER_SIZE_def)

text \<open>
  A controller's correct answer is handed to the caller in the first attempt, for every content
  that fits the driver's buffer.
\<close>

theorem i2c_read_round_trip:
  assumes "length (stack I) = BUFFER_SIZE" "fills_buffer I" "pec_law I"
    and "length b = length v" "length v + FAN_RECV_PEC_EXCEPT_CONTENT_SIZE \<le> BUFFER_SIZE"
    and "i2c_master_send I (cmd_frame I c nr) (bus d) = (int FAN_SEND_COMMAND_SIZE, w1)"
    and "i2c_transfer I [FAN_REG_RECV] (length v + FAN_RECV_CONTROL_AND_PEC_SIZE) w1 = (2, answer I ctrl v, w2)"
  shows "fan_read (i2c_fan_read I) c nr b d = Inr (0, v, d\<lparr>bus := w2, attempts := attempts d + 1\<rparr>)"
proof -
  have "length v < 255" using assms(5) by (simp add: fan_sizes)
  then have ok: "answer_ok I (length b) (answer I ctrl v)" using answer_accepted assms(3,4) by simp
  have "take (length b) (drop 2 (answer I ctrl v)) = v" using assms(4) by (simp add: answer_def Let_def)
  then show ?thesis
    using i2c_read_spec [of I b c nr d w1 "answer I ctrl v" w2] assms ok by simp
qed

theorem i2c_read_round_trip_witness:
  "fan_read (i2c_fan_read sample_bus) FAN_CMD_GET_PWM 3 [0] sample_fan =
    Inr (0, [0x4C], sample_fan\<lparr>bus := cmd_frame sample_bus FAN_CMD_GET_PWM 3, attempts := 1\<rparr>)"
proof -
  have send: "i2c_master_send sample_bus (cmd_frame sample_bus FAN_CMD_GET_PWM 3) (bus sample_fan) =
      (int FAN_SEND_COMMAND_SIZE, cmd_frame sample_bus FAN_CMD_GET_PWM 3)"
    by (simp add: sample_bus_def cmd_frame_def cmd_head_def fan_sizes)
  have recv: "i2c_transfer sample_bus [FAN_REG_RECV] (length [0x4C :: u8] + FAN_RECV_CONTROL_AND_PEC_SIZE) w =
      (2, answer sample_bus 0 [0x4C], w)" for w
    by (simp add: sample_bus_def answer_def recv_head_def addr_byte_def FAN_REG_RECV_def fan_sizes Let_def)
  show ?thesis
    using i2c_read_round_trip [OF sample_bus_laws(3,1,2) _ _ send recv, of "[0]"]
    by (simp add: fan_sizes sample_fan_def)
qed

theorem i2c_read_integrity_witness:
  "\<exists>r b' d'. fan_read (i2c_fan_read sample_bus) FAN_CMD_GET_RPM 3 [0, 0] sample_fan = Inr (r, b', d') \<and>
    attempts d' \<le> attempts sample_fan + FAN_FAIL_MAX_RETRY"
  using i2c_read_integrity [of sample_bus "[0, 0]" FAN_CMD_GET_RPM 3 sample_fan] sample_bus_laws
  by (simp add: fan_sizes) blast

text \<open>
  Setting a value over I2C puts the same frame on the bus 50 times if the controller takes it each
  time: \<^verbatim>\<open>_fan_write\<close> answers with the length of the frame, and only a zero ends the
  retry loop.
\<close>

theorem i2c_set_repeats:
  assumes "length (stack I) = BUFFER_SIZE" "FAN_SEND_PEC_SIZE + length v < BUFFER_SIZE"
    and "\<And>w. fst (i2c_master_send I (set_frame I c nr v) w) = int (FAN_SEND_COMMAND_SIZE + length v)"
  shows "\<exists>d'. fan_write (i2c_fan_write I) c nr v d = Inr (int (FAN_SEND_COMMAND_SIZE + length v), v, d') \<and>
    attempts d' = attempts d + FAN_FAIL_MAX_RETRY"
proof -
  have "\<exists>d'. i2c_fan_write I c nr v d1 = Inr (int (FAN_SEND_COMMAND_SIZE + length v), v, d') \<and> attempts d' = attempts d1 + 1"
    for d1 :: "'a fan_data"
    using i2c_write_spec [OF assms(1,2), of c nr d1] assms(3) [of "bus d1"]
    by (cases "i2c_master_send I (set_frame I c nr v) (bus d1)") simp
  from retry_exhausts [of "i2c_fan_write I c nr" v, OF this, of 49 d] show ?thesis
    by (simp add: fan_write_def fan_sizes add.commute)
qed

theorem i2c_set_repeats_witness:
  "\<exists>d'. fan_write (i2c_fan_write sample_bus) FAN_CMD_SET_PWM 1 [0x80] sample_fan = Inr (8, [0x80], d') \<and> attempts d' = 50"
proof -
  have "fst (i2c_master_send sample_bus (set_frame sample_bus FAN_CMD_SET_PWM 1 [0x80]) w) =
      int (FAN_SEND_COMMAND_SIZE + length [0x80 :: u8])" for w
    by (simp add: sample_bus_def set_frame_def set_head_def fan_sizes)
  then show ?thesis
    using i2c_set_repeats [OF sample_bus_laws(3), of "[0x80]" FAN_CMD_SET_PWM 1 sample_fan]
    by (simp add: fan_sizes sample_fan_def)
qed

end
