(* ===== verification/Fan_Driver.thy ===== *)
theory Fan_Driver
  imports Fan_Bus
begin

unbundle bit_operations_syntax

text \<open>
  The fan driver proper (\<^verbatim>\<open>virt_fan.c\<close>): the sysfs attributes, the timer and its work, probe
  and remove. The transport functions \<open>rd\<close> and \<open>wr\<close> are arguments, so every definition serves both
  builds. Kernel services are arguments too: \<open>kstr\<close> is \<^verbatim>\<open>kstrtoul\<close> in base ten (an error
  number, or the value), \<open>alloc k\<close> tells whether the k-th allocation of a probe succeeds.
\<close>

section \<open>State\<close>

datatype show_fn = Show_fan | Show_pwm | Show_pwm_enable
datatype store_fn = Set_pwm | Set_pwm_enable

record sensor_device_attribute =
  attr_name :: string
  attr_show :: show_fn
  attr_store :: "store_fn option"
  attr_mode :: nat
  attr_index :: int

text \<open>
  The device with its attribute table, its workqueue, the number of queued work items and of work
  structures not yet freed, and the expiry time of the timer.
\<close>

record 'b fan_dev =
  fdata :: "'b fan_data"
  attrs :: "sensor_device_attribute option list"
  workqueue :: bool
  works :: nat
  work_allocs :: nat
  pwm_timer :: "u64 option"

section \<open>The sysfs attributes\<close>

text \<open>A show function returns its result, the text and the device; \<open>stk\<close> is the uninitialised local.\<close>

definition show_fan ::
  "(u32 \<Rightarrow> int \<Rightarrow> u8 list \<Rightarrow> 'b fan_op) \<Rightarrow> u8 \<times> u8 \<Rightarrow> int \<Rightarrow> 'b fan_data \<Rightarrow> (int \<times> string \<times> 'b fan_data) result" where
  "show_fan rd stk nr d = rbind (fan_read rd FAN_CMD_GET_RPM nr [fst stk, snd stk] d) (\<lambda>(ret, b, d1).
     if ret < 0 then Inr (ret, [], d1)
     else let s = line_of (unat (b ! 0) + 256 * unat (b ! 1)) in Inr (int (length s), s, d1))"

definition show_pwm ::
  "(u32 \<Rightarrow> int \<Rightarrow> u8 list \<Rightarrow> 'b fan_op) \<Rightarrow> u8 \<Rightarrow> int \<Rightarrow> 'b fan_data \<Rightarrow> (int \<times> string \<times> 'b fan_data) result" where
  "show_pwm rd stk nr d = rbind (fan_read rd FAN_CMD_GET_PWM nr [stk] d) (\<lambda>(ret, b, d1).
     if ret < 0 then Inr (ret, [], d1)
     else let s = line_of (unat (b ! 0)) in Inr (int (length s), s, d1))"

definition put_pwm :: "int \<Rightarrow> u8 \<Rightarrow> 'b fan_data \<Rightarrow> 'b fan_data result" where
  "put_pwm nr v d = (if 1 \<le> nr \<and> nr \<le> int (length (pwm d)) then Inr (d\<lparr>pwm := (pwm d)[nat (nr - 1) := v]\<rparr>)
     else Inl OutOfBounds)"

definition set_pwm ::
  "(string \<Rightarrow> int + nat) \<Rightarrow> int \<Rightarrow> string \<Rightarrow> 'b fan_data \<Rightarrow> (int \<times> 'b fan_data) result" where
  "set_pwm kstr nr buf d = (case kstr buf of
     Inl err \<Rightarrow> Inr (err, d)
   | Inr val \<Rightarrow> rbind (put_pwm nr (of_nat (clamp_val val 0 255)) d) (\<lambda>d1. Inr (int (length buf), d1)))"

definition show_pwm_enable :: "int \<Rightarrow> 'b fan_data \<Rightarrow> (int \<times> string \<times> 'b fan_data) result" where
  "show_pwm_enable nr d = (if 1 \<le> nr \<and> nr \<le> int (length (pwm_enabled d))
     then let s = line_of (unat (pwm_enabled d ! nat (nr - 1))) in Inr (int (length s), s, d)
     else Inl OutOfBounds)"

definition set_pwm_enable ::
  "(string \<Rightarrow> int + nat) \<Rightarrow> int \<Rightarrow> string \<Rightarrow> 'b fan_data \<Rightarrow> (int \<times> 'b fan_data) result" where
  "set_pwm_enable kstr nr buf d = (case kstr buf of
     Inl err \<Rightarrow> Inr (err, d)
   | Inr val \<Rightarrow>
       if 1 < val then Inr (- EINVAL, d)
       else if 1 \<le> nr \<and> nr \<le> int (length (pwm_enabled d))
       then Inr (int (length buf), d\<lparr>pwm_enabled := (pwm_enabled d)[nat (nr - 1) := of_nat val]\<rparr>)
       else Inl OutOfBounds)"

section \<open>The timer and its work\<close>

definition fan_pwm_init :: "int \<Rightarrow> 'b fan_data \<Rightarrow> 'b fan_data result" where
  "fan_pwm_init num_fans d = run_steps (\<lambda>d nr. put_pwm nr 0x4C d) d [1..num_fans]"

definition update_pwm ::
  "(u32 \<Rightarrow> int \<Rightarrow> u8 list \<Rightarrow> 'b fan_op) \<Rightarrow> int \<Rightarrow> u8 \<Rightarrow> 'b fan_data \<Rightarrow> 'b fan_data result" where
  "update_pwm wr nr val d = rbind (fan_write wr FAN_CMD_SET_PWM nr [of_nat (clamp_val (unat val) 0 255)] d)
     (\<lambda>(ret, b, d1). Inr d1)"

definition update_all ::
  "(u32 \<Rightarrow> int \<Rightarrow> u8 list \<Rightarrow> 'b fan_op) \<Rightarrow> int \<Rightarrow> 'b fan_data \<Rightarrow> 'b fan_data result" where
  "update_all wr num_fans d = run_steps (\<lambda>d nr. rbind (pwm_at nr d) (\<lambda>v. update_pwm wr nr v d)) d [1..num_fans]"

definition fan_update_pwm_work_callback ::
  "(u32 \<Rightarrow> int \<Rightarrow> u8 list \<Rightarrow> 'b fan_op) \<Rightarrow> int \<Rightarrow> 'b fan_dev \<Rightarrow> 'b fan_dev result" where
  "fan_update_pwm_work_callback wr num_fans v = rbind (update_all wr num_fans (fdata v)) (\<lambda>d1.
     Inr (v\<lparr>fdata := d1, work_allocs := work_allocs v - 1\<rparr>))"

text \<open>\<open>jiffies\<close> is the current time, \<open>period\<close> the value of \<^verbatim>\<open>msecs_to_jiffies(1000)\<close>.\<close>

definition fan_update_pwm_timer_callback :: "bool \<Rightarrow> u64 \<Rightarrow> u64 \<Rightarrow> 'b fan_dev \<Rightarrow> 'b fan_dev result" where
  "fan_update_pwm_timer_callback kmalloc_ok jiffies period v =
     (if \<not> kmalloc_ok then Inl NullDeref
      else Inr (v\<lparr>work_allocs := work_allocs v + 1, works := works v + 1, pwm_timer := Some (jiffies + period)\<rparr>))"

section \<open>Probe and remove\<close>

definition fan_init :: "bool \<Rightarrow> int \<Rightarrow> u64 \<Rightarrow> u64 \<Rightarrow> 'b fan_dev \<Rightarrow> (int \<times> 'b fan_dev) result" where
  "fan_init wq_ok num_fans jiffies period v =
     (if \<not> wq_ok then Inr (- ENOMEM, v\<lparr>workqueue := False\<rparr>)
      else rbind (fan_pwm_init num_fans (fdata v)) (\<lambda>d1.
        Inr (0, v\<lparr>fdata := d1, workqueue := True, pwm_timer := Some (jiffies + period)\<rparr>)))"

text \<open>
  The macro that fills one slot of the table. It makes two allocations, numbered after the slot; an
  earlier error (a value on the left of the inner sum) has already left the function.
\<close>

definition FAN_ADD_SENSOR_ATTR ::
  "(nat \<Rightarrow> bool) \<Rightarrow> sensor_device_attribute \<Rightarrow> nat \<Rightarrow> int + sensor_device_attribute option list \<Rightarrow>
    (int + sensor_device_attribute option list) result" where
  "FAN_ADD_SENSOR_ATTR alloc a slot st = (case st of
     Inl err \<Rightarrow> Inr (Inl err)
   | Inr t \<Rightarrow>
       if \<not> alloc (2 + 2 * slot) then Inr (Inl (- ENOMEM))
       else if \<not> alloc (3 + 2 * slot) then Inr (Inl (- ENOMEM))
       else if length t \<le> slot then Inl OutOfBounds
       else Inr (Inr (t[slot := Some a])))"

definition fan_attr :: "nat \<Rightarrow> sensor_device_attribute" where
  "fan_attr i = \<lparr>attr_name = ''fan'' @ decimal (i + 1) @ ''_input'', attr_show = Show_fan, attr_store = None,
     attr_mode = 292, attr_index = int i + 1\<rparr>"

definition pwm_attr :: "nat \<Rightarrow> sensor_device_attribute" where
  "pwm_attr i = \<lparr>attr_name = ''pwm'' @ decimal (i + 1), attr_show = Show_pwm, attr_store = Some Set_pwm,
     attr_mode = 420, attr_index = int i + 1\<rparr>"

definition pwm_enable_attr :: "nat \<Rightarrow> sensor_device_attribute" where
  "pwm_enable_attr i = \<lparr>attr_name = ''pwm'' @ decimal (i + 1) @ ''_enable'', attr_show = Show_pwm_enable,
     attr_store = Some Set_pwm_enable, attr_mode = 420, attr_index = int i + 1\<rparr>"

definition add_fan_attrs ::
  "(nat \<Rightarrow> bool) \<Rightarrow> int + sensor_device_attribute option list \<Rightarrow> nat \<Rightarrow>
    (int + sensor_device_attribute option list) result" where
  "add_fan_attrs alloc st i =
     rbind (FAN_ADD_SENSOR_ATTR alloc (fan_attr i) (i * FAN_ITEM_NUM) st) (\<lambda>st1.
     rbind (FAN_ADD_SENSOR_ATTR alloc (pwm_attr i) (i * FAN_ITEM_NUM + 1) st1) (\<lambda>st2.
     FAN_ADD_SENSOR_ATTR alloc (pwm_enable_attr i) (i * FAN_ITEM_NUM + 2) st2))"

text \<open>\<open>hwmon\<close> is zero, or the error number that the registration returned as a pointer.\<close>

definition fan_probe ::
  "(nat \<Rightarrow> bool) \<Rightarrow> int \<Rightarrow> bool \<Rightarrow> int \<Rightarrow> u64 \<Rightarrow> u64 \<Rightarrow> 'b \<Rightarrow> (int \<times> 'b fan_dev option) result" where
  "fan_probe alloc hwmon wq_ok num_fans jiffies period client =
     (if num_fans \<le> 0 \<or> num_fans > int FAN_MAX_NUM then Inr (- EINVAL, None)
      else if \<not> alloc 0 then Inr (- ENOMEM, None)
      else if \<not> alloc 1 then Inr (- ENOMEM, None)
      else rbind (run_steps (add_fan_attrs alloc) (Inr (replicate (nat num_fans * FAN_ITEM_NUM + 1) None)) [0..<nat num_fans])
        (\<lambda>st. case st of
           Inl err \<Rightarrow> Inr (err, None)
         | Inr t \<Rightarrow>
             let d = \<lparr>pwm = replicate FAN_MAX_NUM 0, pwm_enabled = replicate FAN_MAX_NUM 0, bus = client,
                   attempts = 0, delays = 0\<rparr>;
                 v = \<lparr>fdata = d, attrs = t, workqueue = False, works = 0, work_allocs = 0, pwm_timer = None\<rparr>
             in if hwmon < 0 then Inr (hwmon, None)
                else rbind (fan_init wq_ok num_fans jiffies period v) (\<lambda>(ret, v1). Inr (ret, Some v1))))"

text \<open>\<^verbatim>\<open>flush_workqueue\<close> runs what is queued.\<close>

fun flush_works :: "nat \<Rightarrow> ('b fan_dev \<Rightarrow> 'b fan_dev result) \<Rightarrow> 'b fan_dev \<Rightarrow> 'b fan_dev result" where
  "flush_works 0 cb v = Inr v"
| "flush_works (Suc n) cb v = rbind (cb (v\<lparr>works := works v - 1\<rparr>)) (flush_works n cb)"

definition fan_remove ::
  "(u32 \<Rightarrow> int \<Rightarrow> u8 list \<Rightarrow> 'b fan_op) \<Rightarrow> int \<Rightarrow> 'b fan_dev \<Rightarrow> 'b fan_dev result" where
  "fan_remove wr num_fans v =
     (if \<not> workqueue v then Inl NullDeref
      else rbind (flush_works (works v) (fan_update_pwm_work_callback wr num_fans) (v\<lparr>pwm_timer := None\<rparr>))
        (\<lambda>v1. Inr (v1\<lparr>workqueue := False\<rparr>)))"

end
