(* ===== verification/Fan_Safety.thy ===== *)
theory Fan_Safety
  imports Fan_Driver
begin

text \<open>
  Properties of the fan driver that hold for both transports: the state stays well formed under every
  sequence of attribute accesses, timer expiries and work items, nothing faults, and removing the
  device releases what the timer allocated.
\<close>

section \<open>Events\<close>

datatype fan_event =
    Ev_show_fan "u8 \<times> u8" int
  | Ev_show_pwm u8 int
  | Ev_set_pwm int string
  | Ev_show_pwm_enable int
  | Ev_set_pwm_enable int string
  | Ev_timer bool u64 u64
  | Ev_work

definition on_data :: "'b fan_dev \<Rightarrow> ('x \<Rightarrow> 'b fan_data) \<Rightarrow> 'x result \<Rightarrow> 'b fan_dev result" where
  "on_data v f m = rbind m (\<lambda>x. Inr (v\<lparr>fdata := f x\<rparr>))"

fun fan_step ::
  "(u32 \<Rightarrow> int \<Rightarrow> u8 list \<Rightarrow> 'b fan_op) \<Rightarrow> (u32 \<Rightarrow> int \<Rightarrow> u8 list \<Rightarrow> 'b fan_op) \<Rightarrow> (string \<Rightarrow> int + nat) \<Rightarrow> int \<Rightarrow>
    'b fan_dev \<Rightarrow> fan_event \<Rightarrow> 'b fan_dev result" where
  "fan_step rd wr kstr n v (Ev_show_fan stk nr) = on_data v (snd \<circ> snd) (show_fan rd stk nr (fdata v))"
| "fan_step rd wr kstr n v (Ev_show_pwm stk nr) = on_data v (snd \<circ> snd) (show_pwm rd stk nr (fdata v))"
| "fan_step rd wr kstr n v (Ev_set_pwm nr buf) = on_data v snd (set_pwm kstr nr buf (fdata v))"
| "fan_step rd wr kstr n v (Ev_show_pwm_enable nr) = on_data v (snd \<circ> snd) (show_pwm_enable nr (fdata v))"
| "fan_step rd wr kstr n v (Ev_set_pwm_enable nr buf) = on_data v snd (set_pwm_enable kstr nr buf (fdata v))"
| "fan_step rd wr kstr n v (Ev_timer ok j p) =
     (if pwm_timer v = None then Inr v else fan_update_pwm_timer_callback ok j p v)"
| "fan_step rd wr kstr n v Ev_work =
     (if works v = 0 then Inr v else fan_update_pwm_work_callback wr n (v\<lparr>works := works v - 1\<rparr>))"

text \<open>The accesses that the attribute table offers for \<open>n\<close> fans.\<close>

fun ev_ok :: "int \<Rightarrow> fan_event \<Rightarrow> bool" where
  "ev_ok n (Ev_show_fan stk nr) = (1 \<le> nr \<and> nr \<le> n)"
| "ev_ok n (Ev_show_pwm stk nr) = (1 \<le> nr \<and> nr \<le> n)"
| "ev_ok n (Ev_set_pwm nr buf) = (1 \<le> nr \<and> nr \<le> n)"
| "ev_ok n (Ev_show_pwm_enable nr) = (1 \<le> nr \<and> nr \<le> n)"
| "ev_ok n (Ev_set_pwm_enable nr buf) = (1 \<le> nr \<and> nr \<le> n)"
| "ev_ok n (Ev_timer ok j p) = True"
| "ev_ok n Ev_work = True"

text \<open>A timer expiry whose allocation fails.\<close>

fun starved :: "fan_event \<Rightarrow> bool" where
  "starved (Ev_timer ok j p) = (\<not> ok)"
| "starved e = False"

section \<open>The well-formed device\<close>

definition flags_ok :: "'b fan_data \<Rightarrow> bool" where
  "flags_ok d \<longleftrightarrow> list_all (\<lambda>e. unat e \<le> 1) (pwm_enabled d)"

definition fan_wf :: "('b fan_data \<Rightarrow> bool) \<Rightarrow> 'b fan_dev \<Rightarrow> bool" where
  "fan_wf P v \<longleftrightarrow> P (fdata v) \<and> flags_ok (fdata v) \<and> works v = work_allocs v \<and> workqueue v \<and> pwm_timer v \<noteq> None"

lemma flags_ok_update: "flags_ok d \<Longrightarrow> val \<le> 1 \<Longrightarrow> flags_ok (d\<lparr>pwm_enabled := (pwm_enabled d)[k := of_nat val]\<rparr>)"
  using unat_of_nat_small [where ?'a = 8, of val]
  by (auto simp: flags_ok_def list_all_iff dest: set_update_subset_insert [THEN subsetD])

text \<open>The contract of a transport as the driver uses it.\<close>

locale fan_driver = fan_transport rd wr inv rd_ok wr_ok
  for rd wr :: "u32 \<Rightarrow> int \<Rightarrow> u8 list \<Rightarrow> 'b fan_op" and inv rd_ok wr_ok +
  assumes rd_ok_pwm: "1 \<le> nr \<Longrightarrow> nr \<le> int FAN_MAX_NUM \<Longrightarrow> rd_ok FAN_CMD_GET_PWM nr 1"
    and rd_ok_rpm: "1 \<le> nr \<Longrightarrow> nr \<le> int FAN_MAX_NUM \<Longrightarrow> rd_ok FAN_CMD_GET_RPM nr 2"
    and wr_ok_pwm: "wr_ok 1"
    and inv_arrays: "inv d \<Longrightarrow> fan_arrays d"
    and inv_pwm: "inv d \<Longrightarrow> length p = FAN_MAX_NUM \<Longrightarrow> inv (d\<lparr>pwm := p\<rparr>)"
    and inv_enabled: "inv d \<Longrightarrow> length p = FAN_MAX_NUM \<Longrightarrow> inv (d\<lparr>pwm_enabled := p\<rparr>)"
begin

definition good :: "'b fan_data \<Rightarrow> bool" where
  "good d \<longleftrightarrow> inv d \<and> flags_ok d"

lemma show_fan_good:
  assumes "good d" "1 \<le> nr" "nr \<le> int FAN_MAX_NUM"
  shows "\<exists>r s d'. show_fan rd stk nr d = Inr (r, s, d') \<and> good d'"
proof -
  obtain r b d' where "fan_read rd FAN_CMD_GET_RPM nr [fst stk, snd stk] d = Inr (r, b, d')" "inv d'"
    "pwm_enabled d' = pwm_enabled d"
    using fan_read_safe [of d FAN_CMD_GET_RPM nr "[fst stk, snd stk]"] assms rd_ok_rpm [of nr]
    by (auto simp: good_def numeral_2_eq_2)
  with assms(1) show ?thesis by (simp add: show_fan_def good_def flags_ok_def Let_def)
qed

lemma show_pwm_good:
  assumes "good d" "1 \<le> nr" "nr \<le> int FAN_MAX_NUM"
  shows "\<exists>r s d'. show_pwm rd stk nr d = Inr (r, s, d') \<and> good d'"
proof -
  obtain r b d' where "fan_read rd FAN_CMD_GET_PWM nr [stk] d = Inr (r, b, d')" "inv d'"
    "pwm_enabled d' = pwm_enabled d"
    using fan_read_safe [of d FAN_CMD_GET_PWM nr "[stk]"] assms rd_ok_pwm [of nr] by (auto simp: good_def)
  with assms(1) show ?thesis by (simp add: show_pwm_def good_def flags_ok_def Let_def)
qed

lemma put_pwm_good:
  assumes "good d" "1 \<le> nr" "nr \<le> int FAN_MAX_NUM"
  shows "\<exists>d'. put_pwm nr x d = Inr d' \<and> good d'"
  using assms inv_arrays [of d] inv_pwm [of d] by (simp add: put_pwm_def good_def fan_arrays_def flags_ok_def)

lemma set_pwm_good:
  assumes "good d" "1 \<le> nr" "nr \<le> int FAN_MAX_NUM"
  shows "\<exists>r d'. set_pwm kstr nr buf d = Inr (r, d') \<and> good d'"
  using assms put_pwm_good [OF assms] by (fastforce simp: set_pwm_def split: sum.split)

lemma show_enable_good:
  assumes "good d" "1 \<le> nr" "nr \<le> int FAN_MAX_NUM"
  shows "\<exists>r s. show_pwm_enable nr d = Inr (r, s, d)"
  using assms inv_arrays [of d] by (simp add: show_pwm_enable_def good_def fan_arrays_def Let_def)

lemma set_enable_good:
  assumes "good d" "1 \<le> nr" "nr \<le> int FAN_MAX_NUM"
  shows "\<exists>r d'. set_pwm_enable kstr nr buf d = Inr (r, d') \<and> good d'"
  using assms inv_arrays [of d] inv_enabled [of d] flags_ok_update [of d]
  by (simp add: set_pwm_enable_def good_def fan_arrays_def split: sum.split)

text \<open>One round of the work callback, and the whole loop.\<close>

lemma update_pwm_good:
  assumes "good d"
  shows "\<exists>d'. update_pwm wr nr x d = Inr d' \<and> good d' \<and> pwm d' = pwm d \<and> attempts d' \<le> attempts d + FAN_FAIL_MAX_RETRY"
proof -
  obtain r b d' where "fan_write wr FAN_CMD_SET_PWM nr [of_nat (clamp_val (unat x) 0 255)] d = Inr (r, b, d')" "inv d'"
    "pwm d' = pwm d" "pwm_enabled d' = pwm_enabled d" "attempts d' \<le> attempts d + FAN_FAIL_MAX_RETRY"
    using fan_write_safe [of d "[of_nat (clamp_val (unat x) 0 255)]" FAN_CMD_SET_PWM nr] assms wr_ok_pwm
    by (auto simp: good_def)
  with assms show ?thesis by (simp add: update_pwm_def good_def flags_ok_def)
qed

lemma update_list_good:
  assumes "good d" "\<forall>nr \<in> set nrs. 1 \<le> nr \<and> nr \<le> int FAN_MAX_NUM"
  shows "\<exists>d'. run_steps (\<lambda>d nr. rbind (pwm_at nr d) (\<lambda>v. update_pwm wr nr v d)) d nrs = Inr d' \<and> good d' \<and>
    pwm d' = pwm d \<and> attempts d' \<le> attempts d + length nrs * FAN_FAIL_MAX_RETRY"
  using assms
proof (induction nrs arbitrary: d)
  case Nil
  then show ?case by simp
next
  case (Cons nr nrs)
  obtain x where x: "pwm_at nr d = Inr x"
    using Cons.prems inv_arrays [of d] by (simp add: pwm_at_def good_def fan_arrays_def)
  obtain d1 where d1: "update_pwm wr nr x d = Inr d1" "good d1" "pwm d1 = pwm d" "attempts d1 \<le> attempts d + FAN_FAIL_MAX_RETRY"
    using update_pwm_good [OF Cons.prems(1)] by blast
  obtain d' where "run_steps (\<lambda>d nr. rbind (pwm_at nr d) (\<lambda>v. update_pwm wr nr v d)) d1 nrs = Inr d'" "good d'"
    "pwm d' = pwm d1" "attempts d' \<le> attempts d1 + length nrs * FAN_FAIL_MAX_RETRY"
    using Cons.IH [OF d1(2)] Cons.prems(2) by auto
  with x d1 show ?case by simp
qed

lemma update_all_good:
  assumes "good d" "n \<le> int FAN_MAX_NUM"
  shows "\<exists>d'. update_all wr n d = Inr d' \<and> good d' \<and> pwm d' = pwm d \<and> attempts d' \<le> attempts d + nat n * FAN_FAIL_MAX_RETRY"
  using update_list_good [OF assms(1), of "[1..n]"] assms(2) by (simp add: update_all_def)

lemma work_good:
  assumes "good (fdata v)" "n \<le> int FAN_MAX_NUM"
  shows "\<exists>v'. fan_update_pwm_work_callback wr n v = Inr v' \<and> good (fdata v') \<and> works v' = works v \<and>
    work_allocs v' = work_allocs v - 1 \<and> workqueue v' = workqueue v \<and> pwm_timer v' = pwm_timer v"
  using update_all_good [OF assms] by (auto simp: fan_update_pwm_work_callback_def)

lemma step_good:
  assumes "fan_wf inv v" "n \<le> int FAN_MAX_NUM" "ev_ok n e" "\<not> starved e"
  shows "\<exists>v'. fan_step rd wr kstr n v e = Inr v' \<and> fan_wf inv v'"
proof -
  have g: "good (fdata v)" using assms(1) by (simp add: fan_wf_def good_def)
  show ?thesis
  proof (cases e)
    case (Ev_show_fan stk nr)
    then show ?thesis using show_fan_good [OF g, of nr stk] assms by (auto simp: on_data_def fan_wf_def good_def)
  next
    case (Ev_show_pwm stk nr)
    then show ?thesis using show_pwm_good [OF g, of nr stk] assms by (auto simp: on_data_def fan_wf_def good_def)
  next
    case (Ev_set_pwm nr buf)
    then show ?thesis using set_pwm_good [OF g, of nr kstr buf] assms by (auto simp: on_data_def fan_wf_def good_def)
  next
    case (Ev_show_pwm_enable nr)
    then show ?thesis using show_enable_good [OF g, of nr] assms by (auto simp: on_data_def fan_wf_def good_def)
  next
    case (Ev_set_pwm_enable nr buf)
    then show ?thesis using set_enable_good [OF g, of nr kstr buf] assms by (auto simp: on_data_def fan_wf_def good_def)
  next
    case (Ev_timer ok j p)
    then show ?thesis using assms by (simp add: fan_update_pwm_timer_callback_def fan_wf_def)
  next
    case Ev_work
    then show ?thesis
      using work_good [of "v\<lparr>works := works v - 1\<rparr>" n] g assms(1,2) by (auto simp: fan_wf_def good_def)
  qed
qed

text \<open>The whole fate of a sequence of events: it runs through unless an allocation of the timer fails.\<close>

lemma run_outcome:
  assumes "fan_wf inv v" "n \<le> int FAN_MAX_NUM" "list_all (ev_ok n) es"
  shows "if list_ex starved es then run_steps (fan_step rd wr kstr n) v es = Inl NullDeref
    else \<exists>v'. run_steps (fan_step rd wr kstr n) v es = Inr v' \<and> fan_wf inv v'"
  using assms
proof (induction es arbitrary: v)
  case (Cons e es)
  show ?case
  proof (cases "starved e")
    case True
    then obtain j p where "e = Ev_timer False j p" by (cases e) auto
    then show ?thesis using Cons.prems(1) by (auto simp: fan_update_pwm_timer_callback_def fan_wf_def)
  next
    case False
    with Cons.prems obtain u where "fan_step rd wr kstr n v e = Inr u" "fan_wf inv u" using step_good [of v n e kstr] by auto
    with False Cons show ?thesis by simp
  qed
qed simp

lemma flush_good:
  assumes "good (fdata v)" "n \<le> int FAN_MAX_NUM" "works v = k" "work_allocs v = k"
  shows "\<exists>v'. flush_works k (fan_update_pwm_work_callback wr n) v = Inr v' \<and> good (fdata v') \<and> works v' = 0 \<and>
    work_allocs v' = 0 \<and> workqueue v' = workqueue v \<and> pwm_timer v' = pwm_timer v"
  using assms
proof (induction k arbitrary: v)
  case 0
  then show ?case by simp
next
  case (Suc k)
  obtain v1 where v1: "fan_update_pwm_work_callback wr n (v\<lparr>works := works v - 1\<rparr>) = Inr v1" "good (fdata v1)"
    "works v1 = k" "work_allocs v1 = k" "workqueue v1 = workqueue v" "pwm_timer v1 = pwm_timer v"
    using work_good [of "v\<lparr>works := works v - 1\<rparr>" n] Suc.prems by auto
  then show ?case using Suc.IH [OF v1(2) Suc.prems(2) v1(3,4)] by simp
qed

lemma remove_good:
  assumes "fan_wf inv v" "n \<le> int FAN_MAX_NUM"
  shows "\<exists>v'. fan_remove wr n v = Inr v' \<and> works v' = 0 \<and> work_allocs v' = 0 \<and> \<not> workqueue v' \<and> pwm_timer v' = None"
  using flush_good [of "v\<lparr>pwm_timer := None\<rparr>" n "works v"] assms by (auto simp: fan_remove_def fan_wf_def good_def)

lemma init_good:
  assumes "good d" "n \<le> int FAN_MAX_NUM"
  shows "\<exists>d'. fan_pwm_init n d = Inr d' \<and> good d'"
proof -
  have "\<exists>d'. run_steps (\<lambda>d nr. put_pwm nr 0x4C d) d nrs = Inr d' \<and> good d'"
    if "good d" "\<forall>nr \<in> set nrs. 1 \<le> nr \<and> nr \<le> int FAN_MAX_NUM" for nrs d
    using that
  proof (induction nrs arbitrary: d)
    case (Cons nr nrs)
    obtain d1 where "put_pwm nr 0x4C d = Inr d1" "good d1" using put_pwm_good [OF Cons.prems(1), of nr] Cons.prems(2) by auto
    with Cons show ?case by simp
  qed simp
  with assms show ?thesis by (simp add: fan_pwm_init_def)
qed

text \<open>A number of fans beyond the arrays.\<close>

lemma update_list_faults:
  assumes "good d" "\<forall>nr \<in> set nrs. 1 \<le> nr \<and> nr \<le> int FAN_MAX_NUM" "int FAN_MAX_NUM < m"
  shows "run_steps (\<lambda>d nr. rbind (pwm_at nr d) (\<lambda>v. update_pwm wr nr v d)) d (nrs @ m # ms) = Inl OutOfBounds"
proof -
  obtain d' where d': "run_steps (\<lambda>d nr. rbind (pwm_at nr d) (\<lambda>v. update_pwm wr nr v d)) d nrs = Inr d'" "good d'"
    using update_list_good [OF assms(1,2)] by blast
  have "pwm_at m d' = Inl OutOfBounds"
    using inv_arrays [of d'] d'(2) assms(3) by (simp add: pwm_at_def good_def fan_arrays_def)
  with d' show ?thesis by (simp add: run_steps_append)
qed

lemma work_faults:
  assumes "good (fdata v)" "int FAN_MAX_NUM < n"
  shows "fan_update_pwm_work_callback wr n v = Inl OutOfBounds"
proof -
  have "[1..n] = [1..int FAN_MAX_NUM] @ (int FAN_MAX_NUM + 1) # [int FAN_MAX_NUM + 2..n]"
    using upto_split1 [of 1 "int FAN_MAX_NUM + 1" n] upto_rec1 [of "int FAN_MAX_NUM + 1" n] assms(2)
    by (simp add: FAN_MAX_NUM_def)
  then show ?thesis
    using update_list_faults [OF assms(1), of "[1..int FAN_MAX_NUM]" "int FAN_MAX_NUM + 1" "[int FAN_MAX_NUM + 2..n]"]
    by (simp add: fan_update_pwm_work_callback_def update_all_def)
qed

end

text \<open>A device driven by events is a safe step function in the sense of the prelude.\<close>

sublocale fan_driver \<subseteq> steps: safe_steps "fan_step rd wr kstr n" "\<lambda>v. n \<le> int FAN_MAX_NUM \<and> fan_wf inv v"
    "\<lambda>e. ev_ok n e \<and> \<not> starved e" for kstr n
  by unfold_locales (use step_good in blast)

interpretation virt_driver: fan_driver virt_fan_read virt_fan_write fan_arrays virt_rd_ok "\<lambda>n. True"
  by unfold_locales (simp_all add: virt_rd_ok_def fan_arrays_def fan_cmds)

interpretation i2c_driver: fan_driver "i2c_fan_read I" "i2c_fan_write I" "i2c_inv I" i2c_rd_ok i2c_wr_ok for I
  by unfold_locales (simp_all add: i2c_rd_ok_def i2c_wr_ok_def i2c_inv_def fan_arrays_def fan_sizes)

section \<open>Probe\<close>

definition attr_table :: "nat \<Rightarrow> nat \<Rightarrow> sensor_device_attribute option list" where
  "attr_table k n = concat (map (\<lambda>i. [Some (fan_attr i), Some (pwm_attr i), Some (pwm_enable_attr i)]) [0..<k]) @
     replicate (3 * (n - k) + 1) None"

lemma length_triples [simp]: "length (concat (map (\<lambda>i. [f i, g i, h i]) [0..<k])) = 3 * k"
  by (induction k) simp_all

lemma add_fan_attrs_step:
  assumes "k < n"
  shows "add_fan_attrs alloc (Inr (attr_table k n)) k =
    Inr (if list_all alloc [2 + 6 * k..<8 + 6 * k] then Inr (attr_table (Suc k) n) else Inl (- ENOMEM))"
proof -
  obtain m where m: "n - k = Suc m" using assms by (cases "n - k") auto
  then have m': "n - Suc k = m" by simp
  have rep: "replicate (3 * (n - k) + 1) (None :: sensor_device_attribute option) = None # None # None # replicate (3 * m + 1) None"
    by (simp add: m numeral_eq_Suc)
  have al: "list_all alloc [2 + 6 * k..<8 + 6 * k] \<longleftrightarrow> alloc (2 + 6 * k) \<and> alloc (3 + 6 * k) \<and> alloc (4 + 6 * k) \<and>
      alloc (5 + 6 * k) \<and> alloc (6 + 6 * k) \<and> alloc (7 + 6 * k)"
    by (simp add: upt_rec [of _ "8 + 6 * k"] upt_conv_Cons numeral_eq_Suc)
  have ix: "2 + 2 * (k * FAN_ITEM_NUM) = 2 + 6 * k" "3 + 2 * (k * FAN_ITEM_NUM) = 3 + 6 * k"
    "2 + 2 * (k * FAN_ITEM_NUM + 1) = 4 + 6 * k" "3 + 2 * (k * FAN_ITEM_NUM + 1) = 5 + 6 * k"
    "2 + 2 * (k * FAN_ITEM_NUM + 2) = 6 + 6 * k" "3 + 2 * (k * FAN_ITEM_NUM + 2) = 7 + 6 * k"
    by (simp_all add: FAN_ITEM_NUM_def)
  show ?thesis
    unfolding al attr_table_def rep m' add_fan_attrs_def FAN_ADD_SENSOR_ATTR_def ix
    by (simp add: FAN_ITEM_NUM_def list_update_append mult.commute [of k])
qed

lemma add_attrs_loop:
  "k \<le> n \<Longrightarrow> run_steps (add_fan_attrs alloc) (Inr (attr_table 0 n)) [0..<k] =
    Inr (if list_all alloc [2..<2 + 6 * k] then Inr (attr_table k n) else Inl (- ENOMEM))"
proof (induction k)
  case 0
  then show ?case by simp
next
  case (Suc k)
  have "[2..<2 + 6 * Suc k] = [2..<2 + 6 * k] @ [2 + 6 * k..<8 + 6 * k]"
    using upt_add_eq_append [of 2 "2 + 6 * k" 6] by simp
  moreover have "add_fan_attrs alloc (Inl e) k = Inr (Inl e)" for e
    by (simp add: add_fan_attrs_def FAN_ADD_SENSOR_ATTR_def)
  ultimately show ?case
    using Suc add_fan_attrs_step [of k n alloc] by (simp add: run_steps_append)
qed

lemma pwm_init_loop:
  "k \<le> length (pwm d) \<Longrightarrow> fan_pwm_init (int k) d = Inr (d\<lparr>pwm := replicate k 0x4C @ drop k (pwm d)\<rparr>)"
proof (induction k)
  case 0
  then show ?case by (simp add: fan_pwm_init_def)
next
  case (Suc k)
  have "[1..int (Suc k)] = [1..int k] @ [int k + 1]" by (simp add: upto_rec2 add.commute)
  moreover have "(replicate k 0x4C @ drop k (pwm d))[k := 0x4C] = replicate (Suc k) 0x4C @ drop (Suc k) (pwm d)"
    using Suc.prems Cons_nth_drop_Suc [of k "pwm d"] by (simp add: list_update_append replicate_append_same [symmetric])
      (metis list_update_code(2))
  ultimately show ?case using Suc by (simp add: fan_pwm_init_def run_steps_append put_pwm_def nat_add_distrib)
qed

lemma fan_probe_eq:
  "fan_probe alloc hwmon wq_ok num_fans jiffies period client = Inr (
     let n = nat num_fans;
         d = \<lparr>pwm = replicate 16 0, pwm_enabled = replicate 16 0, bus = client, attempts = 0, delays = 0\<rparr>
     in if num_fans < 1 \<or> 16 < num_fans then (- EINVAL, None)
     else if \<not> list_all alloc [0..<2 + 6 * n] then (- ENOMEM, None)
     else if hwmon < 0 then (hwmon, None)
     else if \<not> wq_ok then (- ENOMEM, Some \<lparr>fdata = d, attrs = attr_table n n, workqueue = False, works = 0,
       work_allocs = 0, pwm_timer = None\<rparr>)
     else (0, Some \<lparr>fdata = d\<lparr>pwm := replicate n 0x4C @ replicate (16 - n) 0\<rparr>, attrs = attr_table n n,
       workqueue = True, works = 0, work_allocs = 0, pwm_timer = Some (jiffies + period)\<rparr>))"
proof (cases "num_fans < 1 \<or> 16 < num_fans")
  case True
  then show ?thesis by (auto simp: fan_probe_def FAN_MAX_NUM_def)
next
  case False
  define n where "n = nat num_fans"
  have n: "num_fans = int n" "1 \<le> n" "n \<le> 16" using False by (auto simp: n_def)
  have t0: "replicate (n * FAN_ITEM_NUM + 1) None = attr_table 0 n" by (simp add: attr_table_def FAN_ITEM_NUM_def mult.commute)
  have "[0..<2 + 6 * n] = [0..<2] @ [2..<2 + 6 * n]" by (rule upt_add_eq_append) simp
  moreover have "[0..<2] = [0, 1 :: nat]" by (simp add: upt_rec)
  ultimately have al: "list_all alloc [0..<2 + 6 * n] \<longleftrightarrow> alloc 0 \<and> alloc 1 \<and> list_all alloc [2..<2 + 6 * n]" by simp
  show ?thesis
    unfolding fan_probe_def n(1) nat_int t0 add_attrs_loop [OF order_refl] Let_def al
    using n(2,3) by (simp add: FAN_MAX_NUM_def fan_init_def pwm_init_loop del: upt_Suc)
qed

text \<open>
  C28: What a probe returns, for every number of fans and every outcome of the kernel's services: an
  unsuitable number of fans is refused; any failed allocation gives \<^verbatim>\<open>-ENOMEM\<close>; on success
  there are three attributes per fan, in order and ended by a null entry, the first fans run at 0x4c and
  the timer is armed.
\<close>

theorem fan_probe_spec:
  "fan_probe alloc hwmon wq_ok num_fans jiffies period client = Inr (
     let n = nat num_fans;
         d = \<lparr>pwm = replicate 16 0, pwm_enabled = replicate 16 0, bus = client, attempts = 0, delays = 0\<rparr>
     in if num_fans < 1 \<or> 16 < num_fans then (- EINVAL, None)
     else if \<not> list_all alloc [0..<2 + 6 * n] then (- ENOMEM, None)
     else if hwmon < 0 then (hwmon, None)
     else if \<not> wq_ok then (- ENOMEM, Some \<lparr>fdata = d, attrs = attr_table n n, workqueue = False, works = 0,
       work_allocs = 0, pwm_timer = None\<rparr>)
     else (0, Some \<lparr>fdata = d\<lparr>pwm := replicate n 0x4C @ replicate (16 - n) 0\<rparr>, attrs = attr_table n n,
       workqueue = True, works = 0, work_allocs = 0, pwm_timer = Some (jiffies + period)\<rparr>))"
  by (rule fan_probe_eq)

lemma probe_wf:
  assumes "fan_probe alloc hwmon wq_ok n j p client = Inr (0, Some v)"
  shows "n \<le> int FAN_MAX_NUM \<and> fan_wf fan_arrays v \<and> (length (stack I) = BUFFER_SIZE \<longrightarrow> fan_wf (i2c_inv I) v)"
  using assms unfolding fan_probe_eq
  by (auto simp: Let_def fan_wf_def fan_arrays_def flags_ok_def i2c_inv_def FAN_MAX_NUM_def errno_defs list_all_iff
      split: if_splits)

lemma sample_probe:
  "\<exists>v. fan_probe (\<lambda>k. True) 0 True 3 0 250 [] = Inr (0, Some (v :: u8 list fan_dev))"
  by (simp add: fan_probe_eq list_all_iff)

section \<open>Safety of a probed device\<close>

text \<open>
  C3: After a successful probe, take any sequence of accesses to the attributes it offers, timer expiries and work items, on either
  transport, whatever text is written and whatever the bus answers. If the timer's allocations succeed, the sequence runs without a
  fault and the device stays well formed: both arrays keep their 16 entries, every enable flag is 0 or 1, every allocated work structure is
  queued exactly once, the timer stays armed, and no access is out of bounds. If one of these allocations fails, the timer callback
  dereferences a null pointer; there is no other fault.
\<close>

theorem fan_device_safe:
  assumes probe: "fan_probe alloc hwmon wq_ok n j p client = Inr (0, Some v)" and es: "list_all (ev_ok n) es"
    and st: "length (stack I) = BUFFER_SIZE"
  shows "if list_ex starved es
    then run_steps (fan_step virt_fan_read virt_fan_write kstr n) v es = Inl NullDeref \<and>
      run_steps (fan_step (i2c_fan_read I) (i2c_fan_write I) kstr n) v es = Inl NullDeref
    else (\<exists>v'. run_steps (fan_step virt_fan_read virt_fan_write kstr n) v es = Inr v' \<and> fan_wf fan_arrays v') \<and>
      (\<exists>v'. run_steps (fan_step (i2c_fan_read I) (i2c_fan_write I) kstr n) v es = Inr v' \<and> fan_wf (i2c_inv I) v')"
proof -
  note wf = probe_wf [OF probe, of I]
  then show ?thesis
    using virt_driver.run_outcome [of v n es kstr] i2c_driver.run_outcome [of I v n es kstr] es st by (auto split: if_splits)
qed

theorem fan_device_safe_witness:
  "(\<exists>v v'. run_steps (fan_step (i2c_fan_read sample_bus) (i2c_fan_write sample_bus) (\<lambda>s. Inr (undecimal s)) 3) v
    [Ev_set_pwm 2 ''300'', Ev_timer True 7 250, Ev_work, Ev_show_fan (0, 0) 2] = Inr v' \<and> fan_wf (i2c_inv sample_bus) v') \<and>
   (\<exists>v. run_steps (fan_step (i2c_fan_read sample_bus) (i2c_fan_write sample_bus) (\<lambda>s. Inr (undecimal s)) 3) v
    [Ev_set_pwm 2 ''300'', Ev_timer False 7 250, Ev_work] = Inl NullDeref)"
proof -
  obtain v where "fan_probe (\<lambda>k. True) 0 True 3 0 250 [] = Inr (0, Some (v :: u8 list fan_dev))"
    using sample_probe by blast
  note v = this
  let ?es = "[Ev_set_pwm 2 ''300'', Ev_timer True 7 250, Ev_work, Ev_show_fan (0, 0) 2]"
    and ?fs = "[Ev_set_pwm 2 ''300'', Ev_timer False 7 250, Ev_work]"
  have es: "list_all (ev_ok 3) ?es" "\<not> list_ex starved ?es" "list_all (ev_ok 3) ?fs" "list_ex starved ?fs" by simp_all
  show ?thesis
    using fan_device_safe [OF v es(1) sample_bus_laws(3), of "\<lambda>s. Inr (undecimal s)"]
      fan_device_safe [OF v es(3) sample_bus_laws(3), of "\<lambda>s. Inr (undecimal s)"] es(2,4) by (metis (lifting))
qed

text \<open>
  Removing the device after any such sequence ends, runs the queued work, frees every work structure,
  and leaves neither an armed timer nor a workqueue.
\<close>

theorem fan_remove_releases:
  assumes probe: "fan_probe alloc hwmon wq_ok n j p client = Inr (0, Some v)" and es: "list_all (ev_ok n) es"
    and run: "run_steps (fan_step virt_fan_read virt_fan_write kstr n) v es = Inr v1"
  shows "\<exists>v'. fan_remove virt_fan_write n v1 = Inr v' \<and> works v' = 0 \<and> work_allocs v' = 0 \<and> \<not> workqueue v' \<and>
    pwm_timer v' = None"
proof -
  note wf = probe_wf [OF probe]
  then have "fan_wf fan_arrays v1" using virt_driver.run_outcome [of v n es kstr] es run by (auto split: if_splits)
  then show ?thesis using virt_driver.remove_good [of v1 n] wf by blast
qed

theorem fan_remove_releases_witness:
  "\<exists>(v :: u8 list fan_dev) v1 v'. run_steps (fan_step virt_fan_read virt_fan_write (\<lambda>s. Inl (- EINVAL)) 3) v [Ev_timer True 1 250, Ev_timer True 2 250] =
      Inr v1 \<and> works v1 = 2 \<and> fan_remove virt_fan_write 3 v1 = Inr v' \<and> work_allocs v' = 0 \<and> pwm_timer v' = None"
proof -
  obtain v where v: "fan_probe (\<lambda>k. True) 0 True 3 0 250 [] = Inr (0, Some (v :: u8 list fan_dev))"
    using sample_probe by blast
  then have "works v = 0 \<and> pwm_timer v = Some 250" by (auto simp: fan_probe_eq list_all_iff)
  then obtain v1 where run: "run_steps (fan_step virt_fan_read virt_fan_write (\<lambda>s. Inl (- EINVAL)) 3) v
      [Ev_timer True 1 250, Ev_timer True 2 250] = Inr v1" "works v1 = 2"
    by (simp add: fan_update_pwm_timer_callback_def)
  have "list_all (ev_ok 3) [Ev_timer True 1 250, Ev_timer True 2 250]" by simp
  from fan_remove_releases [OF v this run(1)] run show ?thesis by blast
qed

text \<open>
  C40: The module parameter stays writable after the probe. If it is raised above the 16 entries of
  the arrays, the next run of the work reads past their end, on either transport.
\<close>

theorem fan_param_overruns:
  assumes probe: "fan_probe alloc hwmon wq_ok n j p client = Inr (0, Some v)" and raised: "16 < m"
    and st: "length (stack I) = BUFFER_SIZE"
  shows "fan_update_pwm_work_callback virt_fan_write m v = Inl OutOfBounds \<and>
    fan_update_pwm_work_callback (i2c_fan_write I) m v = Inl OutOfBounds"
  using probe_wf [OF probe, of I] raised st virt_driver.work_faults [of v m] i2c_driver.work_faults [of I v m]
  by (simp add: fan_wf_def virt_driver.good_def i2c_driver.good_def FAN_MAX_NUM_def)

theorem fan_param_overruns_witness:
  "\<exists>v :: u8 list fan_dev. fan_update_pwm_work_callback virt_fan_write 17 v = Inl OutOfBounds"
proof -
  obtain v where "fan_probe (\<lambda>k. True) 0 True 3 0 250 [] = Inr (0, Some (v :: u8 list fan_dev))"
    using sample_probe by blast
  from fan_param_overruns [OF this _ sample_bus_laws(3), of 17] show ?thesis by auto
qed

section \<open>What a user of the attributes sees\<close>

lemma pwm_at_put: "put_pwm nr x d = Inr d1 \<Longrightarrow> pwm_at nr d1 = Inr x"
  by (auto simp: put_pwm_def pwm_at_def split: if_splits)

lemma u16_bytes:
  assumes "n < 65536"
  shows "unat (ucast ((of_nat n :: u16) AND 0xFF) :: u8) + 256 * unat (ucast (drop_bit 8 (of_nat n :: u16)) :: u8) = n"
proof -
  have "(of_nat n :: u16) AND 0xFF = take_bit 8 (of_nat n)" by (simp add: take_bit_eq_mask mask_eq_exp_minus_1)
  then have "unat (ucast ((of_nat n :: u16) AND 0xFF) :: u8) = n mod 256"
    using assms by (simp add: unsigned_ucast_eq unsigned_take_bit_eq unsigned_of_nat take_bit_nat_def)
  moreover have "unat (ucast (drop_bit 8 (of_nat n :: u16)) :: u8) = n div 256"
    using assms by (simp add: unsigned_ucast_eq unsigned_drop_bit_eq unsigned_of_nat take_bit_nat_def drop_bit_nat_def)
  ultimately show ?thesis by simp
qed

lemma virt_shows:
  assumes "pwm_at nr d = Inr x"
  shows "show_pwm virt_fan_read s nr d = Inr (int (length (line_of (unat x))), line_of (unat x), d)"
    and "show_fan virt_fan_read t nr d =
      Inr (int (length (line_of (unat x * 5000 div 255))), line_of (unat x * 5000 div 255), d)"
proof -
  have "fan_read virt_fan_read FAN_CMD_GET_PWM nr [s] d = Inr (0, [x], d)"
    unfolding fan_read_def by (rule retry_first) (simp add: virt_fan_read_def assms)
  then show "show_pwm virt_fan_read s nr d = Inr (int (length (line_of (unat x))), line_of (unat x), d)"
    by (simp add: show_pwm_def Let_def)
  let ?rpm = "of_nat (unat x * 5000 div 255) :: u16"
  have "fan_read virt_fan_read FAN_CMD_GET_RPM nr [fst t, snd t] d =
      Inr (0, [ucast (?rpm AND 0xFF), ucast (drop_bit 8 ?rpm)], d)"
    unfolding fan_read_def
    by (rule retry_first) (simp add: virt_fan_read_def assms fan_cmds fan_sizes Let_def)
  moreover have "unat x * 5000 div 255 < 65536" using unat_bounds(1) [of x] by (simp add: div_less_iff_less_mult)
  ultimately show "show_fan virt_fan_read t nr d =
      Inr (int (length (line_of (unat x * 5000 div 255))), line_of (unat x * 5000 div 255), d)"
    using u16_bytes [of "unat x * 5000 div 255"] by (simp add: show_fan_def Let_def)
qed

text \<open>
  C14: With the virtual transport, a number written to a fan's pwm file is accepted, limited to 255, and
  read back from that file; the fan's input file then shows the corresponding share of 5000 turns, and no
  other fan changes.
\<close>

theorem pwm_round_trip:
  assumes law: "kstr (line_of k) = Inr k" and nr: "1 \<le> nr" "nr \<le> 16" and d: "fan_arrays d"
  shows "\<exists>d'. set_pwm kstr nr (line_of k) d = Inr (int (length (line_of k)), d') \<and>
    show_pwm virt_fan_read s nr d' = Inr (int (length (line_of (min k 255))), line_of (min k 255), d') \<and>
    show_fan virt_fan_read t nr d' =
      Inr (int (length (line_of (min k 255 * 5000 div 255))), line_of (min k 255 * 5000 div 255), d') \<and>
    (\<forall>m. m \<noteq> nr \<longrightarrow> pwm_at m d' = pwm_at m d)"
proof -
  let ?x = "of_nat (min k 255) :: u8"
  have x: "unat ?x = min k 255" by (rule unat_of_nat_small) simp
  obtain d' where d': "put_pwm nr ?x d = Inr d'" "d' = d\<lparr>pwm := (pwm d)[nat (nr - 1) := ?x]\<rparr>"
    using nr d by (simp add: put_pwm_def fan_arrays_def FAN_MAX_NUM_def)
  have "\<forall>m. m \<noteq> nr \<longrightarrow> pwm_at m d' = pwm_at m d" using nr by (auto simp: d'(2) pwm_at_def nth_list_update)
  with virt_shows(1) [OF pwm_at_put [OF d'(1)], of s] virt_shows(2) [OF pwm_at_put [OF d'(1)], of t] d'(1) law
  show ?thesis by (simp add: x set_pwm_def clamp_val_def)
qed

theorem pwm_round_trip_witness:
  "\<exists>d'. set_pwm (\<lambda>s. Inr (undecimal (butlast s))) 2 (line_of 300) sample_fan = Inr (4, d') \<and>
    show_pwm virt_fan_read 0 2 d' = Inr (4, ''255'' @ [newline], d') \<and>
    show_fan virt_fan_read (0, 0) 2 d' = Inr (5, ''5000'' @ [newline], d')"
proof -
  have dec: "decimal 300 = ''300''" "decimal 255 = ''255''" "decimal 5000 = ''5000''"
    by (simp_all add: decimal.simps char_of_def bit_iff_odd)
  have "undecimal ''300'' = 300" using undecimal_decimal [of 300] by (simp add: dec)
  then show ?thesis
    using pwm_round_trip [of "\<lambda>s. Inr (undecimal (butlast s))" 300 2 sample_fan 0 "(0, 0)"]
    by (auto simp: line_of_def sample_fan_def fan_arrays_def FAN_MAX_NUM_def dec)
qed

end
