(* ===== verification/Fan_Locks.thy ===== *)
theory Fan_Locks
  imports Fan_Safety
begin

text \<open>
  The two mutexes of the fan driver, \<^verbatim>\<open>mcu_lock\<close> and \<^verbatim>\<open>pwm_buf_lock\<close>, under
  interleaving: every entry point is the sequence of its lock operations and of its accesses to what the threads share, and any number
  of threads run such sequences step by step. No two threads get at the same pwm entry or at the bus together; with the I2C transport
  the threads always come to an end; with the virtual transport a reader and the work item can block each other forever.
\<close>

section \<open>Lock operations and accesses of the entry points\<close>

datatype lock = Mcu_lock | Pwm_buf_lock

text \<open>What the threads share: an entry of \<^verbatim>\<open>pwm\<close>, one of \<^verbatim>\<open>pwm_enabled\<close>, and the I2C bus.\<close>

datatype shared = Pwm_entry nat | Enable_entry nat | I2c_bus

datatype lock_op = Lock lock | Unlock lock | Access shared

text \<open>
  One call of the transport. The virtual one reads the entry under its lock and writes nothing; the one for I2C sends, and a read whose
  sending succeeds transfers once more.
\<close>

definition virt_read_locks :: "nat \<Rightarrow> lock_op list" where
  "virt_read_locks nr = [Lock Pwm_buf_lock, Access (Pwm_entry nr), Unlock Pwm_buf_lock]"

definition virt_write_locks :: "lock_op list" where
  "virt_write_locks = []"

definition i2c_read_locks :: "bool \<Rightarrow> lock_op list" where
  "i2c_read_locks sent = [Access I2c_bus] @ (if sent then [Access I2c_bus] else [])"

definition i2c_write_locks :: "lock_op list" where
  "i2c_write_locks = [Access I2c_bus]"

text \<open>
  \<^verbatim>\<open>fan_read\<close> and \<^verbatim>\<open>fan_write\<close> around the calls of the transport that their loops make, and the possible
  lists of these calls.
\<close>

definition fan_read_locks :: "lock_op list list \<Rightarrow> lock_op list" where
  "fan_read_locks tries = [Lock Mcu_lock] @ concat tries @ [Unlock Mcu_lock]"

definition fan_write_locks :: "lock_op list list \<Rightarrow> lock_op list" where
  "fan_write_locks tries = [Lock Mcu_lock] @ concat tries @ [Unlock Mcu_lock]"

definition tries_of :: "lock_op list set \<Rightarrow> lock_op list list set" where
  "tries_of A = {tries. set tries \<subseteq> A \<and> 0 < length tries \<and> length tries \<le> FAN_FAIL_MAX_RETRY}"

definition set_pwm_locks :: "nat \<Rightarrow> lock_op list" where
  "set_pwm_locks nr = [Lock Pwm_buf_lock, Access (Pwm_entry nr), Unlock Pwm_buf_lock]"

text \<open>The enable flags are read and written without a lock.\<close>

definition pwm_enable_locks :: "nat \<Rightarrow> lock_op list" where
  "pwm_enable_locks nr = [Access (Enable_entry nr)]"

definition fan_pwm_init_locks :: "nat \<Rightarrow> lock_op list" where
  "fan_pwm_init_locks num_fans = [Lock Pwm_buf_lock] @ map (\<lambda>nr. Access (Pwm_entry nr)) [1..<num_fans + 1] @ [Unlock Pwm_buf_lock]"

text \<open>The work item; \<open>tries\<close> has the calls of the transport for each fan in turn.\<close>

definition work_round :: "nat \<times> lock_op list list \<Rightarrow> lock_op list" where
  "work_round w = Access (Pwm_entry (fst w)) # fan_write_locks (snd w)"

definition work_locks :: "lock_op list list list \<Rightarrow> lock_op list" where
  "work_locks tries = [Lock Pwm_buf_lock] @ concat (map work_round (zip [1..<length tries + 1] tries)) @ [Unlock Pwm_buf_lock]"

text \<open>The programs of the threads, with each transport; a virtual transport succeeds at once.\<close>

definition common_programs :: "lock_op list set" where
  "common_programs = range set_pwm_locks \<union> range pwm_enable_locks \<union> range fan_pwm_init_locks"

definition virt_programs :: "lock_op list set" where
  "virt_programs = common_programs \<union> range (\<lambda>nr. fan_read_locks [virt_read_locks nr]) \<union>
     range (\<lambda>n. work_locks (replicate n [virt_write_locks]))"

definition i2c_programs :: "lock_op list set" where
  "i2c_programs = common_programs \<union> fan_read_locks ` tries_of (range i2c_read_locks) \<union>
     work_locks ` {tries. set tries \<subseteq> tries_of {i2c_write_locks}}"

section \<open>Interleaving\<close>

type_synonym lock_state = "lock_op list list \<times> (lock \<Rightarrow> nat option)"

inductive lock_step :: "lock_state \<Rightarrow> lock_state \<Rightarrow> bool" where
  acquire: "i < length ps \<Longrightarrow> ps ! i = Lock l # as \<Longrightarrow> ow l = None \<Longrightarrow> lock_step (ps, ow) (ps[i := as], ow(l := Some i))"
| release: "i < length ps \<Longrightarrow> ps ! i = Unlock l # as \<Longrightarrow> ow l = Some i \<Longrightarrow> lock_step (ps, ow) (ps[i := as], ow(l := None))"
| access: "i < length ps \<Longrightarrow> ps ! i = Access x # as \<Longrightarrow> lock_step (ps, ow) (ps[i := as], ow)"

inductive_cases lock_stepE: "lock_step (ps, ow) s'"

definition starts :: "lock_op list set \<Rightarrow> lock_state \<Rightarrow> bool" where
  "starts P s \<longleftrightarrow> set (fst s) \<subseteq> P \<and> snd s = (\<lambda>l. None)"

definition finished :: "lock_state \<Rightarrow> bool" where
  "finished s \<longleftrightarrow> (\<forall>p \<in> set (fst s). p = [])"

text \<open>A thread holds a lock if the next thing it does with it is to release it.\<close>

fun holds :: "lock \<Rightarrow> lock_op list \<Rightarrow> bool" where
  "holds l [] = False"
| "holds l (Lock k # as) = (k \<noteq> l \<and> holds l as)"
| "holds l (Unlock k # as) = (k = l \<or> holds l as)"
| "holds l (Access x # as) = holds l as"

text \<open>The lock that guards an object; the enable flags have none.\<close>

fun guard_of :: "shared \<Rightarrow> lock option" where
  "guard_of (Pwm_entry nr) = Some Pwm_buf_lock"
| "guard_of (Enable_entry nr) = None"
| "guard_of I2c_bus = Some Mcu_lock"

text \<open>Locks are taken and released in pairs, and a guarded object is accessed only while its lock is held.\<close>

fun paired :: "lock_op list \<Rightarrow> bool" where
  "paired [] = True"
| "paired (Lock l # as) = (holds l as \<and> paired as)"
| "paired (Unlock l # as) = (\<not> holds l as \<and> paired as)"
| "paired (Access x # as) = ((case guard_of x of None \<Rightarrow> True | Some l \<Rightarrow> holds l as) \<and> paired as)"

text \<open>The order that the code keeps with the I2C transport: the buffer's lock is never taken under the other.\<close>

fun ordered :: "lock_op list \<Rightarrow> bool" where
  "ordered [] = True"
| "ordered (Lock l # as) = ((l = Pwm_buf_lock \<longrightarrow> \<not> holds Mcu_lock as) \<and> ordered as)"
| "ordered (Unlock l # as) = ordered as"
| "ordered (Access x # as) = ordered as"

definition lock_inv :: "lock_state \<Rightarrow> bool" where
  "lock_inv s \<longleftrightarrow> (\<forall>p \<in> set (fst s). paired p) \<and> (\<forall>l i. snd s l = Some i \<longleftrightarrow> i < length (fst s) \<and> holds l (fst s ! i))"

definition ordered_inv :: "lock_state \<Rightarrow> bool" where
  "ordered_inv s \<longleftrightarrow> lock_inv s \<and> (\<forall>p \<in> set (fst s). ordered p)"

definition bus_only :: "lock_op list \<Rightarrow> bool" where
  "bus_only p \<longleftrightarrow> (\<forall>op \<in> set p. op = Access I2c_bus)"

lemma bus_only_simps [simp]:
  "bus_only virt_write_locks" "bus_only (i2c_read_locks sent)" "bus_only i2c_write_locks"
  by (simp_all add: bus_only_def virt_write_locks_def i2c_read_locks_def i2c_write_locks_def)

lemma bus_only_append:
  assumes "bus_only p"
  shows "(holds l (p @ as) \<longleftrightarrow> holds l as) \<and> (ordered (p @ as) \<longleftrightarrow> ordered as) \<and>
    (holds Mcu_lock as \<longrightarrow> (paired (p @ as) \<longleftrightarrow> paired as))"
proof -
  have "holds k (p @ as) \<longleftrightarrow> holds k as" for k using assms by (induction p) (auto simp: bus_only_def)
  then show ?thesis using assms by (induction p) (auto simp: bus_only_def)
qed

lemma bus_tries:
  assumes "list_all bus_only tries"
  shows "holds l (concat tries @ as) \<longleftrightarrow> holds l as" "ordered (concat tries @ as) \<longleftrightarrow> ordered as"
    "holds Mcu_lock as \<Longrightarrow> paired (concat tries @ as) \<longleftrightarrow> paired as"
proof -
  have "bus_only (concat tries)" using assms by (auto simp: bus_only_def list_all_iff)
  from bus_only_append [OF this, of l as] show "holds l (concat tries @ as) \<longleftrightarrow> holds l as"
    "ordered (concat tries @ as) \<longleftrightarrow> ordered as" "holds Mcu_lock as \<Longrightarrow> paired (concat tries @ as) \<longleftrightarrow> paired as"
    by blast+
qed

lemma rounds_shape:
  assumes "\<forall>w \<in> set ws. list_all bus_only (snd w)"
  shows "holds l (concat (map work_round ws) @ [Unlock Pwm_buf_lock]) \<longleftrightarrow> l = Pwm_buf_lock"
    "paired (concat (map work_round ws) @ [Unlock Pwm_buf_lock])"
    "ordered (concat (map work_round ws) @ [Unlock Pwm_buf_lock])"
proof -
  have "(holds l (concat (map work_round ws) @ [Unlock Pwm_buf_lock]) \<longleftrightarrow> l = Pwm_buf_lock) \<and>
      paired (concat (map work_round ws) @ [Unlock Pwm_buf_lock]) \<and> ordered (concat (map work_round ws) @ [Unlock Pwm_buf_lock])" for l
    using assms
  proof (induction ws arbitrary: l)
    case (Cons w ws)
    then have "list_all bus_only (snd w)" by simp
    note tries = bus_tries [OF this]
    show ?case using Cons by (cases l) (simp_all add: work_round_def fan_write_locks_def tries)
  qed auto
  then show "holds l (concat (map work_round ws) @ [Unlock Pwm_buf_lock]) \<longleftrightarrow> l = Pwm_buf_lock"
    "paired (concat (map work_round ws) @ [Unlock Pwm_buf_lock])"
    "ordered (concat (map work_round ws) @ [Unlock Pwm_buf_lock])"
    by blast+
qed

lemma work_locks_shape:
  assumes "set tries \<subseteq> insert [virt_write_locks] (tries_of {i2c_write_locks})"
  shows "paired (work_locks tries)" "ordered (work_locks tries)" "\<not> holds l (work_locks tries)"
proof -
  let ?ws = "zip [1..<length tries + 1] tries"
  have "list_all bus_only (snd w)" if "w \<in> set ?ws" for w
  proof -
    have "snd w \<in> set tries" using that by (metis prod.collapse set_zip_rightD)
    then have "snd w \<in> insert [virt_write_locks] (tries_of {i2c_write_locks})" using assms by blast
    then show ?thesis by (auto simp: tries_of_def list_all_iff)
  qed
  note ws = rounds_shape [of ?ws, OF ballI, OF this]
  show "paired (work_locks tries)" "ordered (work_locks tries)" "\<not> holds l (work_locks tries)"
    using ws by (cases l; simp add: work_locks_def)+
qed

lemma init_holds: "holds l (map (\<lambda>nr. Access (Pwm_entry nr)) nrs @ [Unlock Pwm_buf_lock]) \<longleftrightarrow> l = Pwm_buf_lock"
  by (induction nrs) auto

lemma init_paired:
  "paired (map (\<lambda>nr. Access (Pwm_entry nr)) nrs @ [Unlock Pwm_buf_lock])"
  "ordered (map (\<lambda>nr. Access (Pwm_entry nr)) nrs @ [Unlock Pwm_buf_lock])"
  by (induction nrs) (simp_all add: init_holds)

lemma common_paired: "p \<in> common_programs \<Longrightarrow> paired p \<and> ordered p \<and> \<not> holds l p"
  by (cases l; auto simp: init_holds init_paired common_programs_def set_pwm_locks_def pwm_enable_locks_def fan_pwm_init_locks_def simp del: upt_Suc)

lemma virt_paired: "p \<in> virt_programs \<Longrightarrow> paired p \<and> \<not> holds l p"
proof -
  have read: "paired (fan_read_locks [virt_read_locks nr]) \<and> \<not> holds l (fan_read_locks [virt_read_locks nr])" for nr
    by (cases l; simp add: fan_read_locks_def virt_read_locks_def)
  have work: "paired (work_locks (replicate n [virt_write_locks])) \<and> \<not> holds l (work_locks (replicate n [virt_write_locks]))" for n
    by (intro conjI work_locks_shape) auto
  show "p \<in> virt_programs \<Longrightarrow> paired p \<and> \<not> holds l p"
    using common_paired [of p l] read work by (auto simp: virt_programs_def)
qed

lemma i2c_paired: "p \<in> i2c_programs \<Longrightarrow> paired p \<and> ordered p \<and> \<not> holds l p"
proof -
  have read: "paired (fan_read_locks tries) \<and> ordered (fan_read_locks tries) \<and> \<not> holds l (fan_read_locks tries)"
    if "tries \<in> tries_of (range i2c_read_locks)" for tries
  proof -
    have "list_all bus_only tries" using that by (auto simp: tries_of_def list_all_iff)
    note b = bus_tries [OF this]
    show ?thesis by (cases l; simp add: fan_read_locks_def b)
  qed
  have work: "paired (work_locks tries) \<and> ordered (work_locks tries) \<and> \<not> holds l (work_locks tries)"
    if "set tries \<subseteq> tries_of {i2c_write_locks}" for tries
    using work_locks_shape [of tries] that by blast
  show "p \<in> i2c_programs \<Longrightarrow> paired p \<and> ordered p \<and> \<not> holds l p"
    using common_paired [of p l] read work by (auto simp: i2c_programs_def)
qed

lemma all_update: "\<forall>p \<in> set ps. P p \<Longrightarrow> P q \<Longrightarrow> \<forall>p \<in> set (ps[i := q]). P p"
  using set_update_subset_insert by fastforce

lemma thread_move_inv:
  assumes "\<forall>p \<in> set ps. paired p" "\<forall>l j. ow l = Some j \<longleftrightarrow> j < length ps \<and> holds l (ps ! j)"
    and "i < length ps" "paired q" "\<And>l. ow' l = Some i \<longleftrightarrow> holds l q" "\<And>l j. j \<noteq> i \<Longrightarrow> ow' l = Some j \<longleftrightarrow> ow l = Some j"
  shows "lock_inv (ps[i := q], ow')"
proof -
  have "ow' l = Some j \<longleftrightarrow> j < length ps \<and> holds l (ps[i := q] ! j)" for l j
    using assms(2,3,5,6) by (cases "j = i") simp_all
  then show ?thesis using all_update [OF assms(1,4), of i] by (simp add: lock_inv_def)
qed

lemma step_lock_inv: "lock_step s t \<Longrightarrow> lock_inv s \<Longrightarrow> lock_inv t"
proof (induction rule: lock_step.induct)
  case (acquire i ps l as ow)
  then have inv: "\<forall>p \<in> set ps. paired p" "\<forall>l j. ow l = Some j \<longleftrightarrow> j < length ps \<and> holds l (ps ! j)"
    by (simp_all add: lock_inv_def)
  have "paired (Lock l # as)" using inv(1) acquire(1,2) nth_mem by metis
  moreover have "ow k = Some i \<longleftrightarrow> holds k (Lock l # as)" for k using inv(2) acquire(1,2) by simp
  ultimately show ?case using acquire(3) by (intro thread_move_inv [OF inv acquire(1)]) auto
next
  case (release i ps l as ow)
  then have inv: "\<forall>p \<in> set ps. paired p" "\<forall>l j. ow l = Some j \<longleftrightarrow> j < length ps \<and> holds l (ps ! j)"
    by (simp_all add: lock_inv_def)
  have "paired (Unlock l # as)" using inv(1) release(1,2) nth_mem by metis
  moreover have "ow k = Some i \<longleftrightarrow> holds k (Unlock l # as)" for k using inv(2) release(1,2) by simp
  moreover have "j \<noteq> i \<Longrightarrow> ow l \<noteq> Some j" for j using release(3) by simp
  ultimately show ?case by (intro thread_move_inv [OF inv release(1)]) auto
next
  case (access i ps x as ow)
  then have inv: "\<forall>p \<in> set ps. paired p" "\<forall>l j. ow l = Some j \<longleftrightarrow> j < length ps \<and> holds l (ps ! j)"
    by (simp_all add: lock_inv_def)
  have "paired (Access x # as)" using inv(1) access(1,2) nth_mem by metis
  moreover have "ow k = Some i \<longleftrightarrow> holds k (Access x # as)" for k using inv(2) access(1,2) by simp
  ultimately show ?case by (intro thread_move_inv [OF inv access(1)]) auto
qed

lemma step_ordered: "lock_step s t \<Longrightarrow> \<forall>p \<in> set (fst s). ordered p \<Longrightarrow> \<forall>p \<in> set (fst t). ordered p"
proof -
  have tail: "\<forall>p \<in> set (ps[i := as]). ordered p" if "\<forall>p \<in> set ps. ordered p" "i < length ps" "ps ! i = op # as" for ps i op as
  proof -
    have "ordered (op # as)" using that nth_mem by metis
    then have "ordered as" by (cases op) simp_all
    then show ?thesis using all_update [OF that(1)] by blast
  qed
  show "lock_step s t \<Longrightarrow> \<forall>p \<in> set (fst s). ordered p \<Longrightarrow> \<forall>p \<in> set (fst t). ordered p"
    by (induction rule: lock_step.induct) (unfold fst_conv, (rule tail; assumption)+)
qed

lemma step_ordered_inv: "lock_step s t \<Longrightarrow> ordered_inv s \<Longrightarrow> ordered_inv t"
  using step_lock_inv step_ordered by (simp add: ordered_inv_def)

interpretation virt_locks: inductive_invariant "starts virt_programs" lock_step lock_inv
proof
  show "lock_inv s" if "starts virt_programs s" for s
    using that virt_paired by (auto simp: starts_def lock_inv_def subset_iff)
qed (use step_lock_inv in blast)

interpretation i2c_locks: inductive_invariant "starts i2c_programs" lock_step ordered_inv
proof
  show "ordered_inv s" if "starts i2c_programs s" for s
    using that i2c_paired by (auto simp: starts_def lock_inv_def ordered_inv_def subset_iff)
qed (use step_ordered_inv in blast)

section \<open>Exclusion\<close>

text \<open>
  C17: No data race on what the mutexes guard. In every interleaving of any number of readers, writers, work items and the set-up of the
  buffer, with either transport: a thread that is about to access a pwm entry or the bus owns its mutex, so no two threads are ever about
  to access the same entry or the bus, and no other thread gets at the bus between the tries of one read or write; only the owner
  of a mutex comes to release it; and when all threads are done, both mutexes are free. The enable flags are not guarded.
\<close>

theorem fan_race_free:
  assumes start: "starts virt_programs s \<or> starts i2c_programs s" and run: "lock_step\<^sup>*\<^sup>* s t"
    and ij: "i < length (fst t)" "j < length (fst t)" "i \<noteq> j"
  shows "(\<forall>x as l. fst t ! i = Access x # as \<and> guard_of x = Some l \<longrightarrow> snd t l = Some i) \<and>
    (\<forall>x as y bs. fst t ! i = Access x # as \<and> fst t ! j = Access y # bs \<and> guard_of x \<noteq> None \<longrightarrow> guard_of x \<noteq> guard_of y) \<and>
    (\<forall>l as. fst t ! i = Unlock l # as \<longrightarrow> snd t l = Some i) \<and>
    (finished t \<longrightarrow> snd t = (\<lambda>l. None))"
proof -
  have inv: "lock_inv t"
    using start run virt_locks.reach_inv [of s t] i2c_locks.reach_inv [of s t] by (auto simp: ordered_inv_def)
  then have own: "\<And>l k. snd t l = Some k \<longleftrightarrow> k < length (fst t) \<and> holds l (fst t ! k)" by (simp add: lock_inv_def)
  have acc: "snd t l = Some k" if "k < length (fst t)" "fst t ! k = Access x # as" "guard_of x = Some l" for k x as l
  proof -
    have "paired (fst t ! k)" using inv that(1) by (simp add: lock_inv_def)
    then show ?thesis using own that by simp
  qed
  have "snd t = (\<lambda>l. None)" if "finished t"
  proof
    fix l
    have "\<not> (k < length (fst t) \<and> holds l (fst t ! k))" for k using that by (metis finished_def holds.simps(1) nth_mem)
    then show "snd t l = None" using own by (cases "snd t l") blast+
  qed
  moreover have "guard_of x \<noteq> guard_of y" if "fst t ! i = Access x # as" "fst t ! j = Access y # bs" "guard_of x \<noteq> None" for x as y bs
    using acc [OF ij(1) that(1)] acc [OF ij(2) that(2)] that(3) ij(3) by force
  ultimately show ?thesis using acc [OF ij(1)] own ij(1) by auto
qed

theorem fan_race_free_witness:
  "\<exists>t. lock_step\<^sup>*\<^sup>* ([set_pwm_locks 1, work_locks [[virt_write_locks], [virt_write_locks]]], \<lambda>l. None) t \<and>
    (\<exists>as. fst t ! 0 = Access (Pwm_entry 1) # as) \<and> snd t Pwm_buf_lock = Some 0 \<and>
    \<not> (\<exists>nr bs. fst t ! 1 = Access (Pwm_entry nr) # bs)"
proof -
  let ?w = "work_locks [[virt_write_locks], [virt_write_locks]]"
  let ?ps = "[set_pwm_locks 1, ?w]"
  let ?t = "(?ps[0 := [Access (Pwm_entry 1), Unlock Pwm_buf_lock]], (\<lambda>l. None)(Pwm_buf_lock := Some 0))"
  have "?w = work_locks (replicate 2 [virt_write_locks])" by (simp add: numeral_2_eq_2)
  then have start: "starts virt_programs (?ps, \<lambda>l. None)" by (auto simp: starts_def virt_programs_def common_programs_def)
  have step: "lock_step\<^sup>*\<^sup>* (?ps, \<lambda>l. None) ?t"
    by (intro r_into_rtranclp lock_step.acquire) (simp_all add: set_pwm_locks_def)
  from fan_race_free [OF disjI1 [OF start] step, of 0 1]
  have "snd ?t Pwm_buf_lock = Some 0" "\<not> (\<exists>nr bs. fst ?t ! 1 = Access (Pwm_entry nr) # bs)" by force+
  with step show ?thesis by (intro exI [of _ ?t]) simp
qed

section \<open>Progress with the I2C transport\<close>

lemma ordered_progress:
  assumes inv: "ordered_inv s" and nf: "\<not> finished s"
  shows "\<exists>t. lock_step s t"
proof -
  obtain ps ow where s: "s = (ps, ow)" by fastforce
  have own: "\<And>l i. ow l = Some i \<longleftrightarrow> i < length ps \<and> holds l (ps ! i)" and ord: "\<And>i. i < length ps \<Longrightarrow> ordered (ps ! i)"
    using inv by (auto simp: ordered_inv_def lock_inv_def s)
  have unlock: "\<exists>t. lock_step s t" if "i < length ps" "ps ! i = Unlock l # as" for i l as
    using lock_step.release [of i ps l as ow] own [of l i] that by (auto simp: s)
  have lock: "\<exists>t. lock_step s t" if "i < length ps" "ps ! i = Lock l # as" "ow l = None" for i l as
    using lock_step.acquire [of i ps l as ow] that by (auto simp: s)
  have access: "\<exists>t. lock_step s t" if "i < length ps" "ps ! i = Access x # as" for i x as
    using lock_step.access [of i ps x as ow] that by (auto simp: s)
  show ?thesis
  proof (cases "ow Mcu_lock")
    case (Some i)
    then have i: "i < length ps" "holds Mcu_lock (ps ! i)" using own by auto
    then obtain x xs where x: "ps ! i = x # xs" by (cases "ps ! i") auto
    show ?thesis
    proof (cases x)
      case (Lock k)
      then show ?thesis using i ord [of i] x by (cases k) auto
    next
      case (Unlock k)
      then show ?thesis using unlock [of i k xs] x i by auto
    next
      case (Access y)
      then show ?thesis using access [of i y xs] x i by auto
    qed
  next
    case mcu: None
    obtain i where i: "i < length ps" "ps ! i \<noteq> []" using nf by (auto simp: finished_def s in_set_conv_nth)
    show ?thesis
    proof (cases "ow Pwm_buf_lock")
      case (Some j)
      then have j: "j < length ps" "holds Pwm_buf_lock (ps ! j)" using own by auto
      obtain x xs where x: "ps ! j = x # xs" using j by (cases "ps ! j") auto
      show ?thesis
      proof (cases x)
        case (Lock k)
        then show ?thesis using lock [of j k xs] x j mcu by (cases k) auto
      next
        case (Unlock k)
        then show ?thesis using unlock [of j k xs] x j by auto
      next
        case (Access y)
        then show ?thesis using access [of j y xs] x j by auto
      qed
    next
      case None
      with mcu have free: "ow l = None" for l by (cases l) auto
      obtain x xs where x: "ps ! i = x # xs" using i by (cases "ps ! i") auto
      then show ?thesis using lock [OF i(1)] unlock [OF i(1)] access [OF i(1)] free by (cases x) auto
    qed
  qed
qed

lemma step_shrinks: "lock_step s t \<Longrightarrow> sum_list (map length (fst t)) < sum_list (map length (fst s))"
proof -
  have "sum_list (map length (ps[i := as])) < sum_list (map length ps)"
    if "i < length ps" "ps ! i = x # as" for ps i x and as :: "lock_op list"
    using that
  proof (induction ps arbitrary: i)
    case (Cons p ps)
    then show ?case by (cases i) auto
  qed simp
  note shrink = this
  show "lock_step s t \<Longrightarrow> sum_list (map length (fst t)) < sum_list (map length (fst s))"
    by (induction rule: lock_step.induct) (simp_all add: shrink)
qed

lemma ordered_completes: "ordered_inv s \<Longrightarrow> \<exists>t. lock_step\<^sup>*\<^sup>* s t \<and> finished t"
proof (induction "sum_list (map length (fst s))" arbitrary: s rule: less_induct)
  case less
  show ?case
  proof (cases "finished s")
    case False
    then obtain t where t: "lock_step s t" using ordered_progress less.prems by blast
    then obtain u where "lock_step\<^sup>*\<^sup>* t u" "finished u"
      using less.hyps [OF step_shrinks] step_ordered_inv less.prems by blast
    with t show ?thesis by (meson converse_rtranclp_into_rtranclp)
  next
    case True
    then show ?thesis by blast
  qed
qed

text \<open>
  C8: With the I2C transport the driver cannot deadlock: from every reachable state some thread can go on
  unless all are done, every step brings the end nearer, and so all of them finish.
\<close>

theorem i2c_no_deadlock:
  assumes "starts i2c_programs s" "lock_step\<^sup>*\<^sup>* s t"
  shows "(finished t \<or> (\<exists>u. lock_step t u)) \<and> (\<exists>u. lock_step\<^sup>*\<^sup>* t u \<and> finished u) \<and>
    (\<forall>u. lock_step t u \<longrightarrow> sum_list (map length (fst u)) < sum_list (map length (fst t)))"
proof -
  have "ordered_inv t" using assms i2c_locks.reach_inv by blast
  then show ?thesis using ordered_progress ordered_completes step_shrinks by blast
qed

theorem i2c_no_deadlock_witness:
  "\<exists>u. lock_step\<^sup>*\<^sup>* ([fan_read_locks [i2c_read_locks False, i2c_read_locks True],
      work_locks [replicate 50 i2c_write_locks, replicate 50 i2c_write_locks], set_pwm_locks 2], \<lambda>l. None) u \<and> finished u"
proof -
  have "starts i2c_programs ([fan_read_locks [i2c_read_locks False, i2c_read_locks True],
      work_locks [replicate 50 i2c_write_locks, replicate 50 i2c_write_locks], set_pwm_locks 2], \<lambda>l. None)"
    by (auto simp: starts_def i2c_programs_def common_programs_def tries_of_def FAN_FAIL_MAX_RETRY_def)
  from i2c_no_deadlock [OF this rtranclp.rtrancl_refl] show ?thesis by blast
qed

text \<open>
  C10: With the virtual transport a reader that has entered \<^verbatim>\<open>fan_read\<close> and the work item that
  has taken the buffer's lock wait for each other: from any state with a fresh reader and a fresh work
  item, and both locks free, a state is reachable in which neither can ever continue.
\<close>

theorem virt_deadlock:
  assumes "i < length ps" "j < length ps" "i \<noteq> j" "ps ! i = fan_read_locks [virt_read_locks nr]" "ps ! j = work_locks (replicate n [virt_write_locks])" "0 < n"
    and "ow Mcu_lock = None" "ow Pwm_buf_lock = None"
  shows "\<exists>qs ow'. lock_step\<^sup>*\<^sup>* (ps, ow) (qs, ow') \<and> ow' Mcu_lock = Some i \<and> ow' Pwm_buf_lock = Some j \<and>
    (\<exists>as. qs ! i = Lock Pwm_buf_lock # as) \<and> (\<exists>as. qs ! j = Lock Mcu_lock # as) \<and>
    (\<forall>rs ow''. lock_step\<^sup>*\<^sup>* (qs, ow') (rs, ow'') \<longrightarrow> rs ! i = qs ! i \<and> rs ! j = qs ! j)"
proof -
  let ?a = "virt_read_locks nr @ [Unlock Mcu_lock]"
  obtain m where "n = Suc m" using assms(6) by (cases n) simp_all
  then obtain b where b: "work_locks (replicate n [virt_write_locks]) =
      [Lock Pwm_buf_lock, Access (Pwm_entry 1), Lock Mcu_lock] @ b"
    by (simp add: work_locks_def work_round_def fan_write_locks_def upt_conv_Cons del: upt_Suc)
  let ?b1 = "Access (Pwm_entry 1) # Lock Mcu_lock # b" and ?b = "Lock Mcu_lock # b"
  let ?qs = "ps[i := ?a, j := ?b]" and ?ow = "ow(Mcu_lock := Some i, Pwm_buf_lock := Some j)"
  have "lock_step (ps, ow) (ps[i := ?a], ow(Mcu_lock := Some i))"
    using assms by (intro lock_step.acquire) (simp_all add: fan_read_locks_def)
  moreover have "lock_step (ps[i := ?a], ow(Mcu_lock := Some i)) (ps[i := ?a, j := ?b1], ?ow)"
    using assms b by (intro lock_step.acquire) simp_all
  moreover have "lock_step (ps[i := ?a, j := ?b1], ?ow) (ps[i := ?a, j := ?b1, j := ?b], ?ow)"
    using assms by (intro lock_step.access [where x = "Pwm_entry 1"]) simp_all
  ultimately have run: "lock_step\<^sup>*\<^sup>* (ps, ow) (?qs, ?ow)" unfolding list_update_overwrite by (meson r_into_rtranclp rtranclp_trans)
  have qi: "\<exists>as. ?qs ! i = Lock Pwm_buf_lock # as" using assms(1-3) by (simp add: virt_read_locks_def)
  have qj: "\<exists>as. ?qs ! j = Lock Mcu_lock # as" using assms(2) by simp
  let ?stuck = "\<lambda>s. fst s ! i = ?qs ! i \<and> fst s ! j = ?qs ! j \<and> snd s Mcu_lock = Some i \<and> snd s Pwm_buf_lock = Some j"
  have keep: "?stuck t" if "lock_step s t" "?stuck s" for s t
    using that
  proof (induction rule: lock_step.induct)
    case (acquire k rs l as ow1)
    then show ?case using qi qj by (cases l) auto
  next
    case (release k rs l as ow1)
    then show ?case using qi qj assms(3) by (cases l) auto
  next
    case (access k rs x as ow1)
    then show ?case using qi qj by (auto simp: nth_list_update)
  qed
  have "?stuck t" if "lock_step\<^sup>*\<^sup>* (?qs, ?ow) t" for t
    using that by (induction rule: rtranclp_induct) (use keep in auto)
  then show ?thesis using run qi qj by (intro exI [of _ ?qs] exI [of _ ?ow] conjI) fastforce+
qed

theorem virt_deadlock_witness:
  "\<exists>qs ow'. lock_step\<^sup>*\<^sup>* ([fan_read_locks [virt_read_locks 1], work_locks (replicate 3 [virt_write_locks])], \<lambda>l. None) (qs, ow') \<and>
    ow' Mcu_lock = Some 0 \<and> ow' Pwm_buf_lock = Some 1"
  using virt_deadlock [of 0 "[fan_read_locks [virt_read_locks 1], work_locks (replicate 3 [virt_write_locks])]" 1 1 3 "\<lambda>l. None"]
  by simp blast

end
