(* ===== verification/Temp_Driver.thy ===== *)
theory Temp_Driver
  imports Kernel_Prelude
begin

text \<open>
  The virtual temperature sensor (\<^verbatim>\<open>virt_temp.c\<close>, \<^verbatim>\<open>virt_temp.h\<close>): one attribute
  over one word of memory. \<open>kstr\<close> is \<^verbatim>\<open>kstrtoul\<close> in base ten.
\<close>

section \<open>State and operations\<close>

record temp_data =
  temp :: u64
  hwmon_dev :: int

definition show_temp :: "temp_data \<Rightarrow> int \<times> string" where
  "show_temp d = (let s = signed_decimal (sint (temp d)) @ [newline] in (int (length s), s))"

definition set_temp :: "(string \<Rightarrow> int + u64) \<Rightarrow> temp_data \<Rightarrow> string \<Rightarrow> int \<times> temp_data" where
  "set_temp kstr d buf = (case kstr buf of
     Inl err \<Rightarrow> (err, d)
   | Inr val \<Rightarrow> (int (length buf), d\<lparr>temp := min (max val 0) 100000\<rparr>))"

text \<open>\<open>hwmon\<close> is zero, or the error number that the registration returned as a pointer.\<close>

definition temp_probe :: "bool \<Rightarrow> int \<Rightarrow> int \<times> temp_data option" where
  "temp_probe alloc_ok hwmon =
     (if \<not> alloc_ok then (- ENOMEM, None)
      else let d = \<lparr>temp = 25000, hwmon_dev = hwmon\<rparr> in
        if hwmon < 0 then (hwmon, Some d) else (0, Some d))"

definition temp_remove :: "temp_data \<Rightarrow> temp_data" where
  "temp_remove d = d"

section \<open>The sensor as a register\<close>

text \<open>
  Abstractly the sensor is a number; a write that is not a number leaves it alone, and any other write
  replaces it by the number, limited to 100000.
\<close>

fun sensor_value :: "(string \<Rightarrow> int + u64) \<Rightarrow> nat \<Rightarrow> string list \<Rightarrow> nat" where
  "sensor_value kstr v [] = v"
| "sensor_value kstr v (w # ws) =
     sensor_value kstr (case kstr w of Inl e \<Rightarrow> v | Inr val \<Rightarrow> min (unat val) 100000) ws"

definition set_all :: "(string \<Rightarrow> int + u64) \<Rightarrow> temp_data \<Rightarrow> string list \<Rightarrow> temp_data" where
  "set_all kstr = foldl (\<lambda>d w. snd (set_temp kstr d w))"

lemma unat_limited: "unat (min val 100000 :: u64) = min (unat val) 100000"
  by (simp add: min_def word_le_nat_alt)

lemma set_temp_value:
  "unat (temp (snd (set_temp kstr d w))) = (case kstr w of Inl e \<Rightarrow> unat (temp d) | Inr val \<Rightarrow> min (unat val) 100000)"
  by (simp add: set_temp_def unat_limited split: sum.split)

lemma set_all_value: "unat (temp (set_all kstr d ws)) = sensor_value kstr (unat (temp d)) ws"
  by (induction ws arbitrary: d) (simp_all add: set_all_def set_temp_value)

lemma sensor_value_le: "v \<le> 100000 \<Longrightarrow> sensor_value kstr v ws \<le> 100000"
  by (induction ws arbitrary: v) (simp_all split: sum.split)

lemma sint_small: "unat (x :: u64) \<le> 100000 \<Longrightarrow> sint x = int (unat x)"
proof -
  assume "unat x \<le> 100000"
  moreover have u: "uint x = int (unat x)" by (rule uint_nat)
  ultimately have "uint x \<le> 100000" by linarith
  moreover have "- (2 ^ 63) \<le> uint x" by (rule order_trans [OF _ uint_ge_0]) simp
  ultimately have s: "signed_take_bit 63 (uint x) = uint x" by (intro signed_take_bit_int_eq_self) simp_all
  have "sint x = signed_take_bit 63 (uint x)" using sint_uint [of x] by simp
  from trans [OF trans [OF this s] u] show ?thesis .
qed

text \<open>
  C24: The sensor implements the register: after a successful probe and any sequence of writes the attribute
  shows the register's value, which starts at 25000 and never exceeds 100000.
\<close>

theorem temp_refines_register:
  assumes "temp_probe alloc_ok hwmon = (0, Some d)"
  shows "show_temp (set_all kstr d ws) =
      (int (length (line_of (sensor_value kstr 25000 ws))), line_of (sensor_value kstr 25000 ws)) \<and>
    sensor_value kstr 25000 ws \<le> 100000"
proof -
  have "unat (temp d) = 25000" using assms by (auto simp: temp_probe_def Let_def errno_defs split: if_splits)
  then have v: "unat (temp (set_all kstr d ws)) = sensor_value kstr 25000 ws" using set_all_value by metis
  moreover have le: "sensor_value kstr 25000 ws \<le> 100000" by (rule sensor_value_le) simp
  ultimately have "sint (temp (set_all kstr d ws)) = int (sensor_value kstr 25000 ws)" using sint_small by metis
  then show ?thesis using le by (simp add: show_temp_def signed_decimal_def line_of_def)
qed

theorem temp_refines_register_witness:
  "\<exists>d. temp_probe True 0 = (0, Some d) \<and>
    snd (show_temp (set_all (\<lambda>s. if s = [] then Inl (- EINVAL) else Inr (of_nat (undecimal s))) d [decimal 200000, []])) =
      line_of 100000"
proof -
  let ?k = "\<lambda>s. if s = [] then Inl (- EINVAL) else Inr (of_nat (undecimal s) :: u64)"
  have p: "temp_probe True 0 = (0, Some \<lparr>temp = 25000, hwmon_dev = 0\<rparr>)" by (simp add: temp_probe_def)
  have "decimal 200000 \<noteq> []" by (subst decimal.simps) simp
  then have "sensor_value ?k 25000 [decimal 200000, []] = 100000" by simp
  with temp_refines_register [OF p, of ?k "[decimal 200000, []]"] p show ?thesis by simp
qed

end
