(* ===== verification/Notifier.thy ===== *)
theory Notifier
  imports Kernel_Prelude
begin

text \<open>
  The notifier example (\<^verbatim>\<open>test_notifier.c\<close>). The chain functions of the kernel are arguments:
  \<open>chain_register\<close> adds a block to a chain, \<open>call_chain\<close> runs the callbacks of a chain for an action
  and returns what they print.
\<close>

datatype test_action = TEST_REBOOT | TEST_POWEROFF | TEST_HALT
datatype notifier_block = Test_reboot_nb | Test_poweroff_nb | Test_halt_nb

text \<open>A callback returns its result and what it prints.\<close>

definition test_reboot_notifier :: "test_action \<Rightarrow> int \<times> string list" where
  "test_reboot_notifier action = (0, if action = TEST_REBOOT then [''test_reboot_notifier called''] else [])"

definition test_poweroff_notifier :: "test_action \<Rightarrow> int \<times> string list" where
  "test_poweroff_notifier action = (0, if action = TEST_POWEROFF then [''test_poweroff_notifier called''] else [])"

definition test_halt_notifier :: "test_action \<Rightarrow> int \<times> string list" where
  "test_halt_notifier action = (0, if action = TEST_HALT then [''test_halt_notifier called''] else [])"

fun notifier_call :: "notifier_block \<Rightarrow> test_action \<Rightarrow> int \<times> string list" where
  "notifier_call Test_reboot_nb = test_reboot_notifier"
| "notifier_call Test_poweroff_nb = test_poweroff_notifier"
| "notifier_call Test_halt_nb = test_halt_notifier"

definition test_enter ::
  "(notifier_block \<Rightarrow> notifier_block list \<Rightarrow> notifier_block list) \<Rightarrow>
   ((notifier_block \<Rightarrow> test_action \<Rightarrow> int \<times> string list) \<Rightarrow> notifier_block list \<Rightarrow> test_action \<Rightarrow> string list) \<Rightarrow>
   notifier_block list \<Rightarrow> int \<times> notifier_block list \<times> string list" where
  "test_enter chain_register call_chain chain =
     (let c1 = chain_register Test_reboot_nb chain;
          c2 = chain_register Test_poweroff_nb c1;
          c3 = chain_register Test_halt_nb c2
      in (0, c3, call_chain notifier_call c3 TEST_REBOOT))"

definition test_exit :: "notifier_block list \<Rightarrow> notifier_block list" where
  "test_exit chain = chain"

section \<open>What loading and unloading does\<close>

text \<open>
  The documented behaviour of a chain: registering adds the block once, at a place that its priority
  decides; as long as every callback returns zero the whole chain is run in order.
\<close>

definition registers :: "(notifier_block \<Rightarrow> notifier_block list \<Rightarrow> notifier_block list) \<Rightarrow> bool" where
  "registers reg \<longleftrightarrow> (\<forall>nb ns. mset (reg nb ns) = add_mset nb (mset ns))"

definition runs_all ::
  "((notifier_block \<Rightarrow> test_action \<Rightarrow> int \<times> string list) \<Rightarrow> notifier_block list \<Rightarrow> test_action \<Rightarrow> string list) \<Rightarrow> bool" where
  "runs_all run \<longleftrightarrow> (\<forall>call ns a. (\<forall>nb. fst (call nb a) = 0) \<longrightarrow> run call ns a = concat (map (\<lambda>nb. snd (call nb a)) ns))"

lemma callbacks_continue: "fst (notifier_call nb a) = 0"
  by (cases nb) (simp_all add: test_reboot_notifier_def test_poweroff_notifier_def test_halt_notifier_def)

lemma reboot_output: "snd (notifier_call nb TEST_REBOOT) = (if nb = Test_reboot_nb then [''test_reboot_notifier called''] else [])"
  by (cases nb) (simp_all add: test_reboot_notifier_def test_poweroff_notifier_def test_halt_notifier_def)

lemma reboot_outputs:
  "concat (map (\<lambda>nb. snd (notifier_call nb TEST_REBOOT)) ns) =
    replicate (count (mset ns) Test_reboot_nb) ''test_reboot_notifier called''"
  by (induction ns) (simp_all add: reboot_output)

text \<open>
  Loading the module puts its three blocks on the chain, wherever the chain places them, and the
  reboot action it raises prints the reboot callback's line once and nothing else. Unloading leaves the blocks
  on the chain, so each load adds them again to what an earlier one left.
\<close>

theorem notifier_load:
  assumes "registers reg" "runs_all run"
  shows "\<exists>c. test_enter reg run chain =
      (0, c, replicate (count (mset chain) Test_reboot_nb + 1) ''test_reboot_notifier called'') \<and>
    mset (test_exit c) = mset chain + {#Test_reboot_nb, Test_poweroff_nb, Test_halt_nb#}"
proof -
  let ?c = "reg Test_halt_nb (reg Test_poweroff_nb (reg Test_reboot_nb chain))"
  have m: "mset ?c = mset chain + {#Test_reboot_nb, Test_poweroff_nb, Test_halt_nb#}"
    using assms(1) by (simp add: registers_def)
  have "run notifier_call ?c TEST_REBOOT = concat (map (\<lambda>nb. snd (notifier_call nb TEST_REBOOT)) ?c)"
    using assms(2) callbacks_continue unfolding runs_all_def by blast
  also have "\<dots> = replicate (count (mset chain) Test_reboot_nb + 1) ''test_reboot_notifier called''"
    unfolding reboot_outputs m by simp
  finally show ?thesis using m by (simp add: test_enter_def test_exit_def Let_def)
qed

theorem notifier_load_witness:
  "\<exists>c. test_enter (\<lambda>nb ns. ns @ [nb]) (\<lambda>call ns a. concat (map (\<lambda>nb. snd (call nb a)) ns)) [] =
    (0, c, [''test_reboot_notifier called''])"
proof -
  have "registers (\<lambda>nb ns. ns @ [nb])" by (simp add: registers_def)
  moreover have "runs_all (\<lambda>call ns a. concat (map (\<lambda>nb. snd (call nb a)) ns))" by (simp add: runs_all_def)
  ultimately show ?thesis
    using notifier_load [of "\<lambda>nb ns. ns @ [nb]" "\<lambda>call ns a. concat (map (\<lambda>nb. snd (call nb a)) ns)" "[]"] by auto
qed

end
