(* ===== verification/Virt_Map.thy ===== *)
theory Virt_Map
  imports Kernel_Prelude
begin

text \<open>
  The memory map and the interrupt map of the QEMU board the UART driver runs on
  (\<^verbatim>\<open>virt.h\<close> and the first part of \<^verbatim>\<open>virt.c\<close>): QEMU's \<^verbatim>\<open>virt\<close> machine
  with a second UART. Macros of other QEMU headers are fields of \<open>qemu_env\<close>, so every definition that
  uses one takes the environment as an argument.
\<close>

section \<open>What other QEMU headers provide\<close>

record qemu_env =
  MEMORY_HOTPLUG_IO_LEN :: u64
  ACPI_GED_EVT_SEL_LEN :: u64
  NVDIMM_ACPI_IO_LEN :: u64
  GICV3_REDIST_SIZE :: u64
  GIC_NCPU :: nat
  ACPI_MAX_RAM_SLOTS :: u64
  GIC_FDT_IRQ_TYPE_SPI :: u32
  GIC_FDT_IRQ_TYPE_PPI :: u32
  GIC_FDT_IRQ_FLAGS_LEVEL_HI :: u32
  GIC_FDT_IRQ_FLAGS_EDGE_LO_HI :: u32
  GIC_FDT_IRQ_PPI_CPU_START :: nat
  GIC_FDT_IRQ_PPI_CPU_WIDTH :: nat
  deposit32 :: "u32 \<Rightarrow> nat \<Rightarrow> nat \<Rightarrow> u32 \<Rightarrow> u32"
  REAL_HOST_PAGE_ALIGN :: "nat \<Rightarrow> nat"
  GIC_INTERNAL :: nat
  GIC_NR_SGIS :: nat
  GPEX_NUM_IRQS :: nat
  PCI_NUM_PINS :: nat
  PCI_SLOT :: "nat \<Rightarrow> nat"
  PCI_DEVFN :: "nat \<Rightarrow> nat \<Rightarrow> u16"
  cpu_to_be16 :: "u16 \<Rightarrow> u16"
  cpu_to_be32 :: "u32 \<Rightarrow> u32"
  PCIE_MMCFG_SIZE_MIN :: u64
  FDT_PCI_RANGE_IOPORT :: u64
  FDT_PCI_RANGE_MMIO :: u64
  FDT_PCI_RANGE_MMIO_64BIT :: u64
  KEY_POWER :: u32
  ROUND_UP :: "u64 \<Rightarrow> u64 \<Rightarrow> u64"
  clz64 :: "u64 \<Rightarrow> nat"

text \<open>
  \<^verbatim>\<open>ROUND_UP\<close> gives the least multiple of a power of two that is not below its argument, unless
  that is beyond 64 bits; \<^verbatim>\<open>clz64\<close> counts leading zeros.
\<close>

definition round_up_law :: "qemu_env \<Rightarrow> bool" where
  "round_up_law E \<longleftrightarrow> (\<forall>n d k. unat d = 2 ^ k \<and> unat n + unat d \<le> 2 ^ 64 \<longrightarrow>
     unat d dvd unat (ROUND_UP E n d) \<and> unat n \<le> unat (ROUND_UP E n d) \<and> unat (ROUND_UP E n d) < unat n + unat d)"

definition clz_law :: "qemu_env \<Rightarrow> bool" where
  "clz_law E \<longleftrightarrow> (\<forall>x. x \<noteq> 0 \<longrightarrow> clz64 E x < 64 \<and> 2 ^ (63 - clz64 E x) \<le> unat x \<and> unat x < 2 ^ (64 - clz64 E x))"

section \<open>Regions\<close>

datatype region =
    VIRT_FLASH | VIRT_MEM | VIRT_CPUPERIPHS | VIRT_GIC_DIST | VIRT_GIC_CPU | VIRT_GIC_V2M | VIRT_GIC_HYP
  | VIRT_GIC_VCPU | VIRT_GIC_ITS | VIRT_GIC_REDIST | VIRT_SMMU | VIRT_UART | VIRT_UART2 | VIRT_MMIO | VIRT_RTC
  | VIRT_FW_CFG | VIRT_PCIE | VIRT_PCIE_MMIO | VIRT_PCIE_PIO | VIRT_PCIE_ECAM | VIRT_PLATFORM_BUS | VIRT_GPIO
  | VIRT_SECURE_UART | VIRT_SECURE_MEM | VIRT_SECURE_GPIO | VIRT_PCDIMM_ACPI | VIRT_ACPI_GED | VIRT_NVDIMM_ACPI
  | VIRT_PVTIME
  | VIRT_HIGH_GIC_REDIST2 | VIRT_HIGH_PCIE_ECAM | VIRT_HIGH_PCIE_MMIO

record MemMapEntry =
  base :: u64
  msize :: u64

definition KiB :: u64 where "KiB = 2 ^ 10"
definition MiB :: u64 where "MiB = 2 ^ 20"
definition GiB :: u64 where "GiB = 2 ^ 30"
definition NUM_IRQS :: nat where "NUM_IRQS = 256"
definition PLATFORM_BUS_NUM_IRQS :: nat where "PLATFORM_BUS_NUM_IRQS = 64"
definition NUM_GICV2M_SPIS :: nat where "NUM_GICV2M_SPIS = 64"
definition NUM_VIRTIO_TRANSPORTS :: nat where "NUM_VIRTIO_TRANSPORTS = 32"
definition NUM_SMMU_IRQS :: nat where "NUM_SMMU_IRQS = 4"
definition LEGACY_RAMLIMIT_GB :: u64 where "LEGACY_RAMLIMIT_GB = 255"
definition LEGACY_RAMLIMIT_BYTES :: u64 where "LEGACY_RAMLIMIT_BYTES = LEGACY_RAMLIMIT_GB * GiB"

lemmas virt_numbers = KiB_def MiB_def GiB_def NUM_IRQS_def PLATFORM_BUS_NUM_IRQS_def NUM_GICV2M_SPIS_def
  NUM_VIRTIO_TRANSPORTS_def NUM_SMMU_IRQS_def LEGACY_RAMLIMIT_GB_def LEGACY_RAMLIMIT_BYTES_def

fun base_memmap :: "qemu_env \<Rightarrow> region \<Rightarrow> MemMapEntry" where
  "base_memmap E VIRT_FLASH = \<lparr>base = 0, msize = 0x08000000\<rparr>"
| "base_memmap E VIRT_CPUPERIPHS = \<lparr>base = 0x08000000, msize = 0x00020000\<rparr>"
| "base_memmap E VIRT_GIC_DIST = \<lparr>base = 0x08000000, msize = 0x00010000\<rparr>"
| "base_memmap E VIRT_GIC_CPU = \<lparr>base = 0x08010000, msize = 0x00010000\<rparr>"
| "base_memmap E VIRT_GIC_V2M = \<lparr>base = 0x08020000, msize = 0x00001000\<rparr>"
| "base_memmap E VIRT_GIC_HYP = \<lparr>base = 0x08030000, msize = 0x00010000\<rparr>"
| "base_memmap E VIRT_GIC_VCPU = \<lparr>base = 0x08040000, msize = 0x00010000\<rparr>"
| "base_memmap E VIRT_GIC_ITS = \<lparr>base = 0x08080000, msize = 0x00020000\<rparr>"
| "base_memmap E VIRT_GIC_REDIST = \<lparr>base = 0x080A0000, msize = 0x00F60000\<rparr>"
| "base_memmap E VIRT_UART = \<lparr>base = 0x09000000, msize = 0x00001000\<rparr>"
| "base_memmap E VIRT_UART2 = \<lparr>base = 0x090c0000, msize = 0x00001000\<rparr>"
| "base_memmap E VIRT_RTC = \<lparr>base = 0x09010000, msize = 0x00001000\<rparr>"
| "base_memmap E VIRT_FW_CFG = \<lparr>base = 0x09020000, msize = 0x00000018\<rparr>"
| "base_memmap E VIRT_GPIO = \<lparr>base = 0x09030000, msize = 0x00001000\<rparr>"
| "base_memmap E VIRT_SECURE_UART = \<lparr>base = 0x09040000, msize = 0x00001000\<rparr>"
| "base_memmap E VIRT_SMMU = \<lparr>base = 0x09050000, msize = 0x00020000\<rparr>"
| "base_memmap E VIRT_PCDIMM_ACPI = \<lparr>base = 0x09070000, msize = MEMORY_HOTPLUG_IO_LEN E\<rparr>"
| "base_memmap E VIRT_ACPI_GED = \<lparr>base = 0x09080000, msize = ACPI_GED_EVT_SEL_LEN E\<rparr>"
| "base_memmap E VIRT_NVDIMM_ACPI = \<lparr>base = 0x09090000, msize = NVDIMM_ACPI_IO_LEN E\<rparr>"
| "base_memmap E VIRT_PVTIME = \<lparr>base = 0x090a0000, msize = 0x00010000\<rparr>"
| "base_memmap E VIRT_SECURE_GPIO = \<lparr>base = 0x090b0000, msize = 0x00001000\<rparr>"
| "base_memmap E VIRT_MMIO = \<lparr>base = 0x0a000000, msize = 0x00000200\<rparr>"
| "base_memmap E VIRT_PLATFORM_BUS = \<lparr>base = 0x0c000000, msize = 0x02000000\<rparr>"
| "base_memmap E VIRT_SECURE_MEM = \<lparr>base = 0x0e000000, msize = 0x01000000\<rparr>"
| "base_memmap E VIRT_PCIE_MMIO = \<lparr>base = 0x10000000, msize = 0x2eff0000\<rparr>"
| "base_memmap E VIRT_PCIE_PIO = \<lparr>base = 0x3eff0000, msize = 0x00010000\<rparr>"
| "base_memmap E VIRT_PCIE_ECAM = \<lparr>base = 0x3f000000, msize = 0x01000000\<rparr>"
| "base_memmap E VIRT_MEM = \<lparr>base = GiB, msize = LEGACY_RAMLIMIT_BYTES\<rparr>"
| "base_memmap E VIRT_PCIE = \<lparr>base = 0, msize = 0\<rparr>"
| "base_memmap E VIRT_HIGH_GIC_REDIST2 = \<lparr>base = 0, msize = 0\<rparr>"
| "base_memmap E VIRT_HIGH_PCIE_ECAM = \<lparr>base = 0, msize = 0\<rparr>"
| "base_memmap E VIRT_HIGH_PCIE_MMIO = \<lparr>base = 0, msize = 0\<rparr>"

text \<open>The floating regions, in the order of the table; their bases are computed.\<close>

definition high_regions :: "region list" where
  "high_regions = [VIRT_HIGH_GIC_REDIST2, VIRT_HIGH_PCIE_ECAM, VIRT_HIGH_PCIE_MMIO]"

fun extended_memmap :: "region \<Rightarrow> MemMapEntry" where
  "extended_memmap VIRT_HIGH_GIC_REDIST2 = \<lparr>base = 0, msize = 64 * MiB\<rparr>"
| "extended_memmap VIRT_HIGH_PCIE_ECAM = \<lparr>base = 0, msize = 256 * MiB\<rparr>"
| "extended_memmap VIRT_HIGH_PCIE_MMIO = \<lparr>base = 0, msize = 512 * GiB\<rparr>"
| "extended_memmap r = \<lparr>base = 0, msize = 0\<rparr>"

text \<open>Entries the initialiser leaves out are zero.\<close>

fun a15irqmap :: "region \<Rightarrow> nat" where
  "a15irqmap VIRT_UART = 1"
| "a15irqmap VIRT_UART2 = 10"
| "a15irqmap VIRT_RTC = 2"
| "a15irqmap VIRT_PCIE = 3"
| "a15irqmap VIRT_GPIO = 7"
| "a15irqmap VIRT_SECURE_UART = 8"
| "a15irqmap VIRT_ACPI_GED = 9"
| "a15irqmap VIRT_MMIO = 16"
| "a15irqmap VIRT_GIC_V2M = 48"
| "a15irqmap VIRT_SMMU = 74"
| "a15irqmap VIRT_PLATFORM_BUS = 112"
| "a15irqmap r = 0"

section \<open>Computing the map\<close>

text \<open>An error that ends QEMU is on the left of the sum, with its message.\<close>

type_synonym 'a qemu = "string + 'a"

record board_map =
  memmap :: "region \<Rightarrow> MemMapEntry"
  highest_gpa :: u64
  device_memory :: "MemMapEntry option"

fun place_high :: "qemu_env \<Rightarrow> region list \<Rightarrow> u64 \<times> (region \<Rightarrow> MemMapEntry) \<Rightarrow> u64 \<times> (region \<Rightarrow> MemMapEntry)" where
  "place_high E [] st = st"
| "place_high E (r # rs) (b, m) =
     (let sz = msize (extended_memmap r); b' = ROUND_UP E b sz
      in place_high E rs (b' + sz, m(r := \<lparr>base = b', msize = sz\<rparr>)))"

definition virt_set_memmap :: "qemu_env \<Rightarrow> u64 \<Rightarrow> u64 \<Rightarrow> u64 \<Rightarrow> board_map qemu" where
  "virt_set_memmap E ram_size maxram_size ram_slots =
     (let m0 = base_memmap E in
      if ram_slots > ACPI_MAX_RAM_SLOTS E then Inl ''unsupported number of memory slots''
      else
        let device_memory_base = ROUND_UP E (base (m0 VIRT_MEM) + ram_size) GiB;
            device_memory_size = maxram_size - ram_size + ram_slots * GiB;
            b0 = device_memory_base + ROUND_UP E device_memory_size GiB
        in if b0 < device_memory_base then Inl ''maxmem/slots too huge''
        else
          let b1 = (if b0 < base (m0 VIRT_MEM) + LEGACY_RAMLIMIT_BYTES
                    then base (m0 VIRT_MEM) + LEGACY_RAMLIMIT_BYTES else b0);
              (b2, m) = place_high E high_regions (b1, m0)
          in Inr \<lparr>memmap = m, highest_gpa = b2 - 1,
               device_memory = (if device_memory_size > 0
                 then Some \<lparr>base = device_memory_base, msize = device_memory_size\<rparr> else None)\<rparr>)"

text \<open>The number of address bits that the map needs, and what KVM is asked for.\<close>

definition requested_pa_size :: "qemu_env \<Rightarrow> board_map \<Rightarrow> nat" where
  "requested_pa_size E M = 64 - clz64 E (highest_gpa M)"

definition virt_kvm_type :: "qemu_env \<Rightarrow> nat \<Rightarrow> bool \<Rightarrow> u64 \<Rightarrow> u64 \<Rightarrow> u64 \<Rightarrow> (nat \<times> board_map) qemu" where
  "virt_kvm_type E max_vm_pa_size fixed_ipa ram_size maxram_size ram_slots =
     rbind (virt_set_memmap E ram_size maxram_size ram_slots) (\<lambda>M.
       let rq = requested_pa_size E M; rq' = (if rq < 32 then 32 else rq)
       in if rq' > max_vm_pa_size
          then Inl ''-m and ,maxmem option values require an IPA range larger than the one supported by the host''
          else Inr (if fixed_ipa then 0 else rq', M))"

end
