(* ===== verification/Virt_Layout.thy ===== *)
theory Virt_Layout
  imports Virt_Map "HOL-Library.Log_Nat"
begin

text \<open>
  Correctness of the board's address and interrupt layout: no two devices share addresses, the floating
  regions are aligned and above all memory, the interrupt lines are disjoint but for one pair, and the
  address width given to KVM covers the map.
\<close>

section \<open>The fixed part of the map\<close>

text \<open>Where a region starts and ends; the virtio transports repeat their entry.\<close>

definition copies :: "region \<Rightarrow> nat" where
  "copies r = (if r = VIRT_MMIO then NUM_VIRTIO_TRANSPORTS else 1)"

definition start_of :: "qemu_env \<Rightarrow> region \<Rightarrow> nat" where
  "start_of E r = unat (base (base_memmap E r))"

definition end_of :: "qemu_env \<Rightarrow> region \<Rightarrow> nat" where
  "end_of E r = start_of E r + copies r * unat (msize (base_memmap E r))"

definition low_devices :: "region list" where
  "low_devices = [VIRT_FLASH, VIRT_GIC_DIST, VIRT_GIC_CPU, VIRT_GIC_V2M, VIRT_GIC_HYP, VIRT_GIC_VCPU, VIRT_GIC_ITS,
     VIRT_GIC_REDIST, VIRT_UART, VIRT_RTC, VIRT_FW_CFG, VIRT_GPIO, VIRT_SECURE_UART, VIRT_SMMU, VIRT_PCDIMM_ACPI,
     VIRT_ACPI_GED, VIRT_NVDIMM_ACPI, VIRT_PVTIME, VIRT_SECURE_GPIO, VIRT_UART2, VIRT_MMIO, VIRT_PLATFORM_BUS,
     VIRT_SECURE_MEM, VIRT_PCIE_MMIO, VIRT_PCIE_PIO, VIRT_PCIE_ECAM]"

definition small_io :: "qemu_env \<Rightarrow> bool" where
  "small_io E \<longleftrightarrow> unat (MEMORY_HOTPLUG_IO_LEN E) \<le> 0x10000 \<and> unat (ACPI_GED_EVT_SEL_LEN E) \<le> 0x10000 \<and>
     unat (NVDIMM_ACPI_IO_LEN E) \<le> 0x10000"

lemma low_devices_ordered: "small_io E \<Longrightarrow> successively (\<lambda>r s. end_of E r \<le> start_of E s) low_devices"
  by (simp add: low_devices_def end_of_def start_of_def copies_def NUM_VIRTIO_TRANSPORTS_def small_io_def)

lemma start_le_end: "start_of E r \<le> end_of E r"
  by (simp add: end_of_def)

lemma low_devices_sorted: "small_io E \<Longrightarrow> sorted_wrt (\<lambda>r s. end_of E r \<le> start_of E s) low_devices"
proof -
  assume "small_io E"
  then have "successively (\<lambda>r s. end_of E r \<le> start_of E s) low_devices" by (rule low_devices_ordered)
  moreover have "transp (\<lambda>r s. end_of E r \<le> start_of E s)"
    by (rule transpI) (meson order_trans start_le_end)
  ultimately show ?thesis by (simp add: successively_conv_sorted_wrt)
qed

lemma sorted_wrt_pair:
  assumes "sorted_wrt P xs" "x \<in> set xs" "y \<in> set xs" "x \<noteq> y"
  shows "P x y \<or> P y x"
  using assms by (induction xs) auto

text \<open>
  C18: The devices below the RAM do not overlap, the added second UART included, and all of them end at or below 1 GiB,
  where the RAM starts; the UART driver's device has its page to itself.
\<close>

theorem low_map_disjoint:
  assumes "small_io E" "r \<in> set low_devices" "s \<in> set low_devices" "r \<noteq> s"
  shows "(end_of E r \<le> start_of E s \<or> end_of E s \<le> start_of E r) \<and> end_of E r \<le> start_of E VIRT_MEM"
proof -
  have "end_of E q \<le> start_of E VIRT_MEM" if "q \<in> set low_devices" for q
    using that assms(1) by (auto simp: low_devices_def end_of_def start_of_def copies_def NUM_VIRTIO_TRANSPORTS_def
        small_io_def GiB_def)
  then show ?thesis
    using sorted_wrt_pair [OF low_devices_sorted [OF assms(1)] assms(2-4)] assms(2) by blast
qed

section \<open>The floating part of the map\<close>

text \<open>Rounding up without wrap-around: the least multiple at or above.\<close>

definition up :: "nat \<Rightarrow> nat \<Rightarrow> nat" where
  "up n d = (n + d - 1) div d * d"

lemma up_bounds:
  assumes "0 < d"
  shows "d dvd up n d" "n \<le> up n d" "up n d < n + d"
proof -
  have "n + d - 1 = up n d + (n + d - 1) mod d" by (simp add: up_def div_mult_mod_eq)
  moreover have "(n + d - 1) mod d < d" using assms by simp
  ultimately show "n \<le> up n d" "up n d < n + d" using assms by linarith+
qed (simp add: up_def)

lemma up_least:
  assumes "0 < d" "d dvd x" "n \<le> x"
  shows "up n d \<le> x"
proof -
  obtain k where k: "x = d * k" using assms(2) by blast
  have "(n + d - 1) div d \<le> (d - 1 + k * d) div d" using assms(1,3) k by (intro div_le_mono) (simp add: mult.commute)
  also have "\<dots> = k" using assms(1) by (subst div_mult_self1) simp_all
  finally show ?thesis by (simp add: up_def k mult.commute)
qed

lemma multiple_unique:
  assumes "d dvd x" "d dvd y" "n \<le> x" "x < n + d" "n \<le> y" "y < n + d"
  shows "x = (y :: nat)"
proof -
  obtain i j where ij: "x = d * i" "y = d * j" using assms(1,2) by blast
  have "d * i < d * (j + 1)" "d * j < d * (i + 1)" using assms ij by simp_all
  then have "i < j + 1" "j < i + 1" by (metis mult_less_cancel1)+
  then show ?thesis using ij by simp
qed

lemma round_up_eq:
  assumes "round_up_law E" "unat d = 2 ^ k" "unat n + 2 ^ k \<le> 2 ^ 64"
  shows "unat (ROUND_UP E n d) = up (unat n) (2 ^ k)"
proof -
  have r: "2 ^ k dvd unat (ROUND_UP E n d)" "unat n \<le> unat (ROUND_UP E n d)" "unat (ROUND_UP E n d) < unat n + 2 ^ k"
    using assms unfolding round_up_law_def by metis+
  show ?thesis by (rule multiple_unique [OF r(1) up_bounds(1) r(2,3) up_bounds(2,3)]) simp_all
qed

lemma unat_add_small: "unat (a :: u64) + unat b < 2 ^ 64 \<Longrightarrow> unat (a + b) = unat a + unat b"
  by (simp add: unat_word_ariths)

text \<open>The three floating regions, placed one after the other.\<close>

definition stacked :: "(region \<Rightarrow> MemMapEntry) \<Rightarrow> bool" where
  "stacked m \<longleftrightarrow>
     unat (msize (m VIRT_HIGH_GIC_REDIST2)) = 2 ^ 26 \<and> unat (msize (m VIRT_HIGH_PCIE_ECAM)) = 2 ^ 28 \<and>
     unat (msize (m VIRT_HIGH_PCIE_MMIO)) = 2 ^ 39 \<and>
     2 ^ 26 dvd unat (base (m VIRT_HIGH_GIC_REDIST2)) \<and> 2 ^ 28 dvd unat (base (m VIRT_HIGH_PCIE_ECAM)) \<and>
     2 ^ 39 dvd unat (base (m VIRT_HIGH_PCIE_MMIO)) \<and>
     unat (base (m VIRT_HIGH_GIC_REDIST2)) + 2 ^ 26 \<le> unat (base (m VIRT_HIGH_PCIE_ECAM)) \<and>
     unat (base (m VIRT_HIGH_PCIE_ECAM)) + 2 ^ 28 \<le> unat (base (m VIRT_HIGH_PCIE_MMIO))"

text \<open>
  The layout in unbounded arithmetic: the end of the memory, with room for the alignment of every slot, and the end of the
  floating regions placed from an address on.
\<close>

definition ram_room :: "u64 \<Rightarrow> u64 \<Rightarrow> u64 \<Rightarrow> nat" where
  "ram_room ram maxram slots = up (2 ^ 30 + unat ram) (2 ^ 30) + up (unat maxram - unat ram + unat slots * 2 ^ 30) (2 ^ 30)"

definition high_start :: "u64 \<Rightarrow> u64 \<Rightarrow> u64 \<Rightarrow> nat" where
  "high_start ram maxram slots = max (2 ^ 38) (ram_room ram maxram slots)"

definition high_end :: "nat \<Rightarrow> nat" where
  "high_end b = up (up (up b (2 ^ 26) + 2 ^ 26) (2 ^ 28) + 2 ^ 28) (2 ^ 39) + 2 ^ 39"

lemma high_end_least:
  assumes "stacked m" "b \<le> unat (base (m VIRT_HIGH_GIC_REDIST2))"
  shows "high_end b \<le> unat (base (m VIRT_HIGH_PCIE_MMIO)) + 2 ^ 39"
proof -
  let ?r = "unat (base (m VIRT_HIGH_GIC_REDIST2))" and ?e = "unat (base (m VIRT_HIGH_PCIE_ECAM))"
    and ?p = "unat (base (m VIRT_HIGH_PCIE_MMIO))"
  have st: "2 ^ 26 dvd ?r" "2 ^ 28 dvd ?e" "2 ^ 39 dvd ?p" "?r + 2 ^ 26 \<le> ?e" "?e + 2 ^ 28 \<le> ?p"
    using assms(1) by (simp_all add: stacked_def)
  have "up b (2 ^ 26) \<le> ?r" using st(1) assms(2) by (intro up_least) simp_all
  then have "up (up b (2 ^ 26) + 2 ^ 26) (2 ^ 28) \<le> ?e" using st(2,4) by (intro up_least) simp_all
  then have "up (up (up b (2 ^ 26) + 2 ^ 26) (2 ^ 28) + 2 ^ 28) (2 ^ 39) \<le> ?p" using st(3,5) by (intro up_least) simp_all
  then show ?thesis by (simp add: high_end_def)
qed

lemma stacked_end:
  assumes "stacked m"
  shows "unat (base (m VIRT_HIGH_PCIE_MMIO)) + 2 ^ 39 \<le> 2 ^ 64"
proof -
  obtain k where k: "unat (base (m VIRT_HIGH_PCIE_MMIO)) = 2 ^ 39 * k" using assms by (auto simp: stacked_def)
  moreover have "unat (base (m VIRT_HIGH_PCIE_MMIO)) < 2 ^ 64" using unsigned_less [of "base (m VIRT_HIGH_PCIE_MMIO)", where ?'a = nat] by simp
  ultimately have "k < 2 ^ 25" by simp
  then show ?thesis unfolding k by simp
qed

lemma place_high_stacked:
  assumes law: "round_up_law E" and fits: "high_end (unat b) \<le> 2 ^ 64"
  obtains e m where "place_high E high_regions (b, m0) = (e, m)" "stacked m"
    "unat b \<le> unat (base (m VIRT_HIGH_GIC_REDIST2))" "unat (e - 1) + 1 = unat (base (m VIRT_HIGH_PCIE_MMIO)) + 2 ^ 39"
    "\<And>r. r \<notin> set high_regions \<Longrightarrow> m r = m0 r"
proof -
  let ?s1 = "64 * MiB" and ?s2 = "256 * MiB" and ?s3 = "512 * GiB"
  have s: "unat ?s1 = 2 ^ 26" "unat ?s2 = 2 ^ 28" "unat ?s3 = 2 ^ 39" by (simp_all add: MiB_def GiB_def)
  define n1 where "n1 = up (unat b) (2 ^ 26)"
  define n2 where "n2 = up (n1 + 2 ^ 26) (2 ^ 28)"
  define n3 where "n3 = up (n2 + 2 ^ 28) (2 ^ 39)"
  have n: "2 ^ 26 dvd n1" "unat b \<le> n1" "2 ^ 28 dvd n2" "n1 + 2 ^ 26 \<le> n2" "2 ^ 39 dvd n3" "n2 + 2 ^ 28 \<le> n3"
    unfolding n1_def n2_def n3_def by (rule up_bounds; simp)+
  have e: "n3 + 2 ^ 39 \<le> 2 ^ 64" using fits by (simp add: high_end_def n1_def n2_def n3_def)
  let ?b1 = "ROUND_UP E b ?s1"
  have b1: "unat ?b1 = n1" unfolding n1_def using n e by (intro round_up_eq [OF law s(1)]) simp
  then have e1: "unat (?b1 + ?s1) = n1 + 2 ^ 26" using n e s by (subst unat_add_small) simp_all
  let ?b2 = "ROUND_UP E (?b1 + ?s1) ?s2"
  have b2: "unat ?b2 = n2" unfolding n2_def e1 [symmetric] using n e e1 by (intro round_up_eq [OF law s(2)]) simp
  then have e2: "unat (?b2 + ?s2) = n2 + 2 ^ 28" using n e s by (subst unat_add_small) simp_all
  let ?b3 = "ROUND_UP E (?b2 + ?s2) ?s3"
  have b3: "unat ?b3 = n3" unfolding n3_def e2 [symmetric] using n e e2 by (intro round_up_eq [OF law s(3)]) simp
  have s3: "unat (?s3 - 1) = 2 ^ 39 - 1" by (simp add: GiB_def)
  have "unat (?b3 + (?s3 - 1)) = n3 + (2 ^ 39 - 1)" using b3 e s3 by (subst unat_add_small) simp_all
  moreover have "?b3 + ?s3 - 1 = ?b3 + (?s3 - 1)" by simp
  ultimately have last: "unat (?b3 + ?s3 - 1) + 1 = n3 + 2 ^ 39" by (metis add.assoc le_add_diff_inverse2 one_le_numeral one_le_power)
  let ?m = "m0(VIRT_HIGH_GIC_REDIST2 := \<lparr>base = ?b1, msize = ?s1\<rparr>, VIRT_HIGH_PCIE_ECAM := \<lparr>base = ?b2, msize = ?s2\<rparr>,
    VIRT_HIGH_PCIE_MMIO := \<lparr>base = ?b3, msize = ?s3\<rparr>)"
  show ?thesis
  proof (rule that [of "?b3 + ?s3" ?m])
    show "place_high E high_regions (b, m0) = (?b3 + ?s3, ?m)" by (simp add: high_regions_def Let_def)
    show "stacked ?m" using b1 b2 b3 n s by (simp add: stacked_def)
    show "unat b \<le> unat (base (?m VIRT_HIGH_GIC_REDIST2))" using b1 n by simp
    show "unat (?b3 + ?s3 - 1) + 1 = unat (base (?m VIRT_HIGH_PCIE_MMIO)) + 2 ^ 39" using b3 last by simp
    show "?m r = m0 r" if "r \<notin> set high_regions" for r using that by (auto simp: high_regions_def)
  qed
qed

text \<open>
  What the front end guarantees of the sizes (the maximum is at least the initial size), and the sizes whose layout fits into
  64 bits.
\<close>

definition memory_fits :: "qemu_env \<Rightarrow> u64 \<Rightarrow> u64 \<Rightarrow> u64 \<Rightarrow> bool" where
  "memory_fits E ram maxram slots \<longleftrightarrow> unat ram \<le> unat maxram \<and> slots \<le> ACPI_MAX_RAM_SLOTS E \<and>
     high_end (high_start ram maxram slots) \<le> 2 ^ 64"

lemma room_fits:
  assumes "memory_fits E ram maxram slots"
  shows "ram_room ram maxram slots + 2 ^ 39 \<le> 2 ^ 64"
proof -
  let ?b = "high_start ram maxram slots"
  have "?b \<le> up ?b (2 ^ 26)" "up ?b (2 ^ 26) + 2 ^ 26 \<le> up (up ?b (2 ^ 26) + 2 ^ 26) (2 ^ 28)"
    "up (up ?b (2 ^ 26) + 2 ^ 26) (2 ^ 28) + 2 ^ 28 \<le> up (up (up ?b (2 ^ 26) + 2 ^ 26) (2 ^ 28) + 2 ^ 28) (2 ^ 39)"
    by (rule up_bounds; simp)+
  moreover have "high_end ?b \<le> 2 ^ 64" using assms by (simp add: memory_fits_def)
  moreover have "ram_room ram maxram slots \<le> ?b" by (simp add: high_start_def)
  ultimately show ?thesis unfolding high_end_def by linarith
qed

lemma device_memory_room:
  assumes law: "round_up_law E" and fits: "memory_fits E ram maxram slots"
  defines "dmb \<equiv> ROUND_UP E (GiB + ram) GiB" and "dms \<equiv> maxram - ram + slots * GiB"
  shows "2 ^ 30 dvd unat dmb" "2 ^ 30 + unat ram \<le> unat dmb" "unat dmb + unat dms \<le> ram_room ram maxram slots"
    "unat (dmb + ROUND_UP E dms GiB) = ram_room ram maxram slots"
proof -
  define a where "a = up (2 ^ 30 + unat ram) (2 ^ 30)"
  define d where "d = unat maxram - unat ram + unat slots * 2 ^ 30"
  have g: "unat GiB = 2 ^ 30" by (simp add: GiB_def)
  have le: "unat ram \<le> unat maxram" using fits by (simp add: memory_fits_def)
  have room: "ram_room ram maxram slots = a + up d (2 ^ 30)" by (simp add: ram_room_def a_def d_def)
  have ab: "2 ^ 30 dvd a" "2 ^ 30 + unat ram \<le> a" unfolding a_def by (rule up_bounds; simp)+
  have db: "d \<le> up d (2 ^ 30)" by (rule up_bounds) simp
  have top: "a + up d (2 ^ 30) + 2 ^ 39 \<le> 2 ^ 64" using room_fits [OF fits] by (simp add: room)
  have r: "unat (GiB + ram) = 2 ^ 30 + unat ram" using top ab g by (subst unat_add_small) simp_all
  have dmb: "unat dmb = a" unfolding dmb_def a_def r [symmetric] using r top ab by (intro round_up_eq [OF law g]) simp
  have sl: "unat (slots * GiB) = unat slots * 2 ^ 30" using top db g d_def by (simp add: unat_word_ariths)
  have "unat (maxram - ram) = unat maxram - unat ram" using le by (simp add: unat_sub word_le_nat_alt)
  then have dms: "unat dms = d"
    unfolding dms_def d_def using sl top db d_def by (subst unat_add_small) simp_all
  have up: "unat (ROUND_UP E dms GiB) = up d (2 ^ 30)" unfolding dms [symmetric] using dms top db by (intro round_up_eq [OF law g]) simp
  show "2 ^ 30 dvd unat dmb" "2 ^ 30 + unat ram \<le> unat dmb" using ab dmb by simp_all
  show "unat dmb + unat dms \<le> ram_room ram maxram slots" using dmb dms db room by simp
  show "unat (dmb + ROUND_UP E dms GiB) = ram_room ram maxram slots" using dmb up top room by (subst unat_add_small) simp_all
qed

lemma set_memmap_layout:
  assumes law: "round_up_law E" and fits: "memory_fits E ram maxram slots"
  obtains M where "virt_set_memmap E ram maxram slots = Inr M" "stacked (memmap M)"
    "high_start ram maxram slots \<le> unat (base (memmap M VIRT_HIGH_GIC_REDIST2))"
    "\<And>dm. device_memory M = Some dm \<Longrightarrow> 2 ^ 30 dvd unat (base dm) \<and> 2 ^ 30 + unat ram \<le> unat (base dm) \<and>
       unat (base dm) + unat (msize dm) \<le> unat (base (memmap M VIRT_HIGH_GIC_REDIST2))"
    "\<And>r. r \<notin> set high_regions \<Longrightarrow> memmap M r = base_memmap E r"
    "unat (highest_gpa M) + 1 = unat (base (memmap M VIRT_HIGH_PCIE_MMIO)) + 2 ^ 39"
proof -
  define dmb where "dmb = ROUND_UP E (GiB + ram) GiB"
  define dms where "dms = maxram - ram + slots * GiB"
  note room = device_memory_room [OF law fits, folded dmb_def dms_def]
  define b0 where "b0 = dmb + ROUND_UP E dms GiB"
  define top where "top = GiB + LEGACY_RAMLIMIT_BYTES"
  have top: "unat top = 2 ^ 38" by (simp add: top_def LEGACY_RAMLIMIT_BYTES_def LEGACY_RAMLIMIT_GB_def GiB_def)
  define b1 where "b1 = (if b0 < top then top else b0)"
  have b1: "unat b1 = high_start ram maxram slots"
    using room(4) top by (auto simp: b1_def b0_def high_start_def word_less_nat_alt)
  have fit: "high_end (unat b1) \<le> 2 ^ 64" using fits by (simp add: b1 memory_fits_def)
  obtain e m where pl: "place_high E high_regions (b1, base_memmap E) = (e, m)" "stacked m"
    "unat b1 \<le> unat (base (m VIRT_HIGH_GIC_REDIST2))" "unat (e - 1) + 1 = unat (base (m VIRT_HIGH_PCIE_MMIO)) + 2 ^ 39"
    "\<And>r. r \<notin> set high_regions \<Longrightarrow> m r = base_memmap E r"
    by (rule place_high_stacked [OF law fit, of "base_memmap E"], rule that) (assumption | blast)+
  have nowrap: "\<not> b0 < dmb" and slots: "\<not> slots > ACPI_MAX_RAM_SLOTS E"
    using room(3,4) fits by (simp_all add: b0_def word_less_nat_alt word_le_nat_alt memory_fits_def not_less)
  let ?M = "\<lparr>memmap = m, highest_gpa = e - 1,
    device_memory = (if dms > 0 then Some \<lparr>base = dmb, msize = dms\<rparr> else None)\<rparr>"
  show ?thesis
  proof (rule that [of ?M])
    show "virt_set_memmap E ram maxram slots = Inr ?M"
      using nowrap slots pl(1) [unfolded b1_def]
      by (cases "b0 < top") (simp_all add: virt_set_memmap_def Let_def dmb_def [symmetric] dms_def [symmetric]
          b0_def [symmetric] top_def [symmetric])
    show "2 ^ 30 dvd unat (base dm) \<and> 2 ^ 30 + unat ram \<le> unat (base dm) \<and>
       unat (base dm) + unat (msize dm) \<le> unat (base (memmap ?M VIRT_HIGH_GIC_REDIST2))"
      if "device_memory ?M = Some dm" for dm
    proof -
      have "dm = \<lparr>base = dmb, msize = dms\<rparr>" using that by (simp split: if_splits)
      moreover have "ram_room ram maxram slots \<le> unat b1" by (simp add: b1 high_start_def)
      ultimately show ?thesis using room(1-3) pl(3) by simp
    qed
  qed (use pl b1 in simp_all)
qed

definition real_env :: qemu_env where
  "real_env = \<lparr>MEMORY_HOTPLUG_IO_LEN = 24, ACPI_GED_EVT_SEL_LEN = 4, NVDIMM_ACPI_IO_LEN = 4, GICV3_REDIST_SIZE = 0x20000,
     GIC_NCPU = 8, ACPI_MAX_RAM_SLOTS = 256, GIC_FDT_IRQ_TYPE_SPI = 0, GIC_FDT_IRQ_TYPE_PPI = 1,
     GIC_FDT_IRQ_FLAGS_LEVEL_HI = 4, GIC_FDT_IRQ_FLAGS_EDGE_LO_HI = 1, GIC_FDT_IRQ_PPI_CPU_START = 8,
     GIC_FDT_IRQ_PPI_CPU_WIDTH = 8, deposit32 = (\<lambda>v s w f. v + f * 2 ^ s), REAL_HOST_PAGE_ALIGN = (\<lambda>n. (n + 4095) div 4096 * 4096),
     GIC_INTERNAL = 32, GIC_NR_SGIS = 16,
     GPEX_NUM_IRQS = 4, PCI_NUM_PINS = 4, PCI_SLOT = (\<lambda>d. d div 8 mod 32), PCI_DEVFN = (\<lambda>s f. of_nat (s * 8 + f)),
     cpu_to_be16 = (\<lambda>x. word_rotl 8 x), cpu_to_be32 = (\<lambda>x. x), PCIE_MMCFG_SIZE_MIN = 0x100000,
     FDT_PCI_RANGE_IOPORT = 0x1000000, FDT_PCI_RANGE_MMIO = 0x2000000, FDT_PCI_RANGE_MMIO_64BIT = 0x3000000, KEY_POWER = 116, ROUND_UP = (\<lambda>n d. of_nat ((unat n + unat d - 1) div unat d * unat d)),
     clz64 = (\<lambda>x. 64 - floorlog 2 (unat x))\<rparr>"

lemma real_env_small [simp]: "small_io real_env"
  by (simp add: small_io_def real_env_def)

lemma real_env_round_up: "round_up_law real_env"
proof -
  have "d dvd unat (of_nat m :: u64) \<and> n \<le> unat (of_nat m :: u64) \<and> unat (of_nat m :: u64) < n + d"
    if "m = (n + d - 1) div d * d" "0 < d" "n + d \<le> 2 ^ 64" for n d m :: nat
  proof -
    have m: "m \<le> n + d - 1" using that(1) by simp
    then have "m < 2 ^ 64" using that(2,3) by linarith
    then have u: "unat (of_nat m :: u64) = m" by simp
    have "n + d - 1 = m + (n + d - 1) mod d" unfolding that(1) by (simp add: div_mult_mod_eq)
    moreover have "(n + d - 1) mod d < d" using that(2) by simp
    ultimately have "n \<le> m" using that(2) by linarith
    moreover have "m < n + d" using m that(2) by linarith
    moreover have "d dvd m" unfolding that(1) by simp
    ultimately show ?thesis unfolding u by blast
  qed
  note least = this
  have up: "ROUND_UP real_env n d = of_nat ((unat n + unat d - 1) div unat d * unat d)" for n d
    by (simp add: real_env_def)
  show ?thesis unfolding round_up_law_def up
  proof (intro allI impI)
    fix n d :: u64 and k
    assume a: "unat d = 2 ^ k \<and> unat n + unat d \<le> 2 ^ 64"
    show "unat d dvd unat (of_nat ((unat n + unat d - 1) div unat d * unat d) :: u64) \<and>
      unat n \<le> unat (of_nat ((unat n + unat d - 1) div unat d * unat d) :: u64) \<and>
      unat (of_nat ((unat n + unat d - 1) div unat d * unat d) :: u64) < unat n + unat d"
      by (rule least [OF refl]) (use a in simp_all)
  qed
qed

lemma real_env_clz: "clz_law real_env"
proof -
  have "64 - floorlog 2 (unat x) < 64 \<and> 2 ^ (63 - (64 - floorlog 2 (unat x))) \<le> unat x \<and>
      unat x < 2 ^ (64 - (64 - floorlog 2 (unat x)))" if "x \<noteq> 0" for x :: u64
  proof -
    have pos: "0 < unat x" using that by (simp add: unat_gt_0)
    have "floorlog 2 (unat x) \<le> 64" using unsigned_less [of x, where ?'a = nat] by (simp add: floorlog_le_iff)
    moreover have "0 < floorlog 2 (unat x)" using pos floorlog_bounds [of "unat x" 2] by (cases "floorlog 2 (unat x)") auto
    moreover have "2 ^ (floorlog 2 (unat x) - 1) \<le> unat x \<and> unat x < 2 ^ floorlog 2 (unat x)"
      using pos by (intro floorlog_bounds) simp_all
    ultimately show ?thesis by (simp add: diff_diff_right)
  qed
  then show ?thesis by (simp add: clz_law_def real_env_def)
qed

text \<open>
  C13: The floating regions. Let the sizes be laid out without wrap-around. If that layout fits into 64 bits, the map is accepted; the
  floating regions are aligned to their sizes, in order and disjoint, at or above 256 GiB and above the RAM and the device memory,
  which starts on a 1 GiB boundary after the RAM; the fixed regions stay as they are, and the highest address is the end of the last
  region. Of the maps that are accepted exactly those that fit have their floating regions stacked above the memory: the code
  does not check that the end of the regions fits.
\<close>

theorem high_map_layout:
  assumes "round_up_law E" "unat ram \<le> unat maxram" "slots \<le> ACPI_MAX_RAM_SLOTS E"
  shows "(high_end (high_start ram maxram slots) \<le> 2 ^ 64 \<longrightarrow>
      (\<exists>M. virt_set_memmap E ram maxram slots = Inr M \<and>
        (\<forall>dm. device_memory M = Some dm \<longrightarrow> 2 ^ 30 dvd unat (base dm) \<and> 2 ^ 30 + unat ram \<le> unat (base dm) \<and>
           unat (base dm) + unat (msize dm) \<le> unat (base (memmap M VIRT_HIGH_GIC_REDIST2))) \<and>
        (\<forall>r. r \<notin> set high_regions \<longrightarrow> memmap M r = base_memmap E r) \<and>
        unat (highest_gpa M) + 1 = unat (base (memmap M VIRT_HIGH_PCIE_MMIO)) + 2 ^ 39)) \<and>
    (\<forall>M. virt_set_memmap E ram maxram slots = Inr M \<longrightarrow>
      (stacked (memmap M) \<and> 2 ^ 38 \<le> unat (base (memmap M VIRT_HIGH_GIC_REDIST2)) \<and>
         ram_room ram maxram slots \<le> unat (base (memmap M VIRT_HIGH_GIC_REDIST2)) \<longleftrightarrow>
       high_end (high_start ram maxram slots) \<le> 2 ^ 64))"
proof (intro conjI impI allI iffI)
  assume fit: "high_end (high_start ram maxram slots) \<le> 2 ^ 64"
  then have fits: "memory_fits E ram maxram slots" using assms by (simp add: memory_fits_def)
  show "\<exists>M. virt_set_memmap E ram maxram slots = Inr M \<and>
      (\<forall>dm. device_memory M = Some dm \<longrightarrow> 2 ^ 30 dvd unat (base dm) \<and> 2 ^ 30 + unat ram \<le> unat (base dm) \<and>
         unat (base dm) + unat (msize dm) \<le> unat (base (memmap M VIRT_HIGH_GIC_REDIST2))) \<and>
      (\<forall>r. r \<notin> set high_regions \<longrightarrow> memmap M r = base_memmap E r) \<and>
      unat (highest_gpa M) + 1 = unat (base (memmap M VIRT_HIGH_PCIE_MMIO)) + 2 ^ 39"
    by (rule set_memmap_layout [OF assms(1) fits]) blast
  fix M
  assume M: "virt_set_memmap E ram maxram slots = Inr M"
  obtain M' where "virt_set_memmap E ram maxram slots = Inr M'" "stacked (memmap M')"
    "high_start ram maxram slots \<le> unat (base (memmap M' VIRT_HIGH_GIC_REDIST2))"
    by (rule set_memmap_layout [OF assms(1) fits])
  then show "stacked (memmap M)" "2 ^ 38 \<le> unat (base (memmap M VIRT_HIGH_GIC_REDIST2))"
    "ram_room ram maxram slots \<le> unat (base (memmap M VIRT_HIGH_GIC_REDIST2))"
    using M by (simp_all add: high_start_def)
next
  fix M
  assume s: "stacked (memmap M) \<and> 2 ^ 38 \<le> unat (base (memmap M VIRT_HIGH_GIC_REDIST2)) \<and>
    ram_room ram maxram slots \<le> unat (base (memmap M VIRT_HIGH_GIC_REDIST2))"
  then have "high_start ram maxram slots \<le> unat (base (memmap M VIRT_HIGH_GIC_REDIST2))" by (simp add: high_start_def)
  then show "high_end (high_start ram maxram slots) \<le> 2 ^ 64"
    using s high_end_least [of "memmap M"] stacked_end [of "memmap M"] by force
qed

text \<open>The last 64-bit sizes: accepted, and the window for PCI memory is at address 0.\<close>

lemma high_map_wraps:
  "\<exists>M. virt_set_memmap real_env 0x80000000 0xFFFFFFC000000000 0 = Inr M \<and> base (memmap M VIRT_HIGH_PCIE_MMIO) = 0"
  by (simp add: virt_set_memmap_def real_env_def high_regions_def LEGACY_RAMLIMIT_BYTES_def LEGACY_RAMLIMIT_GB_def GiB_def MiB_def Let_def)

theorem high_map_layout_witness:
  "(\<exists>M. virt_set_memmap real_env (2 * GiB) (4 * GiB) 2 = Inr M \<and> stacked (memmap M)) \<and>
   (\<exists>M. virt_set_memmap real_env 0x80000000 0xFFFFFFC000000000 0 = Inr M \<and>
     \<not> (stacked (memmap M) \<and> 2 ^ 38 \<le> unat (base (memmap M VIRT_HIGH_GIC_REDIST2)) \<and>
        ram_room 0x80000000 0xFFFFFFC000000000 0 \<le> unat (base (memmap M VIRT_HIGH_GIC_REDIST2))))"
proof -
  have max: "2 \<le> ACPI_MAX_RAM_SLOTS real_env" "0 \<le> ACPI_MAX_RAM_SLOTS real_env" by (simp_all add: real_env_def)
  have le: "unat (2 * GiB) \<le> unat (4 * GiB)" "unat (0x80000000 :: u64) \<le> unat (0xFFFFFFC000000000 :: u64)"
    by (simp_all add: GiB_def)
  have "high_end (high_start (2 * GiB) (4 * GiB) 2) \<le> 2 ^ 64"
    by (simp add: high_end_def high_start_def ram_room_def up_def GiB_def)
  with high_map_layout [OF real_env_round_up le(1) max(1)]
  have "\<exists>M. virt_set_memmap real_env (2 * GiB) (4 * GiB) 2 = Inr M \<and> stacked (memmap M)" by blast
  moreover obtain M where M: "virt_set_memmap real_env 0x80000000 0xFFFFFFC000000000 0 = Inr M"
    using high_map_wraps by blast
  moreover have "\<not> high_end (high_start 0x80000000 0xFFFFFFC000000000 0) \<le> 2 ^ 64"
    by (simp add: high_end_def high_start_def ram_room_def up_def)
  ultimately show ?thesis using high_map_layout [OF real_env_round_up le(2) max(2)] by blast
qed

theorem low_map_disjoint_witness:
  "end_of real_env VIRT_SECURE_GPIO \<le> start_of real_env VIRT_UART2 \<or>
    end_of real_env VIRT_UART2 \<le> start_of real_env VIRT_SECURE_GPIO"
  using low_map_disjoint [OF real_env_small, of VIRT_SECURE_GPIO VIRT_UART2] by (simp add: low_devices_def)

text \<open>
  When the address width is accepted, every address of the map has at most that many bits and
  the host supports them; it is never below 32. Hosts with a fixed width get zero.
\<close>

theorem kvm_type_covers:
  assumes law: "round_up_law E" "clz_law E" and fits: "memory_fits E ram maxram slots"
  shows "\<exists>M. virt_set_memmap E ram maxram slots = Inr M \<and>
    (case virt_kvm_type E max_vm fixed ram maxram slots of
       Inl e \<Rightarrow> 32 \<le> max_vm \<longrightarrow> 2 ^ max_vm \<le> unat (highest_gpa M)
     | Inr (n, M') \<Rightarrow> M' = M \<and> (fixed \<longrightarrow> n = 0) \<and> unat (highest_gpa M) < 2 ^ max_vm \<and>
         (\<not> fixed \<longrightarrow> 32 \<le> n \<and> n \<le> max_vm \<and> unat (highest_gpa M) < 2 ^ n))"
proof -
  obtain M where M: "virt_set_memmap E ram maxram slots = Inr M"
    "unat (highest_gpa M) + 1 = unat (base (memmap M VIRT_HIGH_PCIE_MMIO)) + 2 ^ 39"
    by (rule set_memmap_layout [OF law(1) fits])
  let ?c = "clz64 E (highest_gpa M)"
  have "highest_gpa M \<noteq> 0" using M(2) by auto
  then have c: "?c < 64" "2 ^ (63 - ?c) \<le> unat (highest_gpa M)" "unat (highest_gpa M) < 2 ^ (64 - ?c)"
    using law(2) by (simp_all add: clz_law_def)
  have up: "unat (highest_gpa M) < 2 ^ k" if "64 - ?c \<le> k" for k
    using c(3) power_increasing [OF that, of "2 :: nat"] by linarith
  have down: "2 ^ k \<le> unat (highest_gpa M)" if "k \<le> 63 - ?c" for k
    using c(2) power_increasing [OF that, of "2 :: nat"] by linarith
  let ?n = "if 64 - ?c < 32 then 32 else 64 - ?c"
  show ?thesis
  proof (cases "?n > max_vm")
    case True
    then have "32 \<le> max_vm \<Longrightarrow> max_vm \<le> 63 - ?c" using c(1) by (simp split: if_splits)
    then have "32 \<le> max_vm \<longrightarrow> 2 ^ max_vm \<le> unat (highest_gpa M)" using down by blast
    with M(1) True show ?thesis by (simp add: virt_kvm_type_def requested_pa_size_def Let_def)
  next
    case False
    then have "64 - ?c \<le> max_vm" by (simp split: if_splits)
    then have "unat (highest_gpa M) < 2 ^ max_vm" by (rule up)
    moreover have "unat (highest_gpa M) < 2 ^ ?n" by (rule up) simp
    ultimately show ?thesis using M(1) False by (auto simp: virt_kvm_type_def requested_pa_size_def Let_def)
  qed
qed

theorem kvm_type_covers_witness:
  "\<exists>M. virt_set_memmap real_env (2 * GiB) (4 * GiB) 2 = Inr M \<and>
    (case virt_kvm_type real_env 48 False (2 * GiB) (4 * GiB) 2 of
       Inl e \<Rightarrow> 2 ^ 48 \<le> unat (highest_gpa M) | Inr (n, M') \<Rightarrow> M' = M \<and> 32 \<le> n \<and> n \<le> 48 \<and> unat (highest_gpa M) < 2 ^ n)"
proof -
  have "memory_fits real_env (2 * GiB) (4 * GiB) 2"
    by (simp add: memory_fits_def real_env_def GiB_def high_end_def high_start_def ram_room_def up_def)
  from kvm_type_covers [OF real_env_round_up real_env_clz this, of 48 False] show ?thesis
    by (auto split: sum.splits)
qed

section \<open>The interrupt lines\<close>

text \<open>How many lines a device uses from its entry on; \<open>pins\<close> is the number of legacy PCI interrupts.\<close>

definition irq_count :: "nat \<Rightarrow> region \<Rightarrow> nat" where
  "irq_count pins r = (if r = VIRT_PCIE then pins else if r = VIRT_MMIO then NUM_VIRTIO_TRANSPORTS
     else if r = VIRT_GIC_V2M then NUM_GICV2M_SPIS else if r = VIRT_SMMU then NUM_SMMU_IRQS
     else if r = VIRT_PLATFORM_BUS then PLATFORM_BUS_NUM_IRQS else 1)"

definition irq_lines :: "nat \<Rightarrow> region \<Rightarrow> nat set" where
  "irq_lines pins r = {a15irqmap r ..< a15irqmap r + irq_count pins r}"

definition irq_devices :: "region list" where
  "irq_devices = [VIRT_UART, VIRT_RTC, VIRT_PCIE, VIRT_GPIO, VIRT_SECURE_UART, VIRT_ACPI_GED, VIRT_UART2, VIRT_MMIO,
     VIRT_GIC_V2M, VIRT_SMMU, VIRT_PLATFORM_BUS]"

text \<open>
  Every device's interrupt lines are within the 256 of the GIC, and two devices share a line only if they are
  the GICv2m frame and the SMMU; these two do, on the lines 74 to 77.
\<close>

theorem irq_lines_disjoint:
  assumes "pins \<le> 4" "r \<in> set irq_devices" "s \<in> set irq_devices" "r \<noteq> s"
  shows "irq_lines pins r \<subseteq> {0 ..< NUM_IRQS} \<and>
    (irq_lines pins r \<inter> irq_lines pins s \<noteq> {} \<longleftrightarrow> {r, s} = {VIRT_GIC_V2M, VIRT_SMMU}) \<and>
    irq_lines pins VIRT_GIC_V2M \<inter> irq_lines pins VIRT_SMMU = {74 ..< 78}"
proof -
  have range: "irq_lines pins q \<subseteq> {0 ..< NUM_IRQS}" if "q \<in> set irq_devices" for q
    using that assms(1) by (auto simp: irq_devices_def irq_lines_def irq_count_def virt_numbers)
  have both: "irq_lines pins VIRT_GIC_V2M \<inter> irq_lines pins VIRT_SMMU = {74 ..< 78}"
    by (auto simp: irq_lines_def irq_count_def virt_numbers)
  then have both': "irq_lines pins VIRT_SMMU \<inter> irq_lines pins VIRT_GIC_V2M = {74 ..< 78}" by blast
  have sorted: "sorted_wrt (\<lambda>r s. a15irqmap r + irq_count pins r \<le> a15irqmap s \<or> {r, s} = {VIRT_GIC_V2M, VIRT_SMMU}) irq_devices"
    using assms(1) by (simp add: irq_devices_def irq_count_def virt_numbers insert_commute)
  have "irq_lines pins r \<inter> irq_lines pins s = {}" if "{r, s} \<noteq> {VIRT_GIC_V2M, VIRT_SMMU}"
    using sorted_wrt_pair [OF sorted assms(2-4)] that by (auto simp: irq_lines_def insert_commute)
  moreover have "irq_lines pins r \<inter> irq_lines pins s \<noteq> {}" if "{r, s} = {VIRT_GIC_V2M, VIRT_SMMU}"
    using that both both' by (auto simp: doubleton_eq_iff)
  ultimately show ?thesis using range assms(2) both by blast
qed

theorem irq_lines_disjoint_witness:
  "irq_lines 4 VIRT_UART2 \<inter> irq_lines 4 VIRT_MMIO = {} \<and> irq_lines 4 VIRT_UART2 \<subseteq> {0 ..< NUM_IRQS}"
  using irq_lines_disjoint [of 4 VIRT_UART2 VIRT_MMIO] by (auto simp: irq_devices_def doubleton_eq_iff)

end
