(* ===== verification/Virt_Config.thy ===== *)
theory Virt_Config
  imports Virt_Layout
begin

text \<open>
  Configuration of the QEMU board: the machine classes of the versions, the defaults of an instance, the
  properties a user can set, the choice of the GIC version and the limit on the number of CPUs.
\<close>

section \<open>Types\<close>

datatype VirtGICType = VIRT_GIC_VERSION_MAX | VIRT_GIC_VERSION_HOST | VIRT_GIC_VERSION_2 | VIRT_GIC_VERSION_3
  | VIRT_GIC_VERSION_NOSEL
datatype VirtIOMMUType = VIRT_IOMMU_NONE | VIRT_IOMMU_SMMUV3 | VIRT_IOMMU_VIRTIO
datatype VirtMSIControllerType = VIRT_MSI_CTRL_NONE | VIRT_MSI_CTRL_GICV2M | VIRT_MSI_CTRL_ITS
datatype OnOffAuto = ON_OFF_AUTO_AUTO | ON_OFF_AUTO_ON | ON_OFF_AUTO_OFF

text \<open>The board's class, after the fields of the general machine class that the versions set.\<close>

record VirtMachineClass =
  compat_props :: "string list"
  prefer_sockets :: bool
  numa_mem_supported :: bool
  auto_enable_numa_with_memdev :: bool
  auto_enable_numa_with_memhp :: bool
  class_max_cpus :: nat
  ignore_memory_transaction_failures :: bool
  minimum_page_bits :: nat
  disallow_affinity_adjustment :: bool
  no_its :: bool
  no_tcg_its :: bool
  no_pmu :: bool
  claim_edge_triggered_timers :: bool
  smbios_old_sys_ver :: bool
  no_highmem_ecam :: bool
  no_ged :: bool
  kvm_no_adjvtime :: bool
  no_kvm_steal_time :: bool
  acpi_expose_flash :: bool
  no_secure_gpio :: bool
  no_cpu_topology :: bool

record VirtMachineState =
  secure :: bool
  highmem :: bool
  highmem_ecam :: bool
  its :: bool
  tcg_its :: bool
  virt :: bool
  ras :: bool
  mte :: bool
  acpi :: OnOffAuto
  gic_version :: VirtGICType
  iommu :: VirtIOMMUType
  default_bus_bypass_iommu :: bool
  msi_controller :: VirtMSIControllerType
  vmap :: "region \<Rightarrow> MemMapEntry"
  irqmap :: "region \<Rightarrow> nat"
  clock_phandle :: u32
  gic_phandle :: u32
  msi_phandle :: u32
  iommu_phandle :: u32
  vms_highest_gpa :: u64
  oem_id :: string
  oem_table_id :: string

section \<open>Versions of the machine\<close>

text \<open>The fields above as \<^verbatim>\<open>virt_machine_class_init\<close> leaves them.\<close>

definition virt_class_defaults :: VirtMachineClass where
  "virt_class_defaults = \<lparr>compat_props = [], prefer_sockets = False, numa_mem_supported = False,
     auto_enable_numa_with_memdev = True, auto_enable_numa_with_memhp = True, class_max_cpus = 512,
     ignore_memory_transaction_failures = False, minimum_page_bits = 12, disallow_affinity_adjustment = False,
     no_its = False, no_tcg_its = False, no_pmu = False, claim_edge_triggered_timers = False,
     smbios_old_sys_ver = False, no_highmem_ecam = False, no_ged = False, kvm_no_adjvtime = False,
     no_kvm_steal_time = False, acpi_expose_flash = False, no_secure_gpio = False, no_cpu_topology = False\<rparr>"

definition compat_props_add :: "string \<Rightarrow> VirtMachineClass \<Rightarrow> VirtMachineClass" where
  "compat_props_add p mc = mc\<lparr>compat_props := compat_props mc @ [p]\<rparr>"

definition virt_machine_6_2_options :: "VirtMachineClass \<Rightarrow> VirtMachineClass" where
  "virt_machine_6_2_options mc = mc"

definition virt_machine_6_1_options :: "VirtMachineClass \<Rightarrow> VirtMachineClass" where
  "virt_machine_6_1_options mc = (compat_props_add ''hw_compat_6_1'' (virt_machine_6_2_options mc))
     \<lparr>prefer_sockets := True, no_cpu_topology := True, no_tcg_its := True\<rparr>"

definition virt_machine_6_0_options :: "VirtMachineClass \<Rightarrow> VirtMachineClass" where
  "virt_machine_6_0_options mc = compat_props_add ''hw_compat_6_0'' (virt_machine_6_1_options mc)"

definition virt_machine_5_2_options :: "VirtMachineClass \<Rightarrow> VirtMachineClass" where
  "virt_machine_5_2_options mc = (compat_props_add ''hw_compat_5_2'' (virt_machine_6_0_options mc))\<lparr>no_secure_gpio := True\<rparr>"

definition virt_machine_5_1_options :: "VirtMachineClass \<Rightarrow> VirtMachineClass" where
  "virt_machine_5_1_options mc = (compat_props_add ''hw_compat_5_1'' (virt_machine_5_2_options mc))\<lparr>no_kvm_steal_time := True\<rparr>"

definition virt_machine_5_0_options :: "VirtMachineClass \<Rightarrow> VirtMachineClass" where
  "virt_machine_5_0_options mc = (compat_props_add ''hw_compat_5_0'' (virt_machine_5_1_options mc))
     \<lparr>numa_mem_supported := True, acpi_expose_flash := True, auto_enable_numa_with_memdev := False\<rparr>"

definition virt_machine_4_2_options :: "VirtMachineClass \<Rightarrow> VirtMachineClass" where
  "virt_machine_4_2_options mc = (compat_props_add ''hw_compat_4_2'' (virt_machine_5_0_options mc))\<lparr>kvm_no_adjvtime := True\<rparr>"

definition virt_machine_4_1_options :: "VirtMachineClass \<Rightarrow> VirtMachineClass" where
  "virt_machine_4_1_options mc = (compat_props_add ''hw_compat_4_1'' (virt_machine_4_2_options mc))
     \<lparr>no_ged := True, auto_enable_numa_with_memhp := False\<rparr>"

definition virt_machine_4_0_options :: "VirtMachineClass \<Rightarrow> VirtMachineClass" where
  "virt_machine_4_0_options mc = compat_props_add ''hw_compat_4_0'' (virt_machine_4_1_options mc)"

definition virt_machine_3_1_options :: "VirtMachineClass \<Rightarrow> VirtMachineClass" where
  "virt_machine_3_1_options mc = compat_props_add ''hw_compat_3_1'' (virt_machine_4_0_options mc)"

definition virt_machine_3_0_options :: "VirtMachineClass \<Rightarrow> VirtMachineClass" where
  "virt_machine_3_0_options mc = compat_props_add ''hw_compat_3_0'' (virt_machine_3_1_options mc)"

definition virt_machine_2_12_options :: "VirtMachineClass \<Rightarrow> VirtMachineClass" where
  "virt_machine_2_12_options mc = (compat_props_add ''hw_compat_2_12'' (virt_machine_3_0_options mc))
     \<lparr>no_highmem_ecam := True, class_max_cpus := 255\<rparr>"

definition virt_machine_2_11_options :: "VirtMachineClass \<Rightarrow> VirtMachineClass" where
  "virt_machine_2_11_options mc = (compat_props_add ''hw_compat_2_11'' (virt_machine_2_12_options mc))\<lparr>smbios_old_sys_ver := True\<rparr>"

definition virt_machine_2_10_options :: "VirtMachineClass \<Rightarrow> VirtMachineClass" where
  "virt_machine_2_10_options mc = (compat_props_add ''hw_compat_2_10'' (virt_machine_2_11_options mc))
     \<lparr>ignore_memory_transaction_failures := True\<rparr>"

definition virt_machine_2_9_options :: "VirtMachineClass \<Rightarrow> VirtMachineClass" where
  "virt_machine_2_9_options mc = compat_props_add ''hw_compat_2_9'' (virt_machine_2_10_options mc)"

definition virt_machine_2_8_options :: "VirtMachineClass \<Rightarrow> VirtMachineClass" where
  "virt_machine_2_8_options mc = (compat_props_add ''hw_compat_2_8'' (virt_machine_2_9_options mc))
     \<lparr>claim_edge_triggered_timers := True\<rparr>"

definition virt_machine_2_7_options :: "VirtMachineClass \<Rightarrow> VirtMachineClass" where
  "virt_machine_2_7_options mc = (compat_props_add ''hw_compat_2_7'' (virt_machine_2_8_options mc))
     \<lparr>no_its := True, minimum_page_bits := 0\<rparr>"

definition virt_machine_2_6_options :: "VirtMachineClass \<Rightarrow> VirtMachineClass" where
  "virt_machine_2_6_options mc = (compat_props_add ''hw_compat_2_6'' (virt_machine_2_7_options mc))
     \<lparr>disallow_affinity_adjustment := True, no_pmu := True\<rparr>"

text \<open>The machine types, from the latest to the oldest.\<close>

definition virt_versions :: "VirtMachineClass list" where
  "virt_versions = map (\<lambda>opts. opts virt_class_defaults)
     [virt_machine_6_2_options, virt_machine_6_1_options, virt_machine_6_0_options, virt_machine_5_2_options,
      virt_machine_5_1_options, virt_machine_5_0_options, virt_machine_4_2_options, virt_machine_4_1_options,
      virt_machine_4_0_options, virt_machine_3_1_options, virt_machine_3_0_options, virt_machine_2_12_options,
      virt_machine_2_11_options, virt_machine_2_10_options, virt_machine_2_9_options, virt_machine_2_8_options,
      virt_machine_2_7_options, virt_machine_2_6_options]"

section \<open>An instance\<close>

text \<open>
  The object is allocated with zeroes. \<open>names\<close> gives \<^verbatim>\<open>ACPI_BUILD_APPNAME6\<close> and
  \<^verbatim>\<open>ACPI_BUILD_APPNAME8\<close>; \<^verbatim>\<open>g_strndup\<close> copies at most the given number of
  characters into a buffer of that size and a terminating zero.
\<close>

definition nul :: char where "nul = CHR 0x00"

definition g_strndup :: "string \<Rightarrow> nat \<Rightarrow> string" where
  "g_strndup s n = (let t = take n (takeWhile (\<lambda>c. c \<noteq> nul) s) in t @ replicate (n + 1 - length t) nul)"

definition virt_instance_init :: "string \<times> string \<Rightarrow> VirtMachineClass \<Rightarrow> VirtMachineState" where
  "virt_instance_init names vmc = \<lparr>secure = False, highmem = True, highmem_ecam = \<not> no_highmem_ecam vmc,
     its = \<not> no_its vmc, tcg_its = (\<not> no_its vmc \<and> \<not> no_tcg_its vmc), virt = False, ras = False, mte = False,
     acpi = ON_OFF_AUTO_AUTO, gic_version = VIRT_GIC_VERSION_NOSEL, iommu = VIRT_IOMMU_NONE,
     default_bus_bypass_iommu = False, msi_controller = VIRT_MSI_CTRL_NONE, vmap = (\<lambda>r. \<lparr>base = 0, msize = 0\<rparr>),
     irqmap = a15irqmap, clock_phandle = 0, gic_phandle = 0, msi_phandle = 0, iommu_phandle = 0, vms_highest_gpa = 0,
     oem_id = g_strndup (fst names) 6, oem_table_id = g_strndup (snd names) 8\<rparr>"

section \<open>Properties\<close>

text \<open>A setter that can fail returns the message, and the machine as it was.\<close>

definition virt_set_gic_version :: "string \<Rightarrow> VirtMachineState \<Rightarrow> string option \<times> VirtMachineState" where
  "virt_set_gic_version value vms =
     (if value = ''3'' then (None, vms\<lparr>gic_version := VIRT_GIC_VERSION_3\<rparr>)
      else if value = ''2'' then (None, vms\<lparr>gic_version := VIRT_GIC_VERSION_2\<rparr>)
      else if value = ''host'' then (None, vms\<lparr>gic_version := VIRT_GIC_VERSION_HOST\<rparr>)
      else if value = ''max'' then (None, vms\<lparr>gic_version := VIRT_GIC_VERSION_MAX\<rparr>)
      else (Some ''Invalid gic-version value'', vms))"

definition virt_get_gic_version :: "VirtMachineState \<Rightarrow> string" where
  "virt_get_gic_version vms = (if gic_version vms = VIRT_GIC_VERSION_3 then ''3'' else ''2'')"

definition virt_set_iommu :: "string \<Rightarrow> VirtMachineState \<Rightarrow> string option \<times> VirtMachineState" where
  "virt_set_iommu value vms =
     (if value = ''smmuv3'' then (None, vms\<lparr>iommu := VIRT_IOMMU_SMMUV3\<rparr>)
      else if value = ''none'' then (None, vms\<lparr>iommu := VIRT_IOMMU_NONE\<rparr>)
      else (Some ''Invalid iommu value'', vms))"

text \<open>Reading the property of a machine with a virtio IOMMU runs into an assertion.\<close>

definition virt_get_iommu :: "VirtMachineState \<Rightarrow> string result" where
  "virt_get_iommu vms = (case iommu vms of
     VIRT_IOMMU_NONE \<Rightarrow> Inr ''none'' | VIRT_IOMMU_SMMUV3 \<Rightarrow> Inr ''smmuv3'' | VIRT_IOMMU_VIRTIO \<Rightarrow> Inl KernelBug)"

text \<open>\<^verbatim>\<open>strncpy\<close> writes exactly \<open>n\<close> characters, padding with zeroes; a string ends at its first zero.\<close>

definition strncpy :: "string \<Rightarrow> string \<Rightarrow> nat \<Rightarrow> string result" where
  "strncpy dest src n = (if length dest < n then Inl OutOfBounds
     else let t = take n (takeWhile (\<lambda>c. c \<noteq> nul) src) in Inr (t @ replicate (n - length t) nul @ drop n dest))"

definition c_string :: "string \<Rightarrow> string" where
  "c_string s = takeWhile (\<lambda>c. c \<noteq> nul) s"

definition virt_set_oem_id :: "string \<Rightarrow> VirtMachineState \<Rightarrow> (string option \<times> VirtMachineState) result" where
  "virt_set_oem_id value vms =
     (if length (c_string value) > 6 then Inr (Some ''User specified oem-id value is bigger than 6 bytes in size'', vms)
      else rbind (strncpy (oem_id vms) value 6) (\<lambda>b. Inr (None, vms\<lparr>oem_id := b\<rparr>)))"

definition virt_get_oem_id :: "VirtMachineState \<Rightarrow> string" where
  "virt_get_oem_id vms = c_string (oem_id vms)"

definition virt_set_oem_table_id :: "string \<Rightarrow> VirtMachineState \<Rightarrow> (string option \<times> VirtMachineState) result" where
  "virt_set_oem_table_id value vms =
     (if length (c_string value) > 8
      then Inr (Some ''User specified oem-table-id value is bigger than 8 bytes in size'', vms)
      else rbind (strncpy (oem_table_id vms) value 8) (\<lambda>b. Inr (None, vms\<lparr>oem_table_id := b\<rparr>)))"

definition virt_get_oem_table_id :: "VirtMachineState \<Rightarrow> string" where
  "virt_get_oem_table_id vms = c_string (oem_table_id vms)"

definition virt_is_acpi_enabled :: "VirtMachineState \<Rightarrow> bool" where
  "virt_is_acpi_enabled vms = (acpi vms \<noteq> ON_OFF_AUTO_OFF)"

section \<open>The choice of the GIC\<close>

text \<open>What KVM offers: whether it is used, whether it emulates the GIC, and which versions.\<close>

record kvm_host =
  kvm_enabled :: bool
  kvm_irqchip_in_kernel :: bool
  probe_v2 :: bool
  probe_v3 :: bool

definition finalize_gic_version :: "qemu_env \<Rightarrow> kvm_host \<Rightarrow> nat \<Rightarrow> VirtGICType \<Rightarrow> VirtGICType qemu" where
  "finalize_gic_version E kvm max_cpus v =
     (if kvm_enabled kvm then
        (if \<not> kvm_irqchip_in_kernel kvm then
           (case v of
              VIRT_GIC_VERSION_HOST \<Rightarrow> Inr v
            | VIRT_GIC_VERSION_MAX \<Rightarrow> Inr VIRT_GIC_VERSION_2
            | VIRT_GIC_VERSION_NOSEL \<Rightarrow> Inr VIRT_GIC_VERSION_2
            | VIRT_GIC_VERSION_2 \<Rightarrow> Inr v
            | VIRT_GIC_VERSION_3 \<Rightarrow> Inl ''gic-version=3 is not supported with kernel-irqchip=off'')
         else if \<not> (probe_v2 kvm \<or> probe_v3 kvm) then Inl ''Unable to determine GIC version supported by host''
         else if v = VIRT_GIC_VERSION_HOST \<or> v = VIRT_GIC_VERSION_MAX then
           Inr (if probe_v3 kvm then VIRT_GIC_VERSION_3 else VIRT_GIC_VERSION_2)
         else
           rbind
             (if v = VIRT_GIC_VERSION_NOSEL then
                (if probe_v2 kvm \<and> max_cpus \<le> GIC_NCPU E then Inr VIRT_GIC_VERSION_2
                 else if probe_v3 kvm then Inr VIRT_GIC_VERSION_3
                 else if max_cpus > GIC_NCPU E
                 then Inl ''host only supports in-kernel GICv2 emulation but more than 8 vcpus are requested''
                 else Inr v)
              else Inr v)
             (\<lambda>v'. if v' = VIRT_GIC_VERSION_2 \<and> \<not> probe_v2 kvm then Inl ''host does not support in-kernel GICv2 emulation''
                   else if v' = VIRT_GIC_VERSION_3 \<and> \<not> probe_v3 kvm then Inl ''host does not support in-kernel GICv3 emulation''
                   else Inr v'))
      else
        (case v of
           VIRT_GIC_VERSION_NOSEL \<Rightarrow> Inr VIRT_GIC_VERSION_2
         | VIRT_GIC_VERSION_MAX \<Rightarrow> Inr VIRT_GIC_VERSION_3
         | VIRT_GIC_VERSION_HOST \<Rightarrow> Inl ''gic-version=host requires KVM''
         | VIRT_GIC_VERSION_2 \<Rightarrow> Inr v
         | VIRT_GIC_VERSION_3 \<Rightarrow> Inr v))"

text \<open>How many CPUs the map has room for, and the check of the request.\<close>

definition redist_capacity :: "qemu_env \<Rightarrow> MemMapEntry \<Rightarrow> nat" where
  "redist_capacity E e = unat (msize e div GICV3_REDIST_SIZE E)"

definition virt_max_cpus :: "qemu_env \<Rightarrow> VirtMachineState \<Rightarrow> nat" where
  "virt_max_cpus E vms = (if gic_version vms = VIRT_GIC_VERSION_3
     then redist_capacity E (vmap vms VIRT_GIC_REDIST) + redist_capacity E (vmap vms VIRT_HIGH_GIC_REDIST2)
     else GIC_NCPU E)"

definition virt_gicv3_redist_region_count :: "qemu_env \<Rightarrow> nat \<Rightarrow> VirtMachineState \<Rightarrow> nat result" where
  "virt_gicv3_redist_region_count E smp_cpus vms =
     (if gic_version vms \<noteq> VIRT_GIC_VERSION_3 then Inl KernelBug
      else Inr (if smp_cpus > redist_capacity E (vmap vms VIRT_GIC_REDIST) then 2 else 1))"

text \<open>\<open>suffix\<close> is what \<^verbatim>\<open>ARM_CPU_TYPE_NAME\<close> appends to a name.\<close>

definition valid_cpus :: "string \<Rightarrow> string list" where
  "valid_cpus suffix = map (\<lambda>s. s @ suffix)
     [''cortex-a7'', ''cortex-a15'', ''cortex-a53'', ''cortex-a57'', ''cortex-a72'', ''a64fx'', ''host'', ''max'']"

fun cpu_type_valid_from :: "string list \<Rightarrow> string \<Rightarrow> bool" where
  "cpu_type_valid_from [] cpu = False"
| "cpu_type_valid_from (v # vs) cpu = (if cpu = v then True else cpu_type_valid_from vs cpu)"

definition cpu_type_valid :: "string \<Rightarrow> string \<Rightarrow> bool" where
  "cpu_type_valid suffix cpu = cpu_type_valid_from (valid_cpus suffix) cpu"

section \<open>What the configuration guarantees\<close>

text \<open>The versions that the accelerator offers, in ascending order.\<close>

definition gic_offers :: "kvm_host \<Rightarrow> VirtGICType list" where
  "gic_offers kvm =
     (if \<not> kvm_enabled kvm then [VIRT_GIC_VERSION_2, VIRT_GIC_VERSION_3]
      else if \<not> kvm_irqchip_in_kernel kvm then [VIRT_GIC_VERSION_2]
      else (if probe_v2 kvm then [VIRT_GIC_VERSION_2] else []) @ (if probe_v3 kvm then [VIRT_GIC_VERSION_3] else []))"

text \<open>
  What the option means: a number asks for that version, \<^verbatim>\<open>max\<close> for the highest one offered, \<^verbatim>\<open>host\<close> for the
  highest one that KVM emulates; without the option it is the lowest one offered that has room for the CPUs, where only KVM's own
  version 2 is limited at this point.
\<close>

definition gic_choice :: "qemu_env \<Rightarrow> kvm_host \<Rightarrow> nat \<Rightarrow> VirtGICType \<Rightarrow> VirtGICType option" where
  "gic_choice E kvm max_cpus v =
     (let pick = (\<lambda>ws. if v = VIRT_GIC_VERSION_NOSEL then hd ws else last ws);
          roomy = (\<lambda>w. w = VIRT_GIC_VERSION_3 \<or> max_cpus \<le> GIC_NCPU E \<or> \<not> (kvm_enabled kvm \<and> kvm_irqchip_in_kernel kvm));
          ws = filter (case v of
              VIRT_GIC_VERSION_NOSEL \<Rightarrow> roomy
            | VIRT_GIC_VERSION_MAX \<Rightarrow> (\<lambda>w. True)
            | VIRT_GIC_VERSION_HOST \<Rightarrow> (\<lambda>w. kvm_enabled kvm)
            | _ \<Rightarrow> (\<lambda>w. w = v)) (gic_offers kvm)
      in if ws = [] then None else Some (pick ws))"

text \<open>
  C35: The choice of the GIC is the meaning of the option: it succeeds exactly if a version that is asked for is offered, and
  yields that version; the one exception is the request for the host's version while KVM runs without its own GIC. There it succeeds
  and leaves the version unresolved, although the warning says that version 2 is used.
\<close>

theorem gic_version_final:
  "finalize_gic_version E kvm max_cpus v = Inr w \<longleftrightarrow>
     (if v = VIRT_GIC_VERSION_HOST \<and> kvm_enabled kvm \<and> \<not> kvm_irqchip_in_kernel kvm then w = VIRT_GIC_VERSION_HOST
      else gic_choice E kvm max_cpus v = Some w)"
  by (cases v) (auto simp: finalize_gic_version_def gic_choice_def gic_offers_def Let_def)

text \<open>The identifiers of the ACPI tables read back as set, and the write stays within the buffer.\<close>

lemma takeWhile_nul_append: "takeWhile (\<lambda>c. c \<noteq> nul) (takeWhile (\<lambda>c. c \<noteq> nul) s @ replicate k nul @ [nul]) = takeWhile (\<lambda>c. c \<noteq> nul) s"
proof -
  have "takeWhile (\<lambda>c. c \<noteq> nul) (replicate k nul @ [nul]) = []" by (cases k) simp_all
  then show ?thesis by (subst takeWhile_append2) (auto dest: set_takeWhileD)
qed

lemma oem_id_round_trip:
  assumes "length (oem_id vms) = 7" "oem_id vms ! 6 = nul" "length (c_string value) \<le> 6"
  shows "\<exists>vms'. virt_set_oem_id value vms = Inr (None, vms') \<and> virt_get_oem_id vms' = c_string value \<and>
    length (oem_id vms') = 7 \<and> oem_id vms' ! 6 = nul"
proof -
  let ?t = "takeWhile (\<lambda>c. c \<noteq> nul) value"
  let ?b = "?t @ replicate (6 - length ?t) nul @ [nul]"
  have t: "length ?t \<le> 6" using assms(3) by (simp add: c_string_def)
  have "drop 6 (oem_id vms) = [nul]"
    using assms(1,2) Cons_nth_drop_Suc [of 6 "oem_id vms"] by simp
  then have "virt_set_oem_id value vms = Inr (None, vms\<lparr>oem_id := ?b\<rparr>)"
    using assms t by (simp add: virt_set_oem_id_def strncpy_def Let_def c_string_def)
  moreover have "c_string ?b = ?t" unfolding c_string_def by (rule takeWhile_nul_append)
  moreover have "length ?b = 7" "?b ! 6 = nul" using t by (simp_all add: nth_append)
  ultimately show ?thesis by (simp add: virt_get_oem_id_def c_string_def)
qed

text \<open>Every machine type keeps the restrictions and the compatibility properties of the later ones.\<close>

definition restrictions :: "VirtMachineClass \<Rightarrow> bool list" where
  "restrictions mc = [prefer_sockets mc, numa_mem_supported mc, \<not> auto_enable_numa_with_memdev mc,
     \<not> auto_enable_numa_with_memhp mc, ignore_memory_transaction_failures mc, disallow_affinity_adjustment mc, no_its mc,
     no_tcg_its mc, no_pmu mc, claim_edge_triggered_timers mc, smbios_old_sys_ver mc, no_highmem_ecam mc, no_ged mc,
     kvm_no_adjvtime mc, no_kvm_steal_time mc, acpi_expose_flash mc, no_secure_gpio mc, no_cpu_topology mc]"

definition older :: "VirtMachineClass \<Rightarrow> VirtMachineClass \<Rightarrow> bool" where
  "older a b \<longleftrightarrow> list_all2 (\<longrightarrow>) (restrictions a) (restrictions b) \<and> class_max_cpus b \<le> class_max_cpus a \<and>
     minimum_page_bits b \<le> minimum_page_bits a \<and> take (length (compat_props a)) (compat_props b) = compat_props a"

lemmas virt_options = virt_machine_6_2_options_def virt_machine_6_1_options_def virt_machine_6_0_options_def
  virt_machine_5_2_options_def virt_machine_5_1_options_def virt_machine_5_0_options_def virt_machine_4_2_options_def
  virt_machine_4_1_options_def virt_machine_4_0_options_def virt_machine_3_1_options_def virt_machine_3_0_options_def
  virt_machine_2_12_options_def virt_machine_2_11_options_def virt_machine_2_10_options_def virt_machine_2_9_options_def
  virt_machine_2_8_options_def virt_machine_2_7_options_def virt_machine_2_6_options_def compat_props_add_def

lemma older_trans: "older a b \<Longrightarrow> older b c \<Longrightarrow> older a c"
proof -
  assume ab: "older a b" and bc: "older b c"
  have "list_all2 (\<longrightarrow>) (restrictions a) (restrictions c)"
    by (rule list_all2_trans [of "(\<longrightarrow>)" "(\<longrightarrow>)"]) (use ab bc in \<open>auto simp: older_def\<close>)
  moreover have "length (compat_props a) \<le> length (compat_props b)" using ab by (metis older_def length_take min.cobounded1)
  then have "take (length (compat_props a)) (compat_props c) = compat_props a"
    using ab bc unfolding older_def by (metis min.absorb1 take_take)
  ultimately show ?thesis using ab bc by (auto simp: older_def)
qed

lemma virt_versions_older: "sorted_wrt older virt_versions"
proof -
  have "successively older virt_versions"
    by (simp add: virt_versions_def virt_options virt_class_defaults_def older_def restrictions_def)
  moreover have "transp older" by (rule transpI) (rule older_trans)
  ultimately show ?thesis by (simp add: successively_conv_sorted_wrt)
qed

end
