(* ===== verification/Virt_Props.thy ===== *)
theory Virt_Props
  imports Virt_Config
begin

text \<open>
  The properties of the machine that a user can set: the accessors of the flags, the table that
  \<^verbatim>\<open>virt_machine_class_init\<close> registers, and what a sequence of options leaves behind. That a table of flags
  behaves like a set of independent variables is the locale \<open>flag_table\<close>.
\<close>

section \<open>Accessors\<close>

definition virt_get_secure :: "VirtMachineState \<Rightarrow> bool" where "virt_get_secure vms = secure vms"
definition virt_set_secure :: "bool \<Rightarrow> VirtMachineState \<Rightarrow> VirtMachineState" where "virt_set_secure value vms = vms\<lparr>secure := value\<rparr>"
definition virt_get_virt :: "VirtMachineState \<Rightarrow> bool" where "virt_get_virt vms = virt vms"
definition virt_set_virt :: "bool \<Rightarrow> VirtMachineState \<Rightarrow> VirtMachineState" where "virt_set_virt value vms = vms\<lparr>virt := value\<rparr>"
definition virt_get_highmem :: "VirtMachineState \<Rightarrow> bool" where "virt_get_highmem vms = highmem vms"
definition virt_set_highmem :: "bool \<Rightarrow> VirtMachineState \<Rightarrow> VirtMachineState" where "virt_set_highmem value vms = vms\<lparr>highmem := value\<rparr>"
definition virt_get_its :: "VirtMachineState \<Rightarrow> bool" where "virt_get_its vms = its vms"
definition virt_set_its :: "bool \<Rightarrow> VirtMachineState \<Rightarrow> VirtMachineState" where "virt_set_its value vms = vms\<lparr>its := value\<rparr>"
definition virt_get_ras :: "VirtMachineState \<Rightarrow> bool" where "virt_get_ras vms = ras vms"
definition virt_set_ras :: "bool \<Rightarrow> VirtMachineState \<Rightarrow> VirtMachineState" where "virt_set_ras value vms = vms\<lparr>ras := value\<rparr>"
definition virt_get_mte :: "VirtMachineState \<Rightarrow> bool" where "virt_get_mte vms = mte vms"
definition virt_set_mte :: "bool \<Rightarrow> VirtMachineState \<Rightarrow> VirtMachineState" where "virt_set_mte value vms = vms\<lparr>mte := value\<rparr>"

definition virt_get_default_bus_bypass_iommu :: "VirtMachineState \<Rightarrow> bool" where
  "virt_get_default_bus_bypass_iommu vms = default_bus_bypass_iommu vms"

definition virt_set_default_bus_bypass_iommu :: "bool \<Rightarrow> VirtMachineState \<Rightarrow> VirtMachineState" where
  "virt_set_default_bus_bypass_iommu value vms = vms\<lparr>default_bus_bypass_iommu := value\<rparr>"

definition virt_get_acpi :: "VirtMachineState \<Rightarrow> OnOffAuto" where "virt_get_acpi vms = acpi vms"

text \<open>What the visitor finds: a value, or an error that leaves the field alone.\<close>

definition virt_set_acpi :: "string + OnOffAuto \<Rightarrow> VirtMachineState \<Rightarrow> string option \<times> VirtMachineState" where
  "virt_set_acpi visited vms = (case visited of Inl e \<Rightarrow> (Some e, vms) | Inr a \<Rightarrow> (None, vms\<lparr>acpi := a\<rparr>))"

lemmas flag_accessors = virt_get_secure_def virt_set_secure_def virt_get_virt_def virt_set_virt_def virt_get_highmem_def
  virt_set_highmem_def virt_get_its_def virt_set_its_def virt_get_ras_def virt_set_ras_def virt_get_mte_def virt_set_mte_def
  virt_get_default_bus_bypass_iommu_def virt_set_default_bus_bypass_iommu_def

section \<open>The machine class\<close>

text \<open>
  The general part of the class: limits and defaults, the kinds of devices that a user may put on the platform bus and the callbacks,
  by the names of the functions. \<open>suffix\<close> is what \<^verbatim>\<open>ARM_CPU_TYPE_NAME\<close> appends, \<open>tpm\<close> stands for
  \<^verbatim>\<open>CONFIG_TPM\<close>.
\<close>

datatype sysbus_type = VFIO_CALXEDA_XGMAC | VFIO_AMD_XGBE | RAMFB_DEVICE | VFIO_PLATFORM | TPM_TIS_SYSBUS
datatype BlockInterfaceType = IF_NONE | IF_VIRTIO

record MachineClass =
  virt_class :: VirtMachineClass
  dynamic_sysbus :: "sysbus_type list"
  block_default_type :: BlockInterfaceType
  no_cdrom :: bool
  pci_allow_0_address :: bool
  default_cpu_type :: string
  nvdimm_supported :: bool
  default_ram_id :: string
  callbacks :: "(string \<times> string) list"

definition virt_machine_class_init :: "string \<Rightarrow> bool \<Rightarrow> MachineClass" where
  "virt_machine_class_init suffix tpm =
     \<lparr>virt_class = virt_class_defaults,
      dynamic_sysbus = [VFIO_CALXEDA_XGMAC, VFIO_AMD_XGBE, RAMFB_DEVICE, VFIO_PLATFORM] @ (if tpm then [TPM_TIS_SYSBUS] else []),
      block_default_type = IF_VIRTIO, no_cdrom = True, pci_allow_0_address = True, default_cpu_type = ''cortex-a15'' @ suffix,
      nvdimm_supported = True, default_ram_id = ''mach-virt.ram'',
      callbacks = [(''init'', ''machvirt_init''), (''possible_cpu_arch_ids'', ''virt_possible_cpu_arch_ids''),
        (''cpu_index_to_instance_props'', ''virt_cpu_index_to_props''), (''get_default_cpu_node_id'', ''virt_get_default_cpu_node_id''),
        (''kvm_type'', ''virt_kvm_type''), (''get_hotplug_handler'', ''virt_machine_get_hotplug_handler''),
        (''pre_plug'', ''virt_machine_device_pre_plug_cb''), (''plug'', ''virt_machine_device_plug_cb''),
        (''unplug_request'', ''virt_machine_device_unplug_request_cb''), (''unplug'', ''virt_machine_device_unplug_cb'')]\<rparr>"

text \<open>The default CPU is one that the start of the machine accepts.\<close>

lemma default_cpu_valid: "cpu_type_valid suffix (default_cpu_type (virt_machine_class_init suffix tpm))"
  by (simp add: virt_machine_class_init_def cpu_type_valid_def valid_cpus_def)

section \<open>The registered properties\<close>

text \<open>The flags and the strings, in the order in which the class registers them; \<open>acpi\<close> comes before both.\<close>

type_synonym flag_prop = "(VirtMachineState \<Rightarrow> bool) \<times> (bool \<Rightarrow> VirtMachineState \<Rightarrow> VirtMachineState)"

definition bool_props :: "(string \<times> flag_prop) list" where
  "bool_props = [(''secure'', virt_get_secure, virt_set_secure), (''virtualization'', virt_get_virt, virt_set_virt),
     (''highmem'', virt_get_highmem, virt_set_highmem),
     (''default-bus-bypass-iommu'', virt_get_default_bus_bypass_iommu, virt_set_default_bus_bypass_iommu),
     (''ras'', virt_get_ras, virt_set_ras), (''mte'', virt_get_mte, virt_set_mte), (''its'', virt_get_its, virt_set_its)]"

definition str_props :: "(string \<times> (string \<Rightarrow> VirtMachineState \<Rightarrow> (string option \<times> VirtMachineState) result)) list" where
  "str_props = [(''gic-version'', \<lambda>value vms. Inr (virt_set_gic_version value vms)), (''iommu'', \<lambda>value vms. Inr (virt_set_iommu value vms)),
     (''x-oem-id'', virt_set_oem_id), (''x-oem-table-id'', virt_set_oem_table_id)]"

text \<open>What the class registers, with the descriptions that the user sees.\<close>

definition prop_descriptions :: "(string \<times> string) list" where
  "prop_descriptions = [(''acpi'', ''Enable ACPI''),
     (''secure'', ''Set on/off to enable/disable the ARM Security Extensions (TrustZone)''),
     (''virtualization'', ''Set on/off to enable/disable emulating a guest CPU which implements the ARM Virtualization Extensions''),
     (''highmem'', ''Set on/off to enable/disable using physical address space above 32 bits''),
     (''gic-version'', ''Set GIC version. Valid values are 2, 3, host and max''),
     (''iommu'', ''Set the IOMMU type. Valid values are none and smmuv3''),
     (''default-bus-bypass-iommu'', ''Set on/off to enable/disable bypass_iommu for default root bus''),
     (''ras'', ''Set on/off to enable/disable reporting host memory errors to a KVM guest using ACPI and guest external abort exceptions''),
     (''mte'', ''Set on/off to enable/disable emulating a guest CPU which implements the ARM Memory Tagging Extension''),
     (''its'', ''Set on/off to enable/disable ITS instantiation''),
     (''x-oem-id'', ''Override the default value of field OEMID in ACPI table header.The string may be up to 6 bytes in size''),
     (''x-oem-table-id'', ''Override the default value of field OEM Table ID in ACPI table header.The string may be up to 8 bytes in size'')]"

text \<open>Every registered property has a description, and every description belongs to one.\<close>

lemma described: "set (map fst prop_descriptions) = {''acpi''} \<union> set (map fst bool_props) \<union> set (map fst str_props)"
  by (auto simp: prop_descriptions_def bool_props_def str_props_def)

text \<open>An option of the command line, and its effect: an error message, and the machine.\<close>

datatype machine_option = Flag string bool | Text string string | Acpi "string + OnOffAuto"

fun set_option :: "VirtMachineState \<Rightarrow> machine_option \<Rightarrow> (string option \<times> VirtMachineState) result" where
  "set_option vms (Flag name b) = Inr (case map_of bool_props name of
     None \<Rightarrow> (Some (''Property not found: '' @ name), vms) | Some (g, st) \<Rightarrow> (None, st b vms))"
| "set_option vms (Text name x) = (case map_of str_props name of
     None \<Rightarrow> Inr (Some (''Property not found: '' @ name), vms) | Some st \<Rightarrow> st x vms)"
| "set_option vms (Acpi v) = Inr (virt_set_acpi v vms)"

definition option_step :: "VirtMachineState \<Rightarrow> machine_option \<Rightarrow> VirtMachineState result" where
  "option_step vms opt = rbind (set_option vms opt) (\<lambda>(e, vms'). Inr vms')"

section \<open>Flags are independent variables\<close>

text \<open>
  Reading gives what was written, writing what is there changes nothing, the last write counts, and writes to
  different flags commute.
\<close>

locale flag_table =
  fixes table :: "('n \<times> ('s \<Rightarrow> 'v) \<times> ('v \<Rightarrow> 's \<Rightarrow> 's)) list"
  assumes names: "distinct (map fst table)"
    and get_set: "(n, g, st) \<in> set table \<Longrightarrow> g (st v s) = v"
    and set_get: "(n, g, st) \<in> set table \<Longrightarrow> st (g s) s = s"
    and commute: "(n, g, st) \<in> set table \<Longrightarrow> (n', g', st') \<in> set table \<Longrightarrow> n \<noteq> n' \<Longrightarrow> st v (st' w s) = st' w (st v s)"
begin

lemma other_flag:
  assumes "(n, g, st) \<in> set table" "(n', g', st') \<in> set table" "n \<noteq> n'"
  shows "g (st' w s) = g s"
proof -
  have "st' w s = st (g s) (st' w s)" using commute [OF assms] set_get [OF assms(1)] by metis
  then show ?thesis using get_set [OF assms(1)] by metis
qed

lemma write_read:
  assumes "(n, g, st) \<in> set table" "map_of table n' = Some (g', st')"
  shows "g (st' v s) = (if n' = n then v else g s)"
proof (cases "n' = n")
  case True
  then have "(g', st') = (g, st)" using assms names by (metis map_of_eq_Some_iff option.inject)
  then show ?thesis using True get_set [OF assms(1)] by simp
next
  case False
  then show ?thesis using other_flag [OF assms(1) map_of_SomeD [OF assms(2)]] by simp
qed

end

interpretation flags: flag_table bool_props
proof
  show "distinct (map fst bool_props)" by (simp add: bool_props_def)
  fix n n' and g g' :: "VirtMachineState \<Rightarrow> bool" and st st' :: "bool \<Rightarrow> VirtMachineState \<Rightarrow> VirtMachineState" and v w s
  assume flag: "(n, g, st) \<in> set bool_props"
  show "g (st v s) = v" "st (g s) s = s" using flag by (auto simp: bool_props_def flag_accessors)
  assume "(n', g', st') \<in> set bool_props" "n \<noteq> n'"
  with flag show "st v (st' w s) = st' w (st v s)"
    unfolding bool_props_def list.set insert_iff empty_iff prod.inject by (elim disjE conjE) (simp_all add: flag_accessors)
qed

section \<open>What a command line leaves behind\<close>

text \<open>The buffers of the two identifiers, and the value a list of options gives to a flag.\<close>

definition oem_wf :: "VirtMachineState \<Rightarrow> bool" where
  "oem_wf vms \<longleftrightarrow> length (oem_id vms) = 7 \<and> oem_id vms ! 6 = nul \<and> length (oem_table_id vms) = 9 \<and> oem_table_id vms ! 8 = nul"

fun flag_value :: "string \<Rightarrow> machine_option list \<Rightarrow> bool \<Rightarrow> bool" where
  "flag_value n [] b = b"
| "flag_value n (Flag m v # os) b = flag_value n os (if m = n then v else b)"
| "flag_value n (opt # os) b = flag_value n os b"

text \<open>Every write to an identifier stays within its buffer and keeps the final zero.\<close>

lemma strncpy_wf:
  assumes "length dest = Suc n" "dest ! n = nul"
  obtains b where "strncpy dest src n = Inr b" "length b = Suc n" "b ! n = nul"
proof -
  let ?t = "take n (takeWhile (\<lambda>c. c \<noteq> nul) src)"
  have "drop n dest = [nul]" using assms Cons_nth_drop_Suc [of n dest] by simp
  then have "strncpy dest src n = Inr (?t @ replicate (n - length ?t) nul @ [nul])"
    using assms by (simp add: strncpy_def Let_def)
  then show ?thesis by (rule that) (simp_all add: nth_append)
qed

lemma set_oem_wf:
  assumes "oem_wf vms" "st = virt_set_oem_id \<or> st = virt_set_oem_table_id"
  shows "\<exists>e vms'. st x vms = Inr (e, vms') \<and> oem_wf vms' \<and>
    vms'\<lparr>oem_id := oem_id vms, oem_table_id := oem_table_id vms\<rparr> = vms"
proof -
  obtain b where b: "strncpy (oem_id vms) x 6 = Inr b" "length b = 7" "b ! 6 = nul"
    using assms(1) by (auto simp: oem_wf_def intro: strncpy_wf [of "oem_id vms" 6 x])
  obtain c where c: "strncpy (oem_table_id vms) x 8 = Inr c" "length c = 9" "c ! 8 = nul"
    using assms(1) by (auto simp: oem_wf_def intro: strncpy_wf [of "oem_table_id vms" 8 x])
  show ?thesis
    using assms b c by (auto simp: virt_set_oem_id_def virt_set_oem_table_id_def oem_wf_def)
qed

lemma text_wf:
  assumes "oem_wf vms" "map_of str_props m = Some st"
  shows "\<exists>e vms'. st x vms = Inr (e, vms') \<and> oem_wf vms' \<and> (\<forall>(n, g, st) \<in> set bool_props. g vms' = g vms)"
proof -
  consider "st = virt_set_oem_id \<or> st = virt_set_oem_table_id" | "st = (\<lambda>value vms. Inr (virt_set_gic_version value vms))"
    | "st = (\<lambda>value vms. Inr (virt_set_iommu value vms))"
    using map_of_SomeD [OF assms(2)] by (auto simp: str_props_def)
  then show ?thesis
  proof cases
    case 1
    then obtain e vms' where r: "st x vms = Inr (e, vms')" "oem_wf vms'"
      and same: "vms'\<lparr>oem_id := oem_id vms, oem_table_id := oem_table_id vms\<rparr> = vms"
      using set_oem_wf [OF assms(1)] by metis
    have "g (vms'\<lparr>oem_id := i, oem_table_id := j\<rparr>) = g vms'" if "(n, g, st) \<in> set bool_props" for n g st i j
      using that by (auto simp: bool_props_def flag_accessors)
    from this [where i = "oem_id vms" and j = "oem_table_id vms", unfolded same]
    have "\<forall>(n, g, st) \<in> set bool_props. g vms' = g vms" by (intro ballI, clarify) metis
    with r show ?thesis by blast
  qed (use assms(1) in \<open>auto simp: virt_set_gic_version_def virt_set_iommu_def oem_wf_def bool_props_def flag_accessors\<close>)
qed

lemma option_wf:
  assumes "oem_wf vms"
  shows "\<exists>t. option_step vms opt = Inr t \<and> oem_wf t \<and>
    (\<forall>(n, g, st) \<in> set bool_props. g t = flag_value n [opt] (g vms))"
proof (cases opt)
  case (Flag m b)
  show ?thesis
  proof (cases "map_of bool_props m")
    case None
    then have "\<forall>(n, g, st) \<in> set bool_props. n \<noteq> m" by (force simp: map_of_eq_None_iff)
    then show ?thesis using None assms by (auto simp: option_step_def Flag)
  next
    case (Some p)
    obtain g' st' where p: "p = (g', st')" by (cases p)
    have "oem_wf (st' b vms)"
      using assms map_of_SomeD [OF Some] by (auto simp: bool_props_def p oem_wf_def flag_accessors)
    moreover have "\<forall>(n, g, st) \<in> set bool_props. g (st' b vms) = (if m = n then b else g vms)"
      using flags.write_read Some by (fastforce simp: p)
    ultimately show ?thesis using Some by (simp add: option_step_def Flag p)
  qed
next
  case (Text m x)
  show ?thesis
  proof (cases "map_of str_props m")
    case None
    then show ?thesis using assms by (simp add: option_step_def Text split: prod.split)
  next
    case (Some st)
    then show ?thesis using text_wf [OF assms Some] by (fastforce simp: option_step_def Text)
  qed
next
  case (Acpi v)
  then show ?thesis using assms
    by (auto simp: option_step_def virt_set_acpi_def oem_wf_def bool_props_def flag_accessors split: sum.split)
qed

interpretation options: safe_steps option_step oem_wf "\<lambda>_. True"
  by unfold_locales (use option_wf in blast)

lemma flag_value_step: "flag_value n (opt # os) b = flag_value n os (flag_value n [opt] b)"
  by (cases opt) simp_all

lemma run_flag:
  assumes "(n, g, st) \<in> set bool_props"
  shows "oem_wf s \<Longrightarrow> run_steps option_step s os = Inr t \<Longrightarrow> g t = flag_value n os (g s)"
proof (induction os arbitrary: s)
  case (Cons opt os)
  obtain u where u: "option_step s opt = Inr u" "oem_wf u" "\<forall>(n, g, st) \<in> set bool_props. g u = flag_value n [opt] (g s)"
    using option_wf [OF Cons.prems(1)] by blast
  have "g u = flag_value n [opt] (g s)" using bspec [OF u(3) assms] by simp
  moreover have "g t = flag_value n os (g u)" using Cons.IH [OF u(2)] Cons.prems(2) u(1) by simp
  ultimately show ?case by (simp only: flag_value_step [of n opt os])
qed simp

lemma init_oem_wf: "oem_wf (virt_instance_init names vmc)"
  by (auto simp: oem_wf_def virt_instance_init_def g_strndup_def Let_def nth_append)

text \<open>
  C32: Any list of machine options, wrong names and values included, is processed without a fault and keeps the buffers
  of the identifiers terminated and within their size. Afterwards every flag has the value of the last option that names
  it, whatever else was set in between, and its default if there is none.
\<close>

theorem machine_options_last_wins:
  "\<exists>t. run_steps option_step (virt_instance_init names vmc) os = Inr t \<and> oem_wf t \<and>
    (\<forall>(n, g, st) \<in> set bool_props. g t = flag_value n os (g (virt_instance_init names vmc)))"
proof -
  obtain t where "run_steps option_step (virt_instance_init names vmc) os = Inr t" "oem_wf t"
    using options.run_safe [OF init_oem_wf [of names vmc], where es = os] by (auto simp: list_all_iff)
  then show ?thesis using run_flag [OF _ init_oem_wf] by blast
qed

theorem machine_options_last_wins_witness:
  "\<exists>t. run_steps option_step (virt_instance_init (''BOCHS '', ''BXPC    '') virt_class_defaults)
      [Flag ''secure'' True, Text ''x-oem-id'' ''ACME'', Flag ''mte'' True, Flag ''secure'' False] = Inr t \<and> \<not> secure t \<and> mte t"
proof -
  let ?s = "virt_instance_init (''BOCHS '', ''BXPC    '') virt_class_defaults"
  let ?os = "[Flag ''secure'' True, Text ''x-oem-id'' ''ACME'', Flag ''mte'' True, Flag ''secure'' False]"
  obtain t where run: "run_steps option_step ?s ?os = Inr t"
    and flags: "\<forall>(n, g, st) \<in> set bool_props. g t = flag_value n ?os (g ?s)"
    using machine_options_last_wins [of "(''BOCHS '', ''BXPC    '')" virt_class_defaults ?os] by blast
  have "(''secure'', virt_get_secure, virt_set_secure) \<in> set bool_props" "(''mte'', virt_get_mte, virt_set_mte) \<in> set bool_props"
    by (simp_all add: bool_props_def)
  from flags [THEN bspec, OF this(1)] flags [THEN bspec, OF this(2)] have "\<not> secure t" "mte t" by (simp_all add: flag_accessors)
  with run show ?thesis by blast
qed

end
