(* ===== verification/Virt_Devices.thy ===== *)
theory Virt_Devices
  imports Virt_Config
begin

unbundle bit_operations_syntax

text \<open>
  The functions of \<^verbatim>\<open>virt.c\<close> that create devices, each as the sequence of calls it makes into
  QEMU's device, memory and device tree libraries. A device tree handle that the code allocates is an argument
  of the function that allocates it.
\<close>

section \<open>Calls\<close>

datatype fdt_val =
    Fdt_empty
  | Fdt_string string
  | Fdt_strings "string list"
  | Fdt_cells "u32 list"
  | Fdt_sized "(nat \<times> u64) list"
  | Fdt_raw "u32 list"

datatype mspace = Sysmem | Secure_sysmem | Tag_sysmem | Secure_tag_sysmem

text \<open>
  \<open>Gic_in d k n\<close> connects output \<open>k\<close> of a device to input \<open>n\<close> of the GIC, \<open>Cpu_out c l n\<close> a line of a CPU; \<open>Gic_out k c l\<close>
  connects output \<open>k\<close> of the GIC to a line of a CPU. \<open>Map s d k b\<close> puts region \<open>k\<close> of a device at an
  address, \<open>Map_ram s n b z\<close> memory or an alias of a given size. \<open>Fw_cfg\<close> has the control, data and DMA
  addresses and the number of CPUs; \<open>Kvm_cpu f c x\<close> is a call to KVM for one CPU. \<open>Add_path\<close> creates a node with
  its parents, \<open>Setprop_phandle n p t\<close> makes a property refer to the node \<open>t\<close>. The \<open>Cpu_\<close> calls create CPU objects, set
  their properties and start them; \<open>Region_init\<close> creates an address space, \<open>Region_under s t\<close> puts \<open>t\<close> under \<open>s\<close> with
  lower priority.
\<close>

datatype call =
    Add_subnode string
  | Setprop string string fdt_val
  | New_device string
  | Dev_prop string string nat
  | Dev_link string string
  | Set_chr string nat
  | Map mspace string nat u64
  | Map_ram mspace string u64 u64
  | Gic_in string nat nat
  | Cpu_out nat string nat
  | Gic_out nat nat string
  | Gpio_out string nat string
  | Fw_cfg u64 u64 u64 nat
  | Kvm_cpu string nat nat
  | Add_path string
  | Setprop_phandle string string string
  | Cpu_new nat string
  | Cpu_int nat string nat
  | Cpu_bool nat string bool
  | Cpu_link nat string mspace
  | Cpu_realize nat
  | Region_init mspace u64
  | Region_under mspace mspace

fun hex_digit :: "nat \<Rightarrow> char" where
  "hex_digit d = (if d < 10 then char_of (48 + d) else char_of (87 + d))"

fun hex :: "nat \<Rightarrow> string" where
  "hex n = (if n < 16 then [hex_digit n] else hex (n div 16) @ [hex_digit (n mod 16)])"

declare hex.simps [simp del]

definition node_at :: "string \<Rightarrow> u64 \<Rightarrow> string" where
  "node_at name b = name @ ''@'' @ hex (unat b)"

definition reg_of :: "MemMapEntry list \<Rightarrow> fdt_val" where
  "reg_of es = Fdt_sized (concat (map (\<lambda>e. [(2, base e), (2, msize e)]) es))"

definition spi :: "qemu_env \<Rightarrow> nat \<Rightarrow> u32 \<Rightarrow> u32 list" where
  "spi E irq flags = [GIC_FDT_IRQ_TYPE_SPI E, of_nat irq, flags]"

definition ARCH_GIC_MAINT_IRQ :: nat where "ARCH_GIC_MAINT_IRQ = 9"
definition ARCH_TIMER_VIRT_IRQ :: nat where "ARCH_TIMER_VIRT_IRQ = 11"
definition ARCH_TIMER_S_EL1_IRQ :: nat where "ARCH_TIMER_S_EL1_IRQ = 13"
definition ARCH_TIMER_NS_EL1_IRQ :: nat where "ARCH_TIMER_NS_EL1_IRQ = 14"
definition ARCH_TIMER_NS_EL2_IRQ :: nat where "ARCH_TIMER_NS_EL2_IRQ = 10"
definition VIRTUAL_PMU_IRQ :: nat where "VIRTUAL_PMU_IRQ = 7"

lemmas ppi_numbers = ARCH_GIC_MAINT_IRQ_def ARCH_TIMER_VIRT_IRQ_def ARCH_TIMER_S_EL1_IRQ_def ARCH_TIMER_NS_EL1_IRQ_def
  ARCH_TIMER_NS_EL2_IRQ_def VIRTUAL_PMU_IRQ_def

section \<open>The interrupt controller\<close>

definition fdt_add_its_gic_node :: "u32 \<Rightarrow> VirtMachineState \<Rightarrow> VirtMachineState \<times> call list" where
  "fdt_add_its_gic_node ph vms =
     (let node = node_at ''/intc/its'' (base (vmap vms VIRT_GIC_ITS)) in
      (vms\<lparr>msi_phandle := ph\<rparr>,
       [Add_subnode node, Setprop node ''compatible'' (Fdt_string ''arm,gic-v3-its''),
        Setprop node ''msi-controller'' Fdt_empty, Setprop node ''reg'' (reg_of [vmap vms VIRT_GIC_ITS]),
        Setprop node ''phandle'' (Fdt_cells [ph])]))"

definition fdt_add_v2m_gic_node :: "u32 \<Rightarrow> VirtMachineState \<Rightarrow> VirtMachineState \<times> call list" where
  "fdt_add_v2m_gic_node ph vms =
     (let node = node_at ''/intc/v2m'' (base (vmap vms VIRT_GIC_V2M)) in
      (vms\<lparr>msi_phandle := ph\<rparr>,
       [Add_subnode node, Setprop node ''compatible'' (Fdt_string ''arm,gic-v2m-frame''),
        Setprop node ''msi-controller'' Fdt_empty, Setprop node ''reg'' (reg_of [vmap vms VIRT_GIC_V2M]),
        Setprop node ''phandle'' (Fdt_cells [ph])]))"

definition maint_irq :: "qemu_env \<Rightarrow> string \<Rightarrow> call" where
  "maint_irq E node = Setprop node ''interrupts''
     (Fdt_cells [GIC_FDT_IRQ_TYPE_PPI E, of_nat ARCH_GIC_MAINT_IRQ, GIC_FDT_IRQ_FLAGS_LEVEL_HI E])"

definition fdt_add_gic_node :: "qemu_env \<Rightarrow> nat \<Rightarrow> u32 \<Rightarrow> VirtMachineState \<Rightarrow> (VirtMachineState \<times> call list) result" where
  "fdt_add_gic_node E smp_cpus ph vms =
     (let node = node_at ''/intc'' (base (vmap vms VIRT_GIC_DIST));
          m = vmap vms;
          head = [Setprop ''/'' ''interrupt-parent'' (Fdt_cells [ph]), Add_subnode node,
            Setprop node ''#interrupt-cells'' (Fdt_cells [3]), Setprop node ''interrupt-controller'' Fdt_empty,
            Setprop node ''#address-cells'' (Fdt_cells [2]), Setprop node ''#size-cells'' (Fdt_cells [2]),
            Setprop node ''ranges'' Fdt_empty];
          body = (if gic_version vms = VIRT_GIC_VERSION_3 then
              rbind (virt_gicv3_redist_region_count E smp_cpus vms) (\<lambda>n. Inr (
                [Setprop node ''compatible'' (Fdt_string ''arm,gic-v3''),
                 Setprop node ''#redistributor-regions'' (Fdt_cells [of_nat n]),
                 Setprop node ''reg'' (if n = 1 then reg_of [m VIRT_GIC_DIST, m VIRT_GIC_REDIST]
                   else reg_of [m VIRT_GIC_DIST, m VIRT_GIC_REDIST, m VIRT_HIGH_GIC_REDIST2])] @
                (if virt vms then [maint_irq E node] else [])))
            else Inr ([Setprop node ''compatible'' (Fdt_string ''arm,cortex-a15-gic'')] @
              (if \<not> virt vms then [Setprop node ''reg'' (reg_of [m VIRT_GIC_DIST, m VIRT_GIC_CPU])]
               else [Setprop node ''reg'' (reg_of [m VIRT_GIC_DIST, m VIRT_GIC_CPU, m VIRT_GIC_HYP, m VIRT_GIC_VCPU]),
                 maint_irq E node])))
      in rbind body (\<lambda>b. Inr (vms\<lparr>gic_phandle := ph\<rparr>, head @ b @ [Setprop node ''phandle'' (Fdt_cells [ph])])))"

text \<open>
  \<open>itsclass\<close> is what \<^verbatim>\<open>its_class_name\<close> returns. The name is compared before it is tested, so a null
  pointer is dereferenced.
\<close>

definition create_its :: "string option \<Rightarrow> u32 \<Rightarrow> VirtMachineState \<Rightarrow> (VirtMachineState \<times> call list) result" where
  "create_its itsclass ph vms =
     (case itsclass of
        None \<Rightarrow> Inl NullDeref
      | Some c \<Rightarrow>
          if c = ''arm-gicv3-its'' \<and> \<not> tcg_its vms then Inr (vms, [])
          else
            let (vms1, fdt) = fdt_add_its_gic_node ph vms
            in Inr (vms1\<lparr>msi_controller := VIRT_MSI_CTRL_ITS\<rparr>,
                [New_device c, Dev_link c ''parent-gicv3'', Map Sysmem c 0 (base (vmap vms VIRT_GIC_ITS))] @ fdt))"

definition create_v2m :: "u32 \<Rightarrow> VirtMachineState \<Rightarrow> VirtMachineState \<times> call list" where
  "create_v2m ph vms =
     (let irq = irqmap vms VIRT_GIC_V2M;
          (vms1, fdt) = fdt_add_v2m_gic_node ph vms
      in (vms1\<lparr>msi_controller := VIRT_MSI_CTRL_GICV2M\<rparr>,
          [New_device ''arm-gicv2m'', Map Sysmem ''arm-gicv2m'' 0 (base (vmap vms VIRT_GIC_V2M)),
           Dev_prop ''arm-gicv2m'' ''base-spi'' irq, Dev_prop ''arm-gicv2m'' ''num-spi'' NUM_GICV2M_SPIS] @
          map (\<lambda>i. Gic_in ''arm-gicv2m'' i (irq + i)) [0..<NUM_GICV2M_SPIS] @ fdt))"

text \<open>The numeric value of the version.\<close>

fun gic_type :: "VirtGICType \<Rightarrow> nat" where
  "gic_type VIRT_GIC_VERSION_MAX = 0"
| "gic_type VIRT_GIC_VERSION_HOST = 1"
| "gic_type VIRT_GIC_VERSION_2 = 2"
| "gic_type VIRT_GIC_VERSION_3 = 3"
| "gic_type VIRT_GIC_VERSION_NOSEL = 4"

definition gic_cpu_wires :: "qemu_env \<Rightarrow> string \<Rightarrow> nat \<Rightarrow> VirtMachineState \<Rightarrow> nat \<Rightarrow> call list" where
  "gic_cpu_wires E gictype smp_cpus vms i =
     (let ppibase = NUM_IRQS + i * GIC_INTERNAL E + GIC_NR_SGIS E;
          type = gic_type (gic_version vms) in
      [Cpu_out i ''GTIMER_PHYS'' (ppibase + ARCH_TIMER_NS_EL1_IRQ), Cpu_out i ''GTIMER_VIRT'' (ppibase + ARCH_TIMER_VIRT_IRQ),
       Cpu_out i ''GTIMER_HYP'' (ppibase + ARCH_TIMER_NS_EL2_IRQ), Cpu_out i ''GTIMER_SEC'' (ppibase + ARCH_TIMER_S_EL1_IRQ)] @
      (if type = 3 then [Cpu_out i ''gicv3-maintenance-interrupt'' (ppibase + ARCH_GIC_MAINT_IRQ)]
       else if virt vms then [Gic_in gictype (i + 4 * smp_cpus) (ppibase + ARCH_GIC_MAINT_IRQ)] else []) @
      [Cpu_out i ''pmu-interrupt'' (ppibase + VIRTUAL_PMU_IRQ),
       Gic_out i i ''ARM_CPU_IRQ'', Gic_out (i + smp_cpus) i ''ARM_CPU_FIQ'', Gic_out (i + 2 * smp_cpus) i ''ARM_CPU_VIRQ'',
       Gic_out (i + 3 * smp_cpus) i ''ARM_CPU_VFIQ''])"

text \<open>\<open>g2\<close> and \<open>g3\<close> are the class names of the two controllers, \<open>in_kernel\<close> tells whether KVM emulates them.\<close>

definition gic_props :: "qemu_env \<Rightarrow> bool \<Rightarrow> string \<Rightarrow> nat \<Rightarrow> VirtMachineState \<Rightarrow> call list result" where
  "gic_props E in_kernel g smp_cpus vms =
     (let type = gic_type (gic_version vms) in
      rbind (if type = 3 then
          rbind (virt_gicv3_redist_region_count E smp_cpus vms) (\<lambda>n.
            let cap0 = redist_capacity E (vmap vms VIRT_GIC_REDIST); count0 = min smp_cpus cap0;
                cap1 = redist_capacity E (vmap vms VIRT_HIGH_GIC_REDIST2)
            in Inr ([Dev_prop g ''len-redist-region-count'' n, Dev_prop g ''redist-region-count[0]'' count0] @
              (if \<not> in_kernel \<and> tcg_its vms then [Dev_link g ''sysmem'', Dev_prop g ''has-lpi'' 1] else []) @
              (if n = 2 then [Dev_prop g ''redist-region-count[1]'' (min (smp_cpus - count0) cap1)] else [])))
        else Inr (if \<not> in_kernel then [Dev_prop g ''has-virtualization-extensions'' (of_bool (virt vms))] else []))
      (\<lambda>ps. Inr ([New_device g, Dev_prop g ''revision'' type, Dev_prop g ''num-cpu'' smp_cpus,
          Dev_prop g ''num-irq'' (NUM_IRQS + 32)] @
        (if \<not> in_kernel then [Dev_prop g ''has-security-extensions'' (of_bool (secure vms))] else []) @ ps)))"

definition gic_maps :: "qemu_env \<Rightarrow> string \<Rightarrow> nat \<Rightarrow> VirtMachineState \<Rightarrow> call list result" where
  "gic_maps E g smp_cpus vms =
     rbind (if gic_type (gic_version vms) = 3 then
         rbind (virt_gicv3_redist_region_count E smp_cpus vms) (\<lambda>n.
           Inr ([Map Sysmem g 1 (base (vmap vms VIRT_GIC_REDIST))] @
             (if n = 2 then [Map Sysmem g 2 (base (vmap vms VIRT_HIGH_GIC_REDIST2))] else [])))
       else Inr ([Map Sysmem g 1 (base (vmap vms VIRT_GIC_CPU))] @
         (if virt vms then [Map Sysmem g 2 (base (vmap vms VIRT_GIC_HYP)), Map Sysmem g 3 (base (vmap vms VIRT_GIC_VCPU))]
          else [])))
     (\<lambda>ms. Inr (Map Sysmem g 0 (base (vmap vms VIRT_GIC_DIST)) # ms))"

definition create_gic ::
  "qemu_env \<Rightarrow> bool \<Rightarrow> string \<times> string \<Rightarrow> string option \<Rightarrow> u32 \<times> u32 \<Rightarrow> nat \<Rightarrow> VirtMachineState \<Rightarrow>
    (VirtMachineState \<times> call list) result" where
  "create_gic E in_kernel names itsclass phs smp_cpus vms =
     (let type = gic_type (gic_version vms); g = (if type = 3 then snd names else fst names) in
      rbind (gic_props E in_kernel g smp_cpus vms) (\<lambda>props.
      rbind (gic_maps E g smp_cpus vms) (\<lambda>maps.
      rbind (fdt_add_gic_node E smp_cpus (fst phs) vms) (\<lambda>(vms1, fdt).
      rbind (if type = 3 \<and> its vms then create_its itsclass (snd phs) vms1
             else Inr (if type = 2 then create_v2m (snd phs) vms1 else (vms1, []))) (\<lambda>(vms2, msi).
        Inr (vms2, props @ maps @ concat (map (gic_cpu_wires E g smp_cpus vms) [0..<smp_cpus]) @ fdt @ msi))))))"

section \<open>Simple devices\<close>

definition create_uart :: "qemu_env \<Rightarrow> VirtMachineState \<Rightarrow> region \<Rightarrow> mspace \<Rightarrow> nat \<Rightarrow> call list" where
  "create_uart E vms uart mem chr =
     (let b = base (vmap vms uart); irq = irqmap vms uart; node = node_at ''/pl011'' b in
      [New_device ''pl011'', Set_chr ''pl011'' chr, Map mem ''pl011'' 0 b, Gic_in ''pl011'' 0 irq,
       Add_subnode node, Setprop node ''compatible'' (Fdt_strings [''arm,pl011'', ''arm,primecell'']),
       Setprop node ''reg'' (reg_of [vmap vms uart]),
       Setprop node ''interrupts'' (Fdt_cells (spi E irq (GIC_FDT_IRQ_FLAGS_LEVEL_HI E))),
       Setprop node ''clocks'' (Fdt_cells [clock_phandle vms, clock_phandle vms]),
       Setprop node ''clock-names'' (Fdt_strings [''uartclk'', ''apb_pclk''])] @
      (if uart = VIRT_UART then [Setprop ''/chosen'' ''stdout-path'' (Fdt_string node)]
       else if uart = VIRT_SECURE_UART then
         [Setprop node ''status'' (Fdt_string ''disabled''), Setprop node ''secure-status'' (Fdt_string ''okay''),
          Setprop ''/secure-chosen'' ''stdout-path'' (Fdt_string node)]
       else []))"

definition create_rtc :: "qemu_env \<Rightarrow> VirtMachineState \<Rightarrow> call list" where
  "create_rtc E vms =
     (let b = base (vmap vms VIRT_RTC); irq = irqmap vms VIRT_RTC; node = node_at ''/pl031'' b in
      [New_device ''pl031'', Map Sysmem ''pl031'' 0 b, Gic_in ''pl031'' 0 irq,
       Add_subnode node, Setprop node ''compatible'' (Fdt_strings [''arm,pl031'', ''arm,primecell'']),
       Setprop node ''reg'' (reg_of [vmap vms VIRT_RTC]),
       Setprop node ''interrupts'' (Fdt_cells (spi E irq (GIC_FDT_IRQ_FLAGS_LEVEL_HI E))),
       Setprop node ''clocks'' (Fdt_cells [clock_phandle vms]), Setprop node ''clock-names'' (Fdt_string ''apb_pclk'')])"

definition create_gpio_keys :: "qemu_env \<Rightarrow> u32 \<Rightarrow> call list" where
  "create_gpio_keys E phandle =
     [New_device ''gpio-key'', Gpio_out ''gpio-key'' 0 ''pl061:3'',
      Add_subnode ''/gpio-keys'', Setprop ''/gpio-keys'' ''compatible'' (Fdt_string ''gpio-keys''),
      Setprop ''/gpio-keys'' ''#size-cells'' (Fdt_cells [0]), Setprop ''/gpio-keys'' ''#address-cells'' (Fdt_cells [1]),
      Add_subnode ''/gpio-keys/poweroff'', Setprop ''/gpio-keys/poweroff'' ''label'' (Fdt_string ''GPIO Key Poweroff''),
      Setprop ''/gpio-keys/poweroff'' ''linux,code'' (Fdt_cells [KEY_POWER E]),
      Setprop ''/gpio-keys/poweroff'' ''gpios'' (Fdt_cells [phandle, 3, 0])]"

definition SECURE_GPIO_POWEROFF :: nat where "SECURE_GPIO_POWEROFF = 0"
definition SECURE_GPIO_RESET :: nat where "SECURE_GPIO_RESET = 1"

definition create_secure_gpio_pwr :: "u32 \<Rightarrow> call list" where
  "create_secure_gpio_pwr phandle =
     [New_device ''gpio-pwr'', Gpio_out ''pl061'' SECURE_GPIO_RESET ''gpio-pwr:reset'',
      Gpio_out ''pl061'' SECURE_GPIO_POWEROFF ''gpio-pwr:shutdown'',
      Add_subnode ''/gpio-poweroff'', Setprop ''/gpio-poweroff'' ''compatible'' (Fdt_string ''gpio-poweroff''),
      Setprop ''/gpio-poweroff'' ''gpios'' (Fdt_cells [phandle, of_nat SECURE_GPIO_POWEROFF, 0]),
      Setprop ''/gpio-poweroff'' ''status'' (Fdt_string ''disabled''),
      Setprop ''/gpio-poweroff'' ''secure-status'' (Fdt_string ''okay''),
      Add_subnode ''/gpio-restart'', Setprop ''/gpio-restart'' ''compatible'' (Fdt_string ''gpio-restart''),
      Setprop ''/gpio-restart'' ''gpios'' (Fdt_cells [phandle, of_nat SECURE_GPIO_RESET, 0]),
      Setprop ''/gpio-restart'' ''status'' (Fdt_string ''disabled''),
      Setprop ''/gpio-restart'' ''secure-status'' (Fdt_string ''okay'')]"

definition create_gpio_devices :: "qemu_env \<Rightarrow> u32 \<Rightarrow> VirtMachineState \<Rightarrow> region \<Rightarrow> mspace \<Rightarrow> call list" where
  "create_gpio_devices E phandle vms gpio mem =
     (let b = base (vmap vms gpio); irq = irqmap vms gpio; node = node_at ''/pl061'' b in
      [New_device ''pl061'', Dev_prop ''pl061'' ''pullups'' 0, Dev_prop ''pl061'' ''pulldowns'' 0xff,
       Map mem ''pl061'' 0 b, Gic_in ''pl061'' 0 irq,
       Add_subnode node, Setprop node ''reg'' (reg_of [vmap vms gpio]),
       Setprop node ''compatible'' (Fdt_strings [''arm,pl061'', ''arm,primecell'']),
       Setprop node ''#gpio-cells'' (Fdt_cells [2]), Setprop node ''gpio-controller'' Fdt_empty,
       Setprop node ''interrupts'' (Fdt_cells (spi E irq (GIC_FDT_IRQ_FLAGS_LEVEL_HI E))),
       Setprop node ''clocks'' (Fdt_cells [clock_phandle vms]), Setprop node ''clock-names'' (Fdt_string ''apb_pclk''),
       Setprop node ''phandle'' (Fdt_cells [phandle])] @
      (if gpio \<noteq> VIRT_GPIO then
         [Setprop node ''status'' (Fdt_string ''disabled''), Setprop node ''secure-status'' (Fdt_string ''okay'')] else []) @
      (if gpio = VIRT_GPIO then create_gpio_keys E phandle else create_secure_gpio_pwr phandle))"

definition create_virtio_devices :: "qemu_env \<Rightarrow> VirtMachineState \<Rightarrow> call list" where
  "create_virtio_devices E vms =
     (let sz = msize (vmap vms VIRT_MMIO);
          irq = (\<lambda>i. irqmap vms VIRT_MMIO + i);
          b = (\<lambda>i. base (vmap vms VIRT_MMIO) + of_nat i * sz);
          node = (\<lambda>i. node_at ''/virtio_mmio'' (b i)) in
      concat (map (\<lambda>i. [New_device ''virtio-mmio'', Map Sysmem ''virtio-mmio'' 0 (b i), Gic_in ''virtio-mmio'' 0 (irq i)])
        [0..<NUM_VIRTIO_TRANSPORTS]) @
      concat (map (\<lambda>i. [Add_subnode (node i), Setprop (node i) ''compatible'' (Fdt_string ''virtio,mmio''),
          Setprop (node i) ''reg'' (reg_of [\<lparr>base = b i, msize = sz\<rparr>]),
          Setprop (node i) ''interrupts'' (Fdt_cells (spi E (irq i) (GIC_FDT_IRQ_FLAGS_EDGE_LO_HI E))),
          Setprop (node i) ''dma-coherent'' Fdt_empty])
        (rev [0..<NUM_VIRTIO_TRANSPORTS])))"

text \<open>The event mask is given by the three flags of \<^verbatim>\<open>ged-event\<close>.\<close>

definition create_acpi_ged :: "u32 \<times> u32 \<times> u32 \<Rightarrow> nat \<Rightarrow> bool \<Rightarrow> VirtMachineState \<Rightarrow> call list" where
  "create_acpi_ged evts ram_slots nvdimm vms =
     (case evts of (pwr_down, mem_hotplug, nvdimm_hotplug) \<Rightarrow>
      let event = pwr_down OR (if ram_slots \<noteq> 0 then mem_hotplug else 0) OR (if nvdimm then nvdimm_hotplug else 0) in
      [New_device ''acpi-ged'', Dev_prop ''acpi-ged'' ''ged-event'' (unat event),
       Map Sysmem ''acpi-ged'' 0 (base (vmap vms VIRT_ACPI_GED)), Map Sysmem ''acpi-ged'' 1 (base (vmap vms VIRT_PCDIMM_ACPI)),
       Gic_in ''acpi-ged'' 0 (irqmap vms VIRT_ACPI_GED)])"

section \<open>CPUs\<close>

text \<open>\<open>feature\<close> and \<open>v8\<close> are features of the first CPU, \<open>prop\<close> is its property \<^verbatim>\<open>pmu\<close>.\<close>

definition fdt_add_pmu_nodes :: "qemu_env \<Rightarrow> bool \<Rightarrow> bool \<Rightarrow> bool \<Rightarrow> nat \<Rightarrow> VirtMachineState \<Rightarrow> call list result" where
  "fdt_add_pmu_nodes E feature prop v8 smp_cpus vms =
     (if \<not> feature then (if prop then Inl KernelBug else Inr [])
      else
        let flags0 = GIC_FDT_IRQ_FLAGS_LEVEL_HI E;
            irqflags = (if gic_version vms = VIRT_GIC_VERSION_2
              then deposit32 E flags0 (GIC_FDT_IRQ_PPI_CPU_START E) (GIC_FDT_IRQ_PPI_CPU_WIDTH E) (push_bit smp_cpus 1 - 1)
              else flags0)
        in Inr ([Add_subnode ''/pmu''] @
          (if v8 then [Setprop ''/pmu'' ''compatible'' (Fdt_strings [''arm,armv8-pmuv3'']),
             Setprop ''/pmu'' ''interrupts'' (Fdt_cells [GIC_FDT_IRQ_TYPE_PPI E, of_nat VIRTUAL_PMU_IRQ, irqflags])]
           else [])))"

definition fdt_add_timer_nodes :: "qemu_env \<Rightarrow> VirtMachineClass \<Rightarrow> bool \<Rightarrow> nat \<Rightarrow> VirtMachineState \<Rightarrow> call list" where
  "fdt_add_timer_nodes E vmc v8 smp_cpus vms =
     (let flags0 = (if claim_edge_triggered_timers vmc then GIC_FDT_IRQ_FLAGS_EDGE_LO_HI E else GIC_FDT_IRQ_FLAGS_LEVEL_HI E);
          irqflags = (if gic_version vms = VIRT_GIC_VERSION_2
            then deposit32 E flags0 (GIC_FDT_IRQ_PPI_CPU_START E) (GIC_FDT_IRQ_PPI_CPU_WIDTH E) (push_bit smp_cpus 1 - 1)
            else flags0);
          ppi = (\<lambda>n. [GIC_FDT_IRQ_TYPE_PPI E, of_nat n, irqflags]) in
      [Add_subnode ''/timer'',
       Setprop ''/timer'' ''compatible'' (if v8 then Fdt_strings [''arm,armv8-timer'', ''arm,armv7-timer'']
         else Fdt_string ''arm,armv7-timer''),
       Setprop ''/timer'' ''always-on'' Fdt_empty,
       Setprop ''/timer'' ''interrupts'' (Fdt_cells (ppi ARCH_TIMER_S_EL1_IRQ @ ppi ARCH_TIMER_NS_EL1_IRQ @
         ppi ARCH_TIMER_VIRT_IRQ @ ppi ARCH_TIMER_NS_EL2_IRQ))])"

definition PVTIME_SIZE_PER_CPU :: nat where "PVTIME_SIZE_PER_CPU = 64"
definition PPI :: "nat \<Rightarrow> nat" where "PPI irq = irq + 16"

text \<open>\<open>feat\<close> holds the properties of the first CPU: 64-bit, PMU and steal time; \<open>pamax\<close> is its address width.\<close>

definition virt_cpu_post_init ::
  "qemu_env \<Rightarrow> kvm_host \<Rightarrow> bool \<times> bool \<times> bool \<Rightarrow> nat \<Rightarrow> nat \<Rightarrow> nat \<Rightarrow> VirtMachineState \<Rightarrow> call list qemu" where
  "virt_cpu_post_init E kvm feat pamax smp_cpus max_cpus vms =
     (case feat of (aarch64, pmu, steal_time) \<Rightarrow>
      if kvm_enabled kvm then
        let e = vmap vms VIRT_PVTIME; pvtime_size = REAL_HOST_PAGE_ALIGN E (max_cpus * PVTIME_SIZE_PER_CPU) in
        rbind (if steal_time then
            (if pvtime_size > unat (msize e) then Inl ''pvtime requires a larger memory region than has been reserved''
             else Inr [Map_ram Sysmem ''pvtime'' (base e) (of_nat pvtime_size)]) else Inr []) (\<lambda>ram.
        Inr (ram @ concat (map (\<lambda>i.
          (if pmu then (if kvm_irqchip_in_kernel kvm then [Kvm_cpu ''pmu_set_irq'' i (PPI VIRTUAL_PMU_IRQ)] else []) @
             [Kvm_cpu ''pmu_init'' i 0] else []) @
          (if steal_time then [Kvm_cpu ''pvtime_init'' i (unat (base e) + i * PVTIME_SIZE_PER_CPU)] else [])) [0..<smp_cpus])))
      else if aarch64 \<and> highmem vms \<and> pamax < 64 - clz64 E (vms_highest_gpa vms)
      then Inl ''VCPU supports less PA bits than requested by the memory map''
      else Inr [])"

end
