(* ===== verification/Virt_Board.thy ===== *)
theory Virt_Board
  imports Virt_Devices
begin

unbundle bit_operations_syntax

text \<open>
  The flash devices, the PCIe host with its IOMMU, the platform bus and the secure memory of the board, and the
  parts of \<^verbatim>\<open>machvirt_init\<close> that check the configuration and create the devices.
\<close>

section \<open>Flash and firmware\<close>

definition VIRT_FLASH_SECTOR_SIZE :: u64 where "VIRT_FLASH_SECTOR_SIZE = 256 * KiB"

definition virt_flash_create1 :: "string \<Rightarrow> string \<Rightarrow> call list" where
  "virt_flash_create1 name alias_prop_name =
     [New_device ''cfi.pflash01'', Dev_prop name ''sector-length'' (unat VIRT_FLASH_SECTOR_SIZE), Dev_prop name ''width'' 4,
      Dev_prop name ''device-width'' 2, Dev_prop name ''big-endian'' 0, Dev_prop name ''id0'' 0x89, Dev_prop name ''id1'' 0x18,
      Dev_prop name ''id2'' 0, Dev_prop name ''id3'' 0, Dev_link name ''name'', Dev_link name alias_prop_name]"

definition virt_flash_create :: "call list" where
  "virt_flash_create = virt_flash_create1 ''virt.flash0'' ''pflash0'' @ virt_flash_create1 ''virt.flash1'' ''pflash1''"

text \<open>The two assertions of the code are faults.\<close>

definition virt_flash_map1 :: "string \<Rightarrow> u64 \<Rightarrow> u64 \<Rightarrow> mspace \<Rightarrow> call list result" where
  "virt_flash_map1 flash b sz sysmem =
     (if sz mod VIRT_FLASH_SECTOR_SIZE \<noteq> 0 then Inl KernelBug
      else if sz div VIRT_FLASH_SECTOR_SIZE > 0xFFFFFFFF then Inl KernelBug
      else Inr [Dev_prop flash ''num-blocks'' (unat (sz div VIRT_FLASH_SECTOR_SIZE)), Map sysmem flash 0 b])"

definition virt_flash_map :: "VirtMachineState \<Rightarrow> mspace \<Rightarrow> mspace \<Rightarrow> call list result" where
  "virt_flash_map vms sysmem secure_sysmem =
     (let flashsize = msize (vmap vms VIRT_FLASH) div 2; flashbase = base (vmap vms VIRT_FLASH) in
      rbind (virt_flash_map1 ''virt.flash0'' flashbase flashsize secure_sysmem) (\<lambda>c0.
      rbind (virt_flash_map1 ''virt.flash1'' (flashbase + flashsize) flashsize sysmem) (\<lambda>c1. Inr (c0 @ c1))))"

definition virt_flash_fdt :: "VirtMachineState \<Rightarrow> mspace \<Rightarrow> mspace \<Rightarrow> call list" where
  "virt_flash_fdt vms sysmem secure_sysmem =
     (let flashsize = msize (vmap vms VIRT_FLASH) div 2; flashbase = base (vmap vms VIRT_FLASH);
          f0 = \<lparr>base = flashbase, msize = flashsize\<rparr>; f1 = \<lparr>base = flashbase + flashsize, msize = flashsize\<rparr>;
          node = node_at ''/flash'' flashbase; snode = node_at ''/secflash'' flashbase in
      if sysmem = secure_sysmem then
        [Add_subnode node, Setprop node ''compatible'' (Fdt_string ''cfi-flash''), Setprop node ''reg'' (reg_of [f0, f1]),
         Setprop node ''bank-width'' (Fdt_cells [4])]
      else
        [Add_subnode snode, Setprop snode ''compatible'' (Fdt_string ''cfi-flash''), Setprop snode ''reg'' (reg_of [f0]),
         Setprop snode ''bank-width'' (Fdt_cells [4]), Setprop snode ''status'' (Fdt_string ''disabled''),
         Setprop snode ''secure-status'' (Fdt_string ''okay''),
         Add_subnode node, Setprop node ''compatible'' (Fdt_string ''cfi-flash''), Setprop node ''reg'' (reg_of [f1]),
         Setprop node ''bank-width'' (Fdt_cells [4])])"

text \<open>
  The choice of the firmware: whether the first flash has a drive, the file named with \<^verbatim>\<open>-bios\<close>,
  whether it is found and the size that loading it returns. The result tells whether firmware is present.
\<close>

definition virt_firmware_choice :: "bool \<Rightarrow> string option \<Rightarrow> bool \<Rightarrow> int \<Rightarrow> bool qemu" where
  "virt_firmware_choice pflash_blk0 bios_name found image_size =
     (case bios_name of
        None \<Rightarrow> Inr pflash_blk0
      | Some n \<Rightarrow>
          if pflash_blk0 then Inl ''The contents of the first flash device may be specified with -bios or with -drive if=pflash... but you cannot use both options at once''
          else if \<not> found then Inl (''Could not find ROM image '' @ n)
          else if image_size < 0 then Inl (''Could not load ROM image '' @ n)
          else Inr True)"

text \<open>A failed assertion ends QEMU.\<close>

definition as_qemu :: "'a result \<Rightarrow> 'a qemu" where
  "as_qemu m = (case m of Inl e \<Rightarrow> Inl ''assertion failed'' | Inr x \<Rightarrow> Inr x)"

text \<open>The flash devices are mapped before the firmware is chosen.\<close>

definition virt_firmware_init ::
  "bool \<Rightarrow> string option \<Rightarrow> bool \<Rightarrow> int \<Rightarrow> mspace \<Rightarrow> mspace \<Rightarrow> VirtMachineState \<Rightarrow> (bool \<times> call list) qemu" where
  "virt_firmware_init pflash_blk0 bios_name found image_size sysmem secure_sysmem vms =
     rbind (as_qemu (virt_flash_map vms sysmem secure_sysmem)) (\<lambda>flash.
     rbind (virt_firmware_choice pflash_blk0 bios_name found image_size) (\<lambda>loaded. Inr (loaded, flash)))"

definition create_fw_cfg :: "nat \<Rightarrow> VirtMachineState \<Rightarrow> call list" where
  "create_fw_cfg smp_cpus vms =
     (let b = base (vmap vms VIRT_FW_CFG); node = node_at ''/fw-cfg'' b in
      [Fw_cfg (b + 8) b (b + 16) (smp_cpus mod 2 ^ 16),
       Add_subnode node, Setprop node ''compatible'' (Fdt_string ''qemu,fw-cfg-mmio''),
       Setprop node ''reg'' (reg_of [vmap vms VIRT_FW_CFG]), Setprop node ''dma-coherent'' Fdt_empty])"

section \<open>PCI Express\<close>

definition pcie_irq_entry :: "qemu_env \<Rightarrow> u32 \<Rightarrow> nat \<Rightarrow> nat \<Rightarrow> nat \<Rightarrow> u32 list" where
  "pcie_irq_entry E gic_ph first_irq devfn pin =
     [of_nat (devfn * 2 ^ 8), 0, 0, of_nat (pin + 1), gic_ph, 0, 0, GIC_FDT_IRQ_TYPE_SPI E,
      of_nat (first_irq + (pin + PCI_SLOT E devfn) mod PCI_NUM_PINS E), GIC_FDT_IRQ_FLAGS_LEVEL_HI E]"

definition create_pcie_irq_map :: "qemu_env \<Rightarrow> u32 \<Rightarrow> nat \<Rightarrow> string \<Rightarrow> call list" where
  "create_pcie_irq_map E gic_ph first_irq node =
     [Setprop node ''interrupt-map'' (Fdt_raw (map (cpu_to_be32 E)
        (concat (map (\<lambda>devfn. concat (map (pcie_irq_entry E gic_ph first_irq devfn) [0, 1, 2, 3])) [0, 0x8, 0x10, 0x18])))),
      Setprop node ''interrupt-map-mask'' (Fdt_cells [ucast (cpu_to_be16 E (PCI_DEVFN E 3 0)), 0, 0, 0x7])]"

definition create_smmu :: "qemu_env \<Rightarrow> VirtMachineState \<Rightarrow> call list" where
  "create_smmu E vms =
     (let irq = irqmap vms VIRT_SMMU; b = base (vmap vms VIRT_SMMU); node = node_at ''/smmuv3'' b in
      if iommu vms \<noteq> VIRT_IOMMU_SMMUV3 \<or> iommu_phandle vms = 0 then []
      else [New_device ''arm-smmuv3'', Dev_link ''arm-smmuv3'' ''primary-bus'', Map Sysmem ''arm-smmuv3'' 0 b] @
        map (\<lambda>i. Gic_in ''arm-smmuv3'' i (irq + i)) [0..<NUM_SMMU_IRQS] @
        [Add_subnode node, Setprop node ''compatible'' (Fdt_strings [''arm,smmu-v3'']), Setprop node ''reg'' (reg_of [vmap vms VIRT_SMMU]),
         Setprop node ''interrupts'' (Fdt_cells (concat (map (\<lambda>i. spi E (irq + i) (GIC_FDT_IRQ_FLAGS_EDGE_LO_HI E)) [0, 1, 2, 3]))),
         Setprop node ''interrupt-names'' (Fdt_strings [''eventq'', ''priq'', ''cmdq-sync'', ''gerror'']),
         Setprop node ''clocks'' (Fdt_cells [clock_phandle vms]), Setprop node ''clock-names'' (Fdt_string ''apb_pclk''),
         Setprop node ''dma-coherent'' Fdt_empty, Setprop node ''#iommu-cells'' (Fdt_cells [1]),
         Setprop node ''phandle'' (Fdt_cells [iommu_phandle vms])])"

definition VIRT_ECAM_ID :: "bool \<Rightarrow> region" where
  "VIRT_ECAM_ID high = (if high then VIRT_HIGH_PCIE_ECAM else VIRT_PCIE_ECAM)"

text \<open>\<open>nics\<close> lists the network cards of the command line with their models; \<open>ph\<close> is the IOMMU's handle.\<close>

definition create_pcie :: "qemu_env \<Rightarrow> string option list \<Rightarrow> u32 \<Rightarrow> VirtMachineState \<Rightarrow> (VirtMachineState \<times> call list) result" where
  "create_pcie E nics ph vms =
     (let mmio = vmap vms VIRT_PCIE_MMIO; high = vmap vms VIRT_HIGH_PCIE_MMIO; pio = vmap vms VIRT_PCIE_PIO;
          ecam = vmap vms (VIRT_ECAM_ID (highmem_ecam vms)); irq = irqmap vms VIRT_PCIE;
          nr_pcie_buses = unat (msize ecam div PCIE_MMCFG_SIZE_MIN E);
          node = node_at ''/pcie'' (base mmio);
          dev = [New_device ''gpex-pcihost'', Map_ram Sysmem ''pcie-ecam'' (base ecam) (msize ecam),
              Map_ram Sysmem ''pcie-mmio'' (base mmio) (msize mmio)] @
            (if highmem vms then [Map_ram Sysmem ''pcie-mmio-high'' (base high) (msize high)] else []) @
            [Map Sysmem ''gpex-pcihost'' 2 (base pio)] @
            concat (map (\<lambda>i. [Gic_in ''gpex-pcihost'' i (irq + i), Dev_prop ''gpex-pcihost'' ''irq_num'' (irq + i)]) [0..<GPEX_NUM_IRQS E]) @
            [Dev_prop ''gpex-pcihost'' ''bypass_iommu'' (of_bool (default_bus_bypass_iommu vms))] @
            map (\<lambda>n. New_device (case n of None \<Rightarrow> ''virtio'' | Some m \<Rightarrow> m)) nics;
          fdt = [Add_subnode node, Setprop node ''compatible'' (Fdt_string ''pci-host-ecam-generic''),
              Setprop node ''device_type'' (Fdt_string ''pci''), Setprop node ''#address-cells'' (Fdt_cells [3]),
              Setprop node ''#size-cells'' (Fdt_cells [2]), Setprop node ''linux,pci-domain'' (Fdt_cells [0]),
              Setprop node ''bus-range'' (Fdt_cells [0, of_nat nr_pcie_buses - 1]), Setprop node ''dma-coherent'' Fdt_empty] @
            (if msi_phandle vms \<noteq> 0 then [Setprop node ''msi-parent'' (Fdt_cells [msi_phandle vms])] else []) @
            [Setprop node ''reg'' (reg_of [ecam]),
             Setprop node ''ranges'' (Fdt_sized (
               [(1, FDT_PCI_RANGE_IOPORT E), (2, 0), (2, base pio), (2, msize pio),
                (1, FDT_PCI_RANGE_MMIO E), (2, base mmio), (2, base mmio), (2, msize mmio)] @
               (if highmem vms then [(1, FDT_PCI_RANGE_MMIO_64BIT E), (2, base high), (2, base high), (2, msize high)] else []))),
             Setprop node ''#interrupt-cells'' (Fdt_cells [1])] @
            create_pcie_irq_map E (gic_phandle vms) irq node
      in case iommu vms of
           VIRT_IOMMU_NONE \<Rightarrow> Inr (vms, dev @ fdt)
         | VIRT_IOMMU_SMMUV3 \<Rightarrow>
             let vms1 = vms\<lparr>iommu_phandle := ph\<rparr>
             in Inr (vms1, dev @ fdt @ create_smmu E vms1 @
                  [Setprop node ''iommu-map'' (Fdt_cells [0x0, ph, 0x0, 0x10000])])
         | VIRT_IOMMU_VIRTIO \<Rightarrow> Inl KernelBug)"

section \<open>Platform bus and secure memory\<close>

definition create_platform_bus :: "VirtMachineState \<Rightarrow> call list" where
  "create_platform_bus vms =
     (let e = vmap vms VIRT_PLATFORM_BUS in
      [New_device ''platform-bus-device'', Dev_prop ''platform-bus-device'' ''num_irqs'' PLATFORM_BUS_NUM_IRQS,
       Dev_prop ''platform-bus-device'' ''mmio_size'' (unat (msize e) mod 2 ^ 32)] @
      map (\<lambda>i. Gic_in ''platform-bus-device'' i (irqmap vms VIRT_PLATFORM_BUS + i)) [0..<PLATFORM_BUS_NUM_IRQS] @
      [Map Sysmem ''platform-bus-device'' 0 (base e)])"

definition create_tag_ram :: "mspace \<Rightarrow> u64 \<Rightarrow> u64 \<Rightarrow> string \<Rightarrow> call list" where
  "create_tag_ram tag_sysmem b sz name = [Map_ram tag_sysmem name (b div 32) (sz div 32)]"

definition create_secure_ram :: "bool \<Rightarrow> VirtMachineState \<Rightarrow> call list" where
  "create_secure_ram secure_tag vms =
     (let e = vmap vms VIRT_SECURE_MEM; node = node_at ''/secram'' (base e) in
      [Map_ram Secure_sysmem ''virt.secure-ram'' (base e) (msize e), Add_subnode node,
       Setprop node ''device_type'' (Fdt_string ''memory''), Setprop node ''reg'' (reg_of [e]),
       Setprop node ''status'' (Fdt_string ''disabled''), Setprop node ''secure-status'' (Fdt_string ''okay'')] @
      (if secure_tag then create_tag_ram Secure_tag_sysmem (base e) (msize e) ''mach-virt.secure-tag'' else []))"

section \<open>Starting the machine\<close>

record machine_opts =
  ram_size :: u64
  maxram_size :: u64
  ram_slots :: u64
  smp_cpus :: nat
  max_cpus :: nat
  cpu_type :: string
  hvf_enabled :: bool
  aarch64 :: bool
  cpu_v8 :: bool
  cpu_pmu :: bool
  cpu_pmu_feature :: bool
  cpu_steal_time :: bool
  cpu_pamax :: nat
  nvdimm :: bool
  nics :: "string option list"

datatype psci = PSCI_DISABLED | PSCI_SMC | PSCI_HVC

text \<open>
  The checks in the order of the code: the map, the GIC, the CPU type, the firmware, the number of CPUs, and features that an
  accelerator cannot provide. \<open>early\<close> is the map if KVM's start-up has computed it, \<open>fw\<close> the
  set-up of the firmware on the machine so far. The result has the machine, the way CPUs are switched on, whether there is firmware, the
  calls for the flash devices and the hot-pluggable memory.
\<close>

definition machvirt_checks ::
  "qemu_env \<Rightarrow> kvm_host \<Rightarrow> string \<Rightarrow> board_map option \<Rightarrow> (VirtMachineState \<Rightarrow> (bool \<times> call list) qemu) \<Rightarrow> machine_opts \<Rightarrow>
    VirtMachineState \<Rightarrow> (VirtMachineState \<times> psci \<times> bool \<times> call list \<times> MemMapEntry option) qemu" where
  "machvirt_checks E kvm suffix early fw mo vms =
     rbind (case early of Some M \<Rightarrow> Inr M
       | None \<Rightarrow> virt_set_memmap E (ram_size mo) (maxram_size mo) (ram_slots mo)) (\<lambda>M.
     rbind (finalize_gic_version E kvm (max_cpus mo) (gic_version vms)) (\<lambda>v.
     let vms1 = vms\<lparr>vmap := memmap M, vms_highest_gpa := highest_gpa M, gic_version := v\<rparr> in
     if \<not> cpu_type_valid suffix (cpu_type mo) then Inl (''mach-virt: CPU type not supported: '' @ cpu_type mo)
     else rbind (fw vms1) (\<lambda>(firmware_loaded, flash).
       let conduit = (if secure vms \<and> firmware_loaded then PSCI_DISABLED else if virt vms then PSCI_SMC else PSCI_HVC) in
       if max_cpus mo > virt_max_cpus E vms1 then Inl ''Number of SMP CPUs requested exceeds max CPUs supported by machine''
       else if virt vms \<and> (kvm_enabled kvm \<or> hvf_enabled mo)
       then Inl ''mach-virt: accelerator does not support providing Virtualization extensions to the guest CPU''
       else if mte vms \<and> (kvm_enabled kvm \<or> hvf_enabled mo)
       then Inl ''mach-virt: accelerator does not support providing MTE to the guest CPU''
       else Inr (vms1, conduit, firmware_loaded, flash, device_memory M))))"

text \<open>Device tree handles: GIC, MSI controller, IOMMU, both GPIO controllers.\<close>

record handles =
  ph_gic :: u32
  ph_msi :: u32
  ph_iommu :: u32
  ph_gpio :: u32
  ph_secure_gpio :: u32

text \<open>
  The devices after the CPUs, in the order of the code. \<open>tag\<close> tells whether there is tag memory;
  \<open>evts\<close> and \<open>names\<close> are as for \<open>create_acpi_ged\<close> and \<open>create_gic\<close>.
\<close>

definition machvirt_devices ::
  "qemu_env \<Rightarrow> kvm_host \<Rightarrow> string \<times> string \<Rightarrow> string option \<Rightarrow> u32 \<times> u32 \<times> u32 \<Rightarrow> handles \<Rightarrow> VirtMachineClass \<Rightarrow> bool \<Rightarrow> bool \<Rightarrow>
    MemMapEntry option \<Rightarrow> machine_opts \<Rightarrow> VirtMachineState \<Rightarrow> (VirtMachineState \<times> call list) qemu" where
  "machvirt_devices E kvm names itsclass evts H vmc firmware_loaded tag dm mo vms =
     (let sec = (if secure vms then Secure_sysmem else Sysmem);
          ram = [Map_ram Sysmem ''mach-virt.ram'' (base (vmap vms VIRT_MEM)) (ram_size mo)] @
            (case dm of None \<Rightarrow> [] | Some e \<Rightarrow> [Map_ram Sysmem ''device-memory'' (base e) (msize e)]);
          flash = virt_flash_fdt vms Sysmem sec in
      rbind (as_qemu (create_gic E (kvm_irqchip_in_kernel kvm) names itsclass (ph_gic H, ph_msi H) (smp_cpus mo) vms)) (\<lambda>(vms1, gic).
      rbind (virt_cpu_post_init E kvm (aarch64 mo, cpu_pmu mo, cpu_steal_time mo) (cpu_pamax mo) (smp_cpus mo) (max_cpus mo) vms1)
        (\<lambda>post.
      rbind (as_qemu (fdt_add_pmu_nodes E (cpu_pmu_feature mo) (cpu_pmu mo) (cpu_v8 mo) (smp_cpus mo) vms1)) (\<lambda>pmu.
      let uarts = create_uart E vms1 VIRT_UART Sysmem 0 @ create_uart E vms1 VIRT_UART2 Sysmem 1;
          secdev = (if secure vms1 then create_secure_ram tag vms1 @ create_uart E vms1 VIRT_SECURE_UART Secure_sysmem 1 else []);
          tagram = (if tag then create_tag_ram Tag_sysmem (base (vmap vms1 VIRT_MEM)) (ram_size mo) ''mach-virt.tag'' else []);
          vms2 = vms1\<lparr>highmem_ecam := highmem_ecam vms1 \<and> highmem vms1 \<and> (\<not> firmware_loaded \<or> aarch64 mo)\<rparr>;
          rtc = create_rtc E vms2 in
      rbind (as_qemu (create_pcie E (nics mo) (ph_iommu H) vms2)) (\<lambda>(vms3, pcie).
      let ged = (if \<not> no_ged vmc \<and> aarch64 mo \<and> firmware_loaded \<and> virt_is_acpi_enabled vms3
                 then create_acpi_ged evts (unat (ram_slots mo)) (nvdimm mo) vms3
                 else create_gpio_devices E (ph_gpio H) vms3 VIRT_GPIO Sysmem);
          secgpio = (if secure vms3 \<and> \<not> no_secure_gpio vmc
                     then create_gpio_devices E (ph_secure_gpio H) vms3 VIRT_SECURE_GPIO Secure_sysmem else []) in
      Inr (vms3, ram @ flash @ gic @ post @ pmu @ uarts @ secdev @ tagram @ rtc @ pcie @ ged @ secgpio @
        [Dev_link ''powerdown_notifier'' ''virt_powerdown_req''] @ create_virtio_devices E vms3 @
        create_fw_cfg (smp_cpus mo) vms3 @ [Dev_link ''rom'' ''fw_cfg''] @ create_platform_bus vms3))))))"

end
