(* ===== verification/Virt_Wiring.thy ===== *)
theory Virt_Wiring
  imports Virt_Board
begin

text \<open>
  The device tree tells the guest the truth: every interrupt it advertises is connected to the GIC, and every
  register block it advertises is mapped. The GIC inputs are used once each, but for one combination of options.
\<close>

section \<open>Reading a sequence of calls\<close>

fun wired :: "call list \<Rightarrow> nat list" where
  "wired [] = []"
| "wired (Gic_in d k n # cs) = n # wired cs"
| "wired (c # cs) = wired cs"

fun triples :: "'a list \<Rightarrow> ('a \<times> 'a \<times> 'a) list" where
  "triples (a # b # c # xs) = (a, b, c) # triples xs"
| "triples xs = []"

fun advertised :: "qemu_env \<Rightarrow> call list \<Rightarrow> u32 list" where
  "advertised E [] = []"
| "advertised E (Setprop node p (Fdt_cells xs) # cs) =
     (if p = ''interrupts'' then map (\<lambda>(a, b, c). b) (filter (\<lambda>(a, b, c). a = GIC_FDT_IRQ_TYPE_SPI E) (triples xs)) else []) @
     advertised E cs"
| "advertised E (c # cs) = advertised E cs"

fun mapped :: "call list \<Rightarrow> u64 list" where
  "mapped [] = []"
| "mapped (Map s d k b # cs) = b # mapped cs"
| "mapped (Map_ram s n b z # cs) = b # mapped cs"
| "mapped (Fw_cfg c d x n # cs) = d # mapped cs"
| "mapped (c # cs) = mapped cs"

text \<open>The bases of a \<^verbatim>\<open>reg\<close> property, which alternates bases and sizes.\<close>

fun evens :: "'a list \<Rightarrow> 'a list" where
  "evens (a # b # xs) = a # evens xs"
| "evens xs = []"

fun reg_bases :: "call list \<Rightarrow> u64 list" where
  "reg_bases [] = []"
| "reg_bases (Setprop node p (Fdt_sized xs) # cs) = (if p = ''reg'' then evens (map snd xs) else []) @ reg_bases cs"
| "reg_bases (c # cs) = reg_bases cs"

lemma wired_append [simp]: "wired (xs @ ys) = wired xs @ wired ys"
  by (induction xs rule: wired.induct) simp_all

lemma advertised_append [simp]: "advertised E (xs @ ys) = advertised E xs @ advertised E ys"
  by (induction xs rule: advertised.induct) simp_all

lemma mapped_append [simp]: "mapped (xs @ ys) = mapped xs @ mapped ys"
  by (induction xs rule: mapped.induct) simp_all

lemma reg_bases_append [simp]: "reg_bases (xs @ ys) = reg_bases xs @ reg_bases ys"
  by (induction xs rule: reg_bases.induct) simp_all

lemma calls_concat:
  "wired (concat css) = concat (map wired css)" "advertised E (concat css) = concat (map (advertised E) css)"
  "mapped (concat css) = concat (map mapped css)" "reg_bases (concat css) = concat (map reg_bases css)"
  by (induction css) simp_all

lemma calls_wires:
  "wired (map (\<lambda>i. Gic_in d (f i) (g i)) is) = map g is" "advertised E (map (\<lambda>i. Gic_in d (f i) (g i)) is) = []"
  "mapped (map (\<lambda>i. Gic_in d (f i) (g i)) is) = []" "reg_bases (map (\<lambda>i. Gic_in d (f i) (g i)) is) = []"
  by (induction "is") simp_all

lemma calls_new:
  "wired (map (\<lambda>n. New_device (f n)) is) = []" "advertised E (map (\<lambda>n. New_device (f n)) is) = []"
  "mapped (map (\<lambda>n. New_device (f n)) is) = []" "reg_bases (map (\<lambda>n. New_device (f n)) is) = []"
  by (induction "is") simp_all

lemmas calls_simps = calls_concat calls_wires calls_new

section \<open>Each device\<close>

lemma uart_calls [simp]:
  "wired (create_uart E vms u mem chr) = [irqmap vms u]" "advertised E (create_uart E vms u mem chr) = [of_nat (irqmap vms u)]"
  "mapped (create_uart E vms u mem chr) = [base (vmap vms u)]" "reg_bases (create_uart E vms u mem chr) = [base (vmap vms u)]"
  by (simp_all add: create_uart_def Let_def spi_def reg_of_def)

lemma rtc_calls [simp]:
  "wired (create_rtc E vms) = [irqmap vms VIRT_RTC]" "advertised E (create_rtc E vms) = [of_nat (irqmap vms VIRT_RTC)]"
  "mapped (create_rtc E vms) = [base (vmap vms VIRT_RTC)]" "reg_bases (create_rtc E vms) = [base (vmap vms VIRT_RTC)]"
  by (simp_all add: create_rtc_def Let_def spi_def reg_of_def)

lemma gpio_calls [simp]:
  "wired (create_gpio_devices E ph vms g mem) = [irqmap vms g]"
  "advertised E (create_gpio_devices E ph vms g mem) = [of_nat (irqmap vms g)]"
  "mapped (create_gpio_devices E ph vms g mem) = [base (vmap vms g)]"
  "reg_bases (create_gpio_devices E ph vms g mem) = [base (vmap vms g)]"
  by (simp_all add: create_gpio_devices_def create_gpio_keys_def create_secure_gpio_pwr_def Let_def spi_def reg_of_def)

lemma virtio_calls [simp]:
  "wired (create_virtio_devices E vms) = map (\<lambda>i. irqmap vms VIRT_MMIO + i) [0..<NUM_VIRTIO_TRANSPORTS]"
  "advertised E (create_virtio_devices E vms) =
    map (\<lambda>i. of_nat (irqmap vms VIRT_MMIO + i)) (rev [0..<NUM_VIRTIO_TRANSPORTS])"
  "mapped (create_virtio_devices E vms) =
    map (\<lambda>i. base (vmap vms VIRT_MMIO) + of_nat i * msize (vmap vms VIRT_MMIO)) [0..<NUM_VIRTIO_TRANSPORTS]"
  "reg_bases (create_virtio_devices E vms) =
    map (\<lambda>i. base (vmap vms VIRT_MMIO) + of_nat i * msize (vmap vms VIRT_MMIO)) (rev [0..<NUM_VIRTIO_TRANSPORTS])"
  by (simp_all add: create_virtio_devices_def Let_def calls_simps spi_def reg_of_def comp_def concat_map_singleton
      del: upt_Suc)

lemma ged_calls [simp]:
  "wired (create_acpi_ged evts n nv vms) = [irqmap vms VIRT_ACPI_GED]" "advertised E (create_acpi_ged evts n nv vms) = []"
  "mapped (create_acpi_ged evts n nv vms) = [base (vmap vms VIRT_ACPI_GED), base (vmap vms VIRT_PCDIMM_ACPI)]"
  "reg_bases (create_acpi_ged evts n nv vms) = []"
  by (simp_all add: create_acpi_ged_def Let_def split: prod.split)

lemma small_calls [simp]:
  "wired (create_fw_cfg n vms) = []" "advertised E (create_fw_cfg n vms) = []"
  "mapped (create_fw_cfg n vms) = [base (vmap vms VIRT_FW_CFG)]" "reg_bases (create_fw_cfg n vms) = [base (vmap vms VIRT_FW_CFG)]"
  "wired (create_platform_bus vms) = map (\<lambda>i. irqmap vms VIRT_PLATFORM_BUS + i) [0..<PLATFORM_BUS_NUM_IRQS]"
  "advertised E (create_platform_bus vms) = []" "mapped (create_platform_bus vms) = [base (vmap vms VIRT_PLATFORM_BUS)]"
  "reg_bases (create_platform_bus vms) = []"
  "wired (create_tag_ram sp b z nm) = []" "advertised E (create_tag_ram sp b z nm) = []" "reg_bases (create_tag_ram sp b z nm) = []"
  "wired (create_secure_ram t vms) = []" "advertised E (create_secure_ram t vms) = []"
  "reg_bases (create_secure_ram t vms) = [base (vmap vms VIRT_SECURE_MEM)]"
  "base (vmap vms VIRT_SECURE_MEM) \<in> set (mapped (create_secure_ram t vms))"
  "wired (virt_flash_fdt vms s1 s2) = []" "advertised E (virt_flash_fdt vms s1 s2) = []"
  by (simp_all add: create_fw_cfg_def create_platform_bus_def create_tag_ram_def create_secure_ram_def virt_flash_fdt_def
      Let_def calls_simps reg_of_def del: upt_Suc)

lemma smmu_calls [simp]:
  "wired (create_smmu E vms) = (if iommu vms = VIRT_IOMMU_SMMUV3 \<and> iommu_phandle vms \<noteq> 0
    then map (\<lambda>i. irqmap vms VIRT_SMMU + i) [0..<NUM_SMMU_IRQS] else [])"
  "set (advertised E (create_smmu E vms)) \<subseteq> of_nat ` set (wired (create_smmu E vms))"
  "mapped (create_smmu E vms) = reg_bases (create_smmu E vms)"
  by (auto simp: create_smmu_def Let_def calls_simps spi_def reg_of_def NUM_SMMU_IRQS_def upt_rec)

text \<open>The fields that creating the PCIe host and the interrupt controller leaves alone.\<close>

definition same_board :: "VirtMachineState \<Rightarrow> VirtMachineState \<Rightarrow> bool" where
  "same_board a b \<longleftrightarrow> vmap a = vmap b \<and> irqmap a = irqmap b \<and> secure a = secure b \<and> iommu a = iommu b \<and> acpi a = acpi b \<and>
     gic_version a = gic_version b"

lemma pcie_calls:
  assumes "create_pcie E ns ph vms = Inr (vms', cs)"
  shows "wired cs = map (\<lambda>i. irqmap vms VIRT_PCIE + i) [0..<GPEX_NUM_IRQS E] @
      (if iommu vms = VIRT_IOMMU_SMMUV3 \<and> ph \<noteq> 0 then map (\<lambda>i. irqmap vms VIRT_SMMU + i) [0..<NUM_SMMU_IRQS] else [])"
    "set (advertised E cs) \<subseteq> of_nat ` set (wired cs)" "set (reg_bases cs) \<subseteq> set (mapped cs)"
    "same_board vms' vms"
proof -
  show "wired cs = map (\<lambda>i. irqmap vms VIRT_PCIE + i) [0..<GPEX_NUM_IRQS E] @
      (if iommu vms = VIRT_IOMMU_SMMUV3 \<and> ph \<noteq> 0 then map (\<lambda>i. irqmap vms VIRT_SMMU + i) [0..<NUM_SMMU_IRQS] else [])"
    using assms by (auto simp: create_pcie_def create_pcie_irq_map_def Let_def calls_simps comp_def concat_map_singleton
        simp del: upt_Suc split: VirtIOMMUType.splits)
  show "set (advertised E cs) \<subseteq> of_nat ` set (wired cs)"
    using assms smmu_calls(2) [of E "vms\<lparr>iommu_phandle := ph\<rparr>"]
    by (auto simp: create_pcie_def create_pcie_irq_map_def Let_def calls_simps comp_def reg_of_def simp del: upt_Suc smmu_calls(2)
        split: VirtIOMMUType.splits if_splits)
  show "set (reg_bases cs) \<subseteq> set (mapped cs)"
    using assms by (auto simp: create_pcie_def create_pcie_irq_map_def Let_def calls_simps comp_def reg_of_def simp del: upt_Suc
        split: VirtIOMMUType.splits if_splits)
  show "same_board vms' vms"
    using assms by (auto simp: create_pcie_def same_board_def Let_def split: VirtIOMMUType.splits)
qed

section \<open>The interrupt controller\<close>

definition gic_ppis :: "qemu_env \<Rightarrow> nat \<Rightarrow> VirtMachineState \<Rightarrow> nat list" where
  "gic_ppis E n vms = (if gic_version vms \<noteq> VIRT_GIC_VERSION_3 \<and> virt vms
     then map (\<lambda>i. NUM_IRQS + i * GIC_INTERNAL E + GIC_NR_SGIS E + ARCH_GIC_MAINT_IRQ) [0..<n] else [])"

lemma gic_type_simps [simp]: "gic_type v = 3 \<longleftrightarrow> v = VIRT_GIC_VERSION_3" "gic_type v = 2 \<longleftrightarrow> v = VIRT_GIC_VERSION_2"
  by (cases v; simp)+

lemma gic_wires_calls:
  "wired (concat (map (gic_cpu_wires E g n vms) is)) =
    (if gic_version vms \<noteq> VIRT_GIC_VERSION_3 \<and> virt vms
     then map (\<lambda>i. NUM_IRQS + i * GIC_INTERNAL E + GIC_NR_SGIS E + ARCH_GIC_MAINT_IRQ) is else [])"
  "advertised E (concat (map (gic_cpu_wires E g n vms) is)) = []" "mapped (concat (map (gic_cpu_wires E g n vms) is)) = []"
  "reg_bases (concat (map (gic_cpu_wires E g n vms) is)) = []"
  by (induction "is") (simp_all add: gic_cpu_wires_def Let_def)

lemma gic_props_calls:
  "gic_props E k g n vms = Inr cs \<Longrightarrow> wired cs = [] \<and> advertised E cs = [] \<and> reg_bases cs = [] \<and> mapped cs = []"
  by (auto simp: gic_props_def Let_def split: if_splits)

lemma gic_maps_calls: "gic_maps E g n vms = Inr cs \<Longrightarrow> wired cs = [] \<and> advertised E cs = [] \<and> reg_bases cs = []"
  by (auto simp: gic_maps_def split: if_splits)

lemma gic_regs_mapped:
  assumes "gic_maps E g n vms = Inr ms" "fdt_add_gic_node E n ph vms = Inr (vms', cs)"
  shows "set (reg_bases cs) \<subseteq> set (mapped ms)"
proof (cases "gic_version vms = VIRT_GIC_VERSION_3")
  case True
  then show ?thesis using assms
    by (cases "virt vms"; cases "redist_capacity E (vmap vms VIRT_GIC_REDIST) < n")
      (simp_all add: gic_maps_def fdt_add_gic_node_def virt_gicv3_redist_region_count_def maint_irq_def reg_of_def Let_def,
        auto)
next
  case False
  then show ?thesis using assms
    by (cases "virt vms") (simp_all add: gic_maps_def fdt_add_gic_node_def maint_irq_def reg_of_def Let_def, auto)
qed

lemma gic_node_calls:
  assumes "fdt_add_gic_node E n ph vms = Inr (vms', cs)" "GIC_FDT_IRQ_TYPE_SPI E \<noteq> GIC_FDT_IRQ_TYPE_PPI E"
  shows "wired cs = []" "advertised E cs = []" "vms' = vms\<lparr>gic_phandle := ph\<rparr>"
  using assms by (auto simp: fdt_add_gic_node_def maint_irq_def reg_of_def Let_def split: if_splits)

lemma msi_calls:
  "create_its c ph vms = Inr (vms', cs) \<Longrightarrow> wired cs = [] \<and> advertised E cs = [] \<and> set (reg_bases cs) \<subseteq> set (mapped cs) \<and>
    same_board vms' vms"
  "create_v2m ph vms = (vms', cs) \<Longrightarrow> wired cs = map (\<lambda>i. irqmap vms VIRT_GIC_V2M + i) [0..<NUM_GICV2M_SPIS] \<and>
    advertised E cs = [] \<and> set (reg_bases cs) \<subseteq> set (mapped cs) \<and>
    same_board vms' vms"
  by (auto simp: same_board_def create_its_def create_v2m_def fdt_add_its_gic_node_def fdt_add_v2m_gic_node_def reg_of_def Let_def calls_simps
      simp del: upt_Suc split: option.splits if_splits)

lemma gic_calls:
  assumes "create_gic E k names c phs n vms = Inr (vms', cs)" "GIC_FDT_IRQ_TYPE_SPI E \<noteq> GIC_FDT_IRQ_TYPE_PPI E"
  shows "wired cs = gic_ppis E n vms @ (if gic_version vms = VIRT_GIC_VERSION_2
      then map (\<lambda>i. irqmap vms VIRT_GIC_V2M + i) [0..<NUM_GICV2M_SPIS] else [])"
    "advertised E cs = []" "set (reg_bases cs) \<subseteq> set (mapped cs)"
    "same_board vms' vms"
proof -
  let ?g = "if gic_version vms = VIRT_GIC_VERSION_3 then snd names else fst names"
  obtain props maps vms1 fdt where
    p: "gic_props E k ?g n vms = Inr props" and m: "gic_maps E ?g n vms = Inr maps"
    and f: "fdt_add_gic_node E n (fst phs) vms = Inr (vms1, fdt)"
    using assms(1) by (auto simp: create_gic_def Let_def)
  obtain msi where msi: "(if gic_version vms = VIRT_GIC_VERSION_3 \<and> its vms then create_its c (snd phs) vms1
      else Inr (if gic_version vms = VIRT_GIC_VERSION_2 then create_v2m (snd phs) vms1 else (vms1, []))) = Inr (vms', msi)"
    and cs: "cs = props @ maps @ concat (map (gic_cpu_wires E ?g n vms) [0..<n]) @ fdt @ msi"
    using assms(1) p m f unfolding create_gic_def Let_def gic_type_simps by (auto split: prod.splits)
  note node = gic_node_calls [OF f assms(2)]
  have "wired msi = (if gic_version vms = VIRT_GIC_VERSION_2
        then map (\<lambda>i. irqmap vms VIRT_GIC_V2M + i) [0..<NUM_GICV2M_SPIS] else []) \<and>
      advertised E msi = [] \<and> set (reg_bases msi) \<subseteq> set (mapped msi) \<and>
      same_board vms' vms"
    using msi msi_calls(1) [of c "snd phs" vms1 vms' msi E] msi_calls(2) [of "snd phs" vms1 vms' msi E] node(3)
    by (auto simp: same_board_def split: if_splits)
  note msi' = this
  show "wired cs = gic_ppis E n vms @ (if gic_version vms = VIRT_GIC_VERSION_2
      then map (\<lambda>i. irqmap vms VIRT_GIC_V2M + i) [0..<NUM_GICV2M_SPIS] else [])"
    using gic_props_calls [OF p] gic_maps_calls [OF m] node msi' by (simp add: cs gic_wires_calls gic_ppis_def)
  show "advertised E cs = []"
    using gic_props_calls [OF p] gic_maps_calls [OF m] node msi' by (simp add: cs gic_wires_calls)
  show "set (reg_bases cs) \<subseteq> set (mapped cs)"
    using gic_props_calls [OF p] gic_maps_calls [OF m] gic_regs_mapped [OF m f] msi' by (auto simp: cs gic_wires_calls)
  show "same_board vms' vms"
    using msi' by simp
qed

lemma kvm_calls:
  "list_all (\<lambda>c. (\<exists>f i x. c = Kvm_cpu f i x) \<or> (\<exists>m n b z. c = Map_ram m n b z)) cs \<Longrightarrow>
    wired cs = [] \<and> advertised E cs = [] \<and> reg_bases cs = []"
  by (induction cs) auto

lemma post_init_calls:
  assumes "virt_cpu_post_init E kvm feat pm n mx vms = Inr cs"
  shows "wired cs = [] \<and> advertised E cs = [] \<and> reg_bases cs = []"
  by (rule kvm_calls)
    (use assms in \<open>auto simp: virt_cpu_post_init_def Let_def list_all_iff split: prod.splits if_splits\<close>)

lemma pmu_calls:
  assumes "fdt_add_pmu_nodes E f p v n vms = Inr cs" "GIC_FDT_IRQ_TYPE_SPI E \<noteq> GIC_FDT_IRQ_TYPE_PPI E"
  shows "wired cs = [] \<and> advertised E cs = [] \<and> reg_bases cs = []"
  using assms by (auto simp: fdt_add_pmu_nodes_def Let_def split: if_splits)

section \<open>The whole board\<close>

lemma honest_append:
  "set (advertised E xs) \<subseteq> of_nat ` set (wired xs) \<Longrightarrow> set (advertised E ys) \<subseteq> of_nat ` set (wired ys) \<Longrightarrow>
    set (advertised E (xs @ ys)) \<subseteq> of_nat ` set (wired (xs @ ys))"
  by auto

lemma virtio_honest: "set (advertised E (create_virtio_devices E vms)) \<subseteq> of_nat ` set (wired (create_virtio_devices E vms))"
  unfolding virtio_calls set_map set_rev image_image by (rule order_refl)

text \<open>The GIC inputs in the order in which the board connects them.\<close>

definition board_irqs :: "qemu_env \<Rightarrow> VirtMachineState \<Rightarrow> nat \<Rightarrow> bool \<Rightarrow> bool \<Rightarrow> bool \<Rightarrow> nat list" where
  "board_irqs E vms n smmu ged sgpio =
     gic_ppis E n vms @ (if gic_version vms = VIRT_GIC_VERSION_2 then map (\<lambda>i. 48 + i) [0..<64] else []) @ [1, 10] @
     (if secure vms then [8] else []) @ [2] @ map (\<lambda>i. 3 + i) [0..<GPEX_NUM_IRQS E] @
     (if smmu then map (\<lambda>i. 74 + i) [0..<4] else []) @ [if ged then 9 else 7] @ (if sgpio then [0] else []) @
     map (\<lambda>i. 16 + i) [0..<32] @ map (\<lambda>i. 112 + i) [0..<64]"

lemma as_qemu_Inr [simp]: "as_qemu m = Inr x \<longleftrightarrow> m = Inr x" "as_qemu (Inr x) = Inr x"
  by (cases m; simp add: as_qemu_def)+

lemma board_calls:
  assumes dev: "machvirt_devices E kvm names itsclass evts H vmc fw tag dm mo vms = Inr (vms', cs)"
    and spi: "GIC_FDT_IRQ_TYPE_SPI E \<noteq> GIC_FDT_IRQ_TYPE_PPI E" and irqs: "irqmap vms = a15irqmap"
  obtains ged sgpio where
    "wired cs = board_irqs E vms (smp_cpus mo) (iommu vms = VIRT_IOMMU_SMMUV3 \<and> ph_iommu H \<noteq> 0) ged sgpio"
    "set (advertised E cs) \<subseteq> of_nat ` set (wired cs)"
    "set (reg_bases cs) \<subseteq> set (reg_bases (virt_flash_fdt vms Sysmem (if secure vms then Secure_sysmem else Sysmem))) \<union> set (mapped cs)"
proof -
  obtain vms1 gic post pmu vms3 pcie where
    g: "create_gic E (kvm_irqchip_in_kernel kvm) names itsclass (ph_gic H, ph_msi H) (smp_cpus mo) vms = Inr (vms1, gic)"
    and p: "virt_cpu_post_init E kvm (aarch64 mo, cpu_pmu mo, cpu_steal_time mo) (cpu_pamax mo) (smp_cpus mo) (max_cpus mo) vms1 = Inr post"
    and u: "fdt_add_pmu_nodes E (cpu_pmu_feature mo) (cpu_pmu mo) (cpu_v8 mo) (smp_cpus mo) vms1 = Inr pmu"
    and c: "create_pcie E (nics mo) (ph_iommu H)
      (vms1\<lparr>highmem_ecam := highmem_ecam vms1 \<and> highmem vms1 \<and> (\<not> fw \<or> aarch64 mo)\<rparr>) = Inr (vms3, pcie)"
    using dev by (auto simp: machvirt_devices_def Let_def)
  let ?sec = "if secure vms then Secure_sysmem else Sysmem"
  let ?ram = "[Map_ram Sysmem ''mach-virt.ram'' (base (vmap vms VIRT_MEM)) (ram_size mo)] @
    (case dm of None \<Rightarrow> [] | Some e \<Rightarrow> [Map_ram Sysmem ''device-memory'' (base e) (msize e)])"
  let ?ged = "\<not> no_ged vmc \<and> aarch64 mo \<and> fw \<and> virt_is_acpi_enabled vms3"
  let ?sg = "secure vms3 \<and> \<not> no_secure_gpio vmc"
  let ?secdev = "if secure vms1 then create_secure_ram tag vms1 @ create_uart E vms1 VIRT_SECURE_UART Secure_sysmem 1 else []"
  let ?rtc = "create_rtc E (vms1\<lparr>highmem_ecam := highmem_ecam vms1 \<and> highmem vms1 \<and> (\<not> fw \<or> aarch64 mo)\<rparr>)"
  define front where "front = ?ram @ virt_flash_fdt vms Sysmem ?sec @ gic @ post @ pmu @
    create_uart E vms1 VIRT_UART Sysmem 0 @ create_uart E vms1 VIRT_UART2 Sysmem 1 @ ?secdev @
    (if tag then create_tag_ram Tag_sysmem (base (vmap vms1 VIRT_MEM)) (ram_size mo) ''mach-virt.tag'' else []) @ ?rtc"
  define rear where "rear = (if ?ged then create_acpi_ged evts (unat (ram_slots mo)) (nvdimm mo) vms3
      else create_gpio_devices E (ph_gpio H) vms3 VIRT_GPIO Sysmem) @
    (if ?sg then create_gpio_devices E (ph_secure_gpio H) vms3 VIRT_SECURE_GPIO Secure_sysmem else []) @
    [Dev_link ''powerdown_notifier'' ''virt_powerdown_req''] @ create_virtio_devices E vms3 @
    create_fw_cfg (smp_cpus mo) vms3 @ [Dev_link ''rom'' ''fw_cfg''] @ create_platform_bus vms3"
  have cs: "cs = front @ pcie @ rear"
    using dev unfolding machvirt_devices_def Let_def g as_qemu_Inr(2) rbind.simps prod.case p u c front_def rear_def
    by (simp only: sum.inject prod.inject append_assoc) (elim conjE, hypsubst, rule refl)
  note gc = gic_calls [OF g spi] and pc = pcie_calls [OF c]
  have same: "vmap vms1 = vmap vms" "irqmap vms1 = a15irqmap" "secure vms1 = secure vms" "iommu vms1 = iommu vms"
    and same3: "vmap vms3 = vmap vms" "irqmap vms3 = a15irqmap" "secure vms3 = secure vms"
    using gc(4) pc(4) irqs by (auto simp: same_board_def)
  have ram: "wired ?ram = []" "advertised E ?ram = []" "reg_bases ?ram = []" by (simp_all split: option.split)
  note po = post_init_calls [OF p] and pm = pmu_calls [OF u spi]
  have wf: "wired front = gic_ppis E (smp_cpus mo) vms @ (if gic_version vms = VIRT_GIC_VERSION_2 then map (\<lambda>i. 48 + i) [0..<64] else []) @
      [1, 10] @ (if secure vms then [8] else []) @ [2]"
    unfolding front_def using ram gc po pm same irqs by (simp add: NUM_GICV2M_SPIS_def del: upt_Suc)
  have wb: "wired rear = [if ?ged then 9 else 7] @ (if ?sg then [0] else []) @ map (\<lambda>i. 16 + i) [0..<32] @ map (\<lambda>i. 112 + i) [0..<64]"
    unfolding rear_def using same3 by (simp add: NUM_VIRTIO_TRANSPORTS_def PLATFORM_BUS_NUM_IRQS_def del: upt_Suc)
  have wp: "wired pcie = map (\<lambda>i. 3 + i) [0..<GPEX_NUM_IRQS E] @
      (if iommu vms = VIRT_IOMMU_SMMUV3 \<and> ph_iommu H \<noteq> 0 then map (\<lambda>i. 74 + i) [0..<4] else [])"
    using pc(1) same by (simp add: NUM_SMMU_IRQS_def del: upt_Suc)
  have af: "set (advertised E front) \<subseteq> of_nat ` set (wired front)"
    unfolding front_def using ram gc(2) po pm by auto
  have ab: "set (advertised E rear) \<subseteq> of_nat ` set (wired rear)"
    unfolding rear_def by (intro honest_append virtio_honest) simp_all
  have rf: "set (reg_bases front) \<subseteq> set (reg_bases (virt_flash_fdt vms Sysmem ?sec)) \<union> set (mapped front)"
    unfolding front_def using ram gc(3) po pm by auto
  have rb: "set (reg_bases rear) \<subseteq> set (mapped rear)"
    unfolding rear_def by (auto simp del: upt_Suc)
  show ?thesis
  proof (rule that [of ?ged ?sg])
    show "wired cs = board_irqs E vms (smp_cpus mo) (iommu vms = VIRT_IOMMU_SMMUV3 \<and> ph_iommu H \<noteq> 0) ?ged ?sg"
      unfolding cs wired_append wf wp wb board_irqs_def by simp
    show "set (advertised E cs) \<subseteq> of_nat ` set (wired cs)"
      unfolding cs wired_append advertised_append set_append image_Un using af pc(2) ab by blast
    show "set (reg_bases cs) \<subseteq> set (reg_bases (virt_flash_fdt vms Sysmem ?sec)) \<union> set (mapped cs)"
      unfolding cs reg_bases_append mapped_append set_append using rf pc(3) rb by blast
  qed
qed

lemma devices_same_board:
  assumes "machvirt_devices E kvm names itsclass evts H vmc fw tag dm mo vms = Inr (vms', cs)"
    and "GIC_FDT_IRQ_TYPE_SPI E \<noteq> GIC_FDT_IRQ_TYPE_PPI E"
  shows "same_board vms' vms"
proof -
  obtain vms1 gic pcie where
    g: "create_gic E (kvm_irqchip_in_kernel kvm) names itsclass (ph_gic H, ph_msi H) (smp_cpus mo) vms = Inr (vms1, gic)"
    and c: "create_pcie E (nics mo) (ph_iommu H)
      (vms1\<lparr>highmem_ecam := highmem_ecam vms1 \<and> highmem vms1 \<and> (\<not> fw \<or> aarch64 mo)\<rparr>) = Inr (vms', pcie)"
    using assms(1) by (auto simp: machvirt_devices_def Let_def)
  show ?thesis using gic_calls(4) [OF g assms(2)] pcie_calls(4) [OF c] by (simp add: same_board_def)
qed

lemma set_shift: "set (map (\<lambda>i. k + i) [0..<n]) = {k ..< k + (n :: nat)}"
  by auto

lemma gic_ppis_distinct: "0 < GIC_INTERNAL E \<Longrightarrow> distinct (gic_ppis E n vms)"
  by (auto simp: gic_ppis_def distinct_map inj_on_def)

lemma gic_ppis_high: "x \<in> set (gic_ppis E n vms) \<Longrightarrow> 256 \<le> x"
  by (auto simp: gic_ppis_def NUM_IRQS_def split: if_splits)

lemma not_distinct_twice: "x \<in> set xs \<Longrightarrow> x \<in> set ys \<Longrightarrow> \<not> distinct (as @ xs @ bs @ ys @ cs)"
  by auto

lemma board_irqs_distinct:
  assumes "0 < GIC_INTERNAL E" "GPEX_NUM_IRQS E \<le> 4"
  shows "distinct (board_irqs E vms n smmu ged sgpio) \<longleftrightarrow> \<not> (gic_version vms = VIRT_GIC_VERSION_2 \<and> smmu)"
proof -
  have d: "distinct (map (\<lambda>i. k + i) [0..<m])" for k m :: nat by (simp add: distinct_map)
  have hi: "\<forall>x \<in> set (gic_ppis E n vms). 256 \<le> x" using gic_ppis_high by blast
  show ?thesis
  proof (cases "gic_version vms = VIRT_GIC_VERSION_2 \<and> smmu")
    case True
    then have "board_irqs E vms n smmu ged sgpio = gic_ppis E n vms @ map (\<lambda>i. 48 + i) [0..<64] @
        ([1, 10] @ (if secure vms then [8] else []) @ [2] @ map (\<lambda>i. 3 + i) [0..<GPEX_NUM_IRQS E]) @ map (\<lambda>i. 74 + i) [0..<4] @
        ([if ged then 9 else 7] @ (if sgpio then [0] else []) @ map (\<lambda>i. 16 + i) [0..<32] @ map (\<lambda>i. 112 + i) [0..<64])"
      unfolding board_irqs_def by (simp only: simp_thms if_True append_assoc)
    moreover have "74 \<in> set (map (\<lambda>i. 48 + i) [0..<64])" "74 \<in> set (map (\<lambda>i. 74 + i) [0..<4])"
      unfolding set_shift by simp_all
    ultimately show ?thesis using True not_distinct_twice by metis
  next
    case False
    then show ?thesis
      using gic_ppis_distinct [OF assms(1), of n vms] hi assms(2)
      by (cases "gic_version vms = VIRT_GIC_VERSION_2"; cases smmu)
        (simp_all add: board_irqs_def set_shift d disjoint_iff del: upt_Suc set_map, fastforce+)
  qed
qed

lemma board_irqs_wired:
  assumes "machvirt_devices E kvm names itsclass evts H vmc fw tag dm mo vms = Inr (vms', cs)"
    and "GIC_FDT_IRQ_TYPE_SPI E \<noteq> GIC_FDT_IRQ_TYPE_PPI E" "irqmap vms = a15irqmap"
    and "0 < GIC_INTERNAL E" "GPEX_NUM_IRQS E \<le> 4"
  shows "set (advertised E cs) \<subseteq> of_nat ` set (wired cs) \<and>
    (distinct (wired cs) \<longleftrightarrow> \<not> (gic_version vms = VIRT_GIC_VERSION_2 \<and> iommu vms = VIRT_IOMMU_SMMUV3 \<and> ph_iommu H \<noteq> 0))"
  by (rule board_calls [OF assms(1-3)]) (simp add: board_irqs_distinct [OF assms(4,5)])

lemma flash_mapped:
  assumes "virt_flash_map vms m1 m2 = Inr fl"
  shows "set (reg_bases (virt_flash_fdt vms m1 m2)) \<subseteq> set (mapped fl)"
  using assms by (auto simp: virt_flash_map_def virt_flash_map1_def virt_flash_fdt_def reg_of_def Let_def split: if_splits)

lemma board_regs_mapped:
  assumes "machvirt_devices E kvm names itsclass evts H vmc fw tag dm mo vms = Inr (vms', cs)"
    and "GIC_FDT_IRQ_TYPE_SPI E \<noteq> GIC_FDT_IRQ_TYPE_PPI E" "irqmap vms = a15irqmap"
    and "virt_flash_map vms Sysmem (if secure vms then Secure_sysmem else Sysmem) = Inr fl"
  shows "set (reg_bases cs) \<subseteq> set (mapped (fl @ cs))"
  by (rule board_calls [OF assms(1-3)]) (use flash_mapped [OF assms(4)] in auto)

section \<open>A board with the default options\<close>

definition sample_vms :: VirtMachineState where
  "sample_vms = (virt_instance_init (''BOCHS '', ''BXPC    '') virt_class_defaults)
     \<lparr>gic_version := VIRT_GIC_VERSION_2, vmap := base_memmap real_env, clock_phandle := 1, vms_highest_gpa := 2 ^ 40 - 1\<rparr>"

definition sample_opts :: machine_opts where
  "sample_opts = \<lparr>ram_size = 2 * GiB, maxram_size = 2 * GiB, ram_slots = 0, smp_cpus = 2, max_cpus = 2,
     cpu_type = ''cortex-a15'', hvf_enabled = False, aarch64 = False, cpu_v8 = False, cpu_pmu = False, cpu_pmu_feature = False,
     cpu_steal_time = False, cpu_pamax = 40, nvdimm = False, nics = []\<rparr>"

definition sample_kvm :: kvm_host where
  "sample_kvm = \<lparr>kvm_enabled = False, kvm_irqchip_in_kernel = False, probe_v2 = False, probe_v3 = False\<rparr>"

definition sample_handles :: handles where
  "sample_handles = \<lparr>ph_gic = 2, ph_msi = 3, ph_iommu = 4, ph_gpio = 5, ph_secure_gpio = 6\<rparr>"

lemma sample_vms_simps [simp]:
  "gic_version sample_vms = VIRT_GIC_VERSION_2" "irqmap sample_vms = a15irqmap" "iommu sample_vms = VIRT_IOMMU_NONE"
  "secure sample_vms = False" "vmap sample_vms = base_memmap real_env"
  by (simp_all add: sample_vms_def virt_instance_init_def)

lemma sample_board:
  obtains vms' cs where "machvirt_devices real_env sample_kvm (''arm_gic'', ''arm-gicv3'') None (1, 2, 16) sample_handles
    virt_class_defaults False False None sample_opts sample_vms = Inr (vms', cs)"
proof -
  obtain vms1 gic where g: "create_gic real_env False (''arm_gic'', ''arm-gicv3'') None
      (ph_gic sample_handles, ph_msi sample_handles) (smp_cpus sample_opts) sample_vms = Inr (vms1, gic)"
    by (simp add: create_gic_def gic_props_def gic_maps_def fdt_add_gic_node_def create_v2m_def fdt_add_v2m_gic_node_def Let_def)
  then have "iommu vms1 = VIRT_IOMMU_NONE" using gic_calls(4) [OF g] by (simp add: same_board_def real_env_def)
  then obtain vms3 pcie where c: "create_pcie real_env (nics sample_opts) (ph_iommu sample_handles)
      (vms1\<lparr>highmem_ecam := highmem_ecam vms1 \<and> highmem vms1 \<and> (\<not> False \<or> aarch64 sample_opts)\<rparr>) = Inr (vms3, pcie)"
    by (simp add: create_pcie_def Let_def)
  have k: "kvm_irqchip_in_kernel sample_kvm = False" "kvm_enabled sample_kvm = False" "aarch64 sample_opts = False"
    by (simp_all add: sample_kvm_def sample_opts_def)
  have p: "virt_cpu_post_init real_env sample_kvm (False, x, y) a b m v = Inr []" for x y a b m v
    by (simp add: virt_cpu_post_init_def k)
  have u: "fdt_add_pmu_nodes real_env (cpu_pmu_feature sample_opts) (cpu_pmu sample_opts) v n vms = Inr []" for v n vms
    by (simp add: fdt_add_pmu_nodes_def sample_opts_def)
  show ?thesis
    by (rule that) (simp only: machvirt_devices_def Let_def k(1,3) g as_qemu_Inr(2) rbind.simps prod.case p u c [unfolded k(3)])
qed

section \<open>Redistributors\<close>

fun redist_counts :: "call list \<Rightarrow> nat list" where
  "redist_counts [] = []"
| "redist_counts (Dev_prop g p x # cs) =
     (if p = ''redist-region-count[0]'' \<or> p = ''redist-region-count[1]'' then [x] else []) @ redist_counts cs"
| "redist_counts (c # cs) = redist_counts cs"

lemma redist_counts_append [simp]: "redist_counts (xs @ ys) = redist_counts xs @ redist_counts ys"
  by (induction xs rule: redist_counts.induct) simp_all

text \<open>
  C34: With a version 3 controller, a number of CPUs that passes the start-up check gets exactly that many
  redistributors over the one or two regions, and each region has room for its share.
\<close>

theorem gic_redistributors:
  assumes start: "machvirt_checks E kvm suffix early fw mo vms0 = Inr (vms, rest)"
    and v3: "gic_version vms = VIRT_GIC_VERSION_3" and n: "n \<le> max_cpus mo"
    and props: "gic_props E k g n vms = Inr cs"
  shows "sum_list (redist_counts cs) = n \<and>
    list_all2 (\<le>) (redist_counts cs) (take (length (redist_counts cs))
      [redist_capacity E (vmap vms VIRT_GIC_REDIST), redist_capacity E (vmap vms VIRT_HIGH_GIC_REDIST2)])"
proof (cases "redist_capacity E (vmap vms VIRT_GIC_REDIST) < n")
  case True
  have "max_cpus mo \<le> virt_max_cpus E vms"
    using start by (auto simp: machvirt_checks_def Let_def split: if_splits)
  then have n: "n \<le> virt_max_cpus E vms" using n by simp
  with True v3 props have "redist_counts cs = [redist_capacity E (vmap vms VIRT_GIC_REDIST),
      min (n - redist_capacity E (vmap vms VIRT_GIC_REDIST)) (redist_capacity E (vmap vms VIRT_HIGH_GIC_REDIST2))]"
    by (auto simp: gic_props_def virt_gicv3_redist_region_count_def Let_def)
  then show ?thesis using n v3 True by (simp add: virt_max_cpus_def)
next
  case False
  with v3 props have "redist_counts cs = [n]"
    by (auto simp: gic_props_def virt_gicv3_redist_region_count_def Let_def)
  then show ?thesis using False by simp
qed

lemma sample_start:
  defines "m \<equiv> (base_memmap real_env)(VIRT_HIGH_GIC_REDIST2 := \<lparr>base = 2 ^ 38, msize = 64 * MiB\<rparr>)"
  shows "machvirt_checks real_env sample_kvm ''-arm-cpu'' (Some \<lparr>memmap = m, highest_gpa = 2 ^ 40 - 1, device_memory = None\<rparr>) (\<lambda>_. Inr (False, []))
      (sample_opts\<lparr>cpu_type := ''max-arm-cpu'', max_cpus := 200\<rparr>) (sample_vms\<lparr>gic_version := VIRT_GIC_VERSION_MAX\<rparr>) =
    Inr (sample_vms\<lparr>gic_version := VIRT_GIC_VERSION_3, vmap := m, vms_highest_gpa := 2 ^ 40 - 1\<rparr>, PSCI_HVC, False, [], None)"
proof -
  have cap: "redist_capacity real_env (m VIRT_GIC_REDIST) = 123" "redist_capacity real_env (m VIRT_HIGH_GIC_REDIST2) = 512"
    by (simp_all add: redist_capacity_def real_env_def MiB_def m_def)
  have off: "virt sample_vms = False" "mte sample_vms = False" "hvf_enabled sample_opts = False" "kvm_enabled sample_kvm = False"
    by (simp_all add: sample_vms_def virt_instance_init_def sample_opts_def sample_kvm_def)
  have "cpu_type_valid ''-arm-cpu'' ''max-arm-cpu''" by (simp add: cpu_type_valid_def valid_cpus_def)
  then show ?thesis using off cap by (simp add: machvirt_checks_def finalize_gic_version_def virt_max_cpus_def Let_def)
qed

theorem gic_redistributors_witness:
  "\<exists>vms cs. gic_props real_env False ''arm-gicv3'' 200 vms = Inr cs \<and> sum_list (redist_counts cs) = 200"
proof -
  let ?vms = "sample_vms\<lparr>gic_version := VIRT_GIC_VERSION_3,
    vmap := (base_memmap real_env)(VIRT_HIGH_GIC_REDIST2 := \<lparr>base = 2 ^ 38, msize = 64 * MiB\<rparr>), vms_highest_gpa := 2 ^ 40 - 1\<rparr>"
  obtain cs where cs: "gic_props real_env False ''arm-gicv3'' 200 ?vms = Inr cs"
    by (simp add: gic_props_def virt_gicv3_redist_region_count_def Let_def)
  from gic_redistributors [OF sample_start _ _ cs] cs show ?thesis by auto
qed

end
