(* ===== verification/Virt_Cpus.thy ===== *)
theory Virt_Cpus
  imports Virt_Board
begin

unbundle bit_operations_syntax

text \<open>
  The CPUs of the board: their affinity numbers, the list of possible CPUs, the loop of \<^verbatim>\<open>machvirt_init\<close> that
  creates and starts them, and the root, CPU and topology nodes of the device tree (\<^verbatim>\<open>create_fdt\<close> and
  \<^verbatim>\<open>fdt_add_cpu_nodes\<close>).
\<close>

section \<open>Affinity\<close>

text \<open>From the headers of the ARM target: cluster sizes, the mask of the third affinity field and the numbering of CPUs.\<close>

record arm_env =
  ARM_DEFAULT_CPUS_PER_CLUSTER :: u8
  GICV3_TARGETLIST_BITS :: u8
  GIC_TARGETLIST_BITS :: u8
  ARM_AFF3_MASK :: u64
  arm_cpu_mp_affinity :: "nat \<Rightarrow> u8 \<Rightarrow> u64"

definition virt_cpu_mp_affinity :: "arm_env \<Rightarrow> VirtMachineClass \<Rightarrow> VirtMachineState \<Rightarrow> nat \<Rightarrow> u64" where
  "virt_cpu_mp_affinity A vmc vms idx =
     (let clustersz = (if \<not> disallow_affinity_adjustment vmc then
            (if gic_version vms = VIRT_GIC_VERSION_3 then GICV3_TARGETLIST_BITS A else GIC_TARGETLIST_BITS A)
          else ARM_DEFAULT_CPUS_PER_CLUSTER A)
      in arm_cpu_mp_affinity A idx clustersz)"

record CPUArchId =
  ca_type :: string
  arch_id :: u64
  thread_id :: "nat option"
  node_id :: "nat option"

text \<open>
  \<open>cached\<close> is the list of an earlier call, which the NUMA configuration may have completed with node numbers.
\<close>

definition virt_possible_cpu_arch_ids ::
  "arm_env \<Rightarrow> VirtMachineClass \<Rightarrow> string \<Rightarrow> nat \<Rightarrow> VirtMachineState \<Rightarrow> CPUArchId list option \<Rightarrow> CPUArchId list result" where
  "virt_possible_cpu_arch_ids A vmc ctype maxc vms cached =
     (case cached of
        Some l \<Rightarrow> if length l = maxc then Inr l else Inl KernelBug
      | None \<Rightarrow> Inr (map (\<lambda>n. \<lparr>ca_type = ctype, arch_id = virt_cpu_mp_affinity A vmc vms n, thread_id = Some n, node_id = None\<rparr>)
          [0..<maxc]))"

definition virt_cpu_index_to_props ::
  "arm_env \<Rightarrow> VirtMachineClass \<Rightarrow> string \<Rightarrow> nat \<Rightarrow> VirtMachineState \<Rightarrow> CPUArchId list option \<Rightarrow> nat \<Rightarrow>
    (nat option \<times> nat option) result" where
  "virt_cpu_index_to_props A vmc ctype maxc vms cached cpu_index =
     rbind (virt_possible_cpu_arch_ids A vmc ctype maxc vms cached) (\<lambda>l.
       if cpu_index < length l then Inr (thread_id (l ! cpu_index), node_id (l ! cpu_index)) else Inl KernelBug)"

definition virt_get_default_cpu_node_id :: "nat \<Rightarrow> nat \<Rightarrow> nat result" where
  "virt_get_default_cpu_node_id num_nodes idx = (if num_nodes = 0 then Inl DivideByZero else Inr (idx mod num_nodes))"

section \<open>Creating the CPUs\<close>

text \<open>
  What the CPU objects answer, by index: which properties they have, whether they are 64-bit, and the errors of
  \<^verbatim>\<open>numa_cpu_pre_plug\<close> and \<^verbatim>\<open>qdev_realize\<close>, which end QEMU.
\<close>

record cpu_objects =
  has_prop :: "nat \<Rightarrow> string \<Rightarrow> bool"
  is_aarch64 :: "nat \<Rightarrow> bool"
  pre_plug_error :: "nat \<Rightarrow> string option"
  realize_error :: "nat \<Rightarrow> string option"

fun psci_value :: "psci \<Rightarrow> nat" where
  "psci_value PSCI_DISABLED = 0"
| "psci_value PSCI_SMC = 1"
| "psci_value PSCI_HVC = 2"

definition fatal :: "string option \<Rightarrow> unit qemu" where
  "fatal e = (case e of None \<Rightarrow> Inr () | Some m \<Rightarrow> Inl m)"

text \<open>A link with \<^verbatim>\<open>error_abort\<close>: a missing property ends QEMU.\<close>

definition cpu_link :: "cpu_objects \<Rightarrow> nat \<Rightarrow> string \<Rightarrow> mspace \<Rightarrow> call list qemu" where
  "cpu_link C n name sp = (if has_prop C n name then Inr [Cpu_link n name sp] else Inl (''Property not found: '' @ name))"

text \<open>The properties set between the creation of the object and the memory links.\<close>

definition cpu_props ::
  "VirtMachineClass \<Rightarrow> psci \<Rightarrow> cpu_objects \<Rightarrow> VirtMachineState \<Rightarrow> nat \<Rightarrow> call list" where
  "cpu_props vmc conduit C vms n =
     (if \<not> secure vms then [Cpu_bool n ''has_el3'' False] else []) @
     (if \<not> virt vms \<and> has_prop C n ''has_el2'' then [Cpu_bool n ''has_el2'' False] else []) @
     (if conduit \<noteq> PSCI_DISABLED then
        [Cpu_int n ''psci-conduit'' (psci_value conduit)] @ (if 0 < n then [Cpu_bool n ''start-powered-off'' True] else [])
      else []) @
     (if kvm_no_adjvtime vmc \<and> has_prop C n ''kvm-no-adjvtime'' then [Cpu_bool n ''kvm-no-adjvtime'' True] else []) @
     (if no_kvm_steal_time vmc \<and> has_prop C n ''kvm-steal-time'' then [Cpu_bool n ''kvm-steal-time'' False] else []) @
     (if no_pmu vmc \<and> has_prop C n ''pmu'' then [Cpu_bool n ''pmu'' False] else []) @
     (if has_prop C n ''reset-cbar'' then [Cpu_int n ''reset-cbar'' (unat (base (vmap vms VIRT_CPUPERIPHS)))] else [])"

text \<open>
  The tag memory: its address spaces are created for the first CPU (\<open>tag\<close> tells whether that has happened) and every
  CPU is linked to them.
\<close>

definition cpu_tag_memory :: "cpu_objects \<Rightarrow> VirtMachineState \<Rightarrow> bool \<Rightarrow> nat \<Rightarrow> (bool \<times> call list) qemu" where
  "cpu_tag_memory C vms tag n =
     (if \<not> mte vms then Inr (tag, [])
      else
        rbind (if tag then Inr []
          else if \<not> has_prop C n ''tag-memory'' then Inl ''MTE requested, but not supported by the guest CPU''
          else Inr ([Region_init Tag_sysmem (- 1 div 32)] @
            (if secure vms then [Region_init Secure_tag_sysmem (- 1 div 32), Region_under Secure_tag_sysmem Tag_sysmem] else [])))
        (\<lambda>init. rbind (cpu_link C n ''tag-memory'' Tag_sysmem) (\<lambda>l1.
          rbind (if secure vms then cpu_link C n ''secure-tag-memory'' Secure_tag_sysmem else Inr []) (\<lambda>l2.
            Inr (True, init @ l1 @ l2)))))"

definition create_cpu ::
  "VirtMachineClass \<Rightarrow> psci \<Rightarrow> cpu_objects \<Rightarrow> VirtMachineState \<Rightarrow> CPUArchId list \<Rightarrow> nat \<Rightarrow> bool \<times> bool \<Rightarrow>
    ((bool \<times> bool) \<times> call list) qemu" where
  "create_cpu vmc conduit C vms possible n st =
     (case st of (a64, tag) \<Rightarrow>
      rbind (fatal (pre_plug_error C n)) (\<lambda>_.
      rbind (cpu_link C n ''memory'' Sysmem) (\<lambda>mem.
      rbind (if secure vms then cpu_link C n ''secure-memory'' Secure_sysmem else Inr []) (\<lambda>smem.
      rbind (cpu_tag_memory C vms tag n) (\<lambda>(tag', tagmem).
      rbind (fatal (realize_error C n)) (\<lambda>_.
        Inr ((a64 \<and> is_aarch64 C n, tag'),
          [Cpu_new n (ca_type (possible ! n)), Cpu_int n ''mp-affinity'' (unat (arch_id (possible ! n)))] @
          cpu_props vmc conduit C vms n @ mem @ smem @ tagmem @ [Cpu_realize n])))))))"

fun create_cpus_from ::
  "VirtMachineClass \<Rightarrow> psci \<Rightarrow> cpu_objects \<Rightarrow> VirtMachineState \<Rightarrow> CPUArchId list \<Rightarrow> nat list \<Rightarrow> bool \<times> bool \<Rightarrow>
    ((bool \<times> bool) \<times> call list) qemu" where
  "create_cpus_from vmc conduit C vms possible [] st = Inr (st, [])"
| "create_cpus_from vmc conduit C vms possible (n # ns) st =
     rbind (create_cpu vmc conduit C vms possible n st) (\<lambda>(st1, cs).
       rbind (create_cpus_from vmc conduit C vms possible ns st1) (\<lambda>(st2, ds). Inr (st2, cs @ ds)))"

text \<open>The loop ends at the number of CPUs present at the start.\<close>

definition create_cpus ::
  "VirtMachineClass \<Rightarrow> psci \<Rightarrow> cpu_objects \<Rightarrow> VirtMachineState \<Rightarrow> CPUArchId list \<Rightarrow> nat \<Rightarrow> ((bool \<times> bool) \<times> call list) qemu" where
  "create_cpus vmc conduit C vms possible ncpus =
     create_cpus_from vmc conduit C vms possible [0..<min (length possible) ncpus] (True, False)"

section \<open>Device tree\<close>

text \<open>\<open>seed\<close> is the random number, unless getting one failed.\<close>

definition create_kaslr_seed :: "u64 option \<Rightarrow> string \<Rightarrow> call list" where
  "create_kaslr_seed seed node = (case seed of None \<Rightarrow> [] | Some x \<Rightarrow> [Setprop node ''kaslr-seed'' (Fdt_sized [(2, x)])])"

record numa_state =
  num_nodes :: nat
  have_numa_distance :: bool
  numa_distance :: "nat \<Rightarrow> nat \<Rightarrow> u8"

text \<open>The writes of the two nested loops into the zeroed array.\<close>

definition matrix_write :: "qemu_env \<Rightarrow> numa_state \<Rightarrow> nat \<times> nat \<Rightarrow> u32 list \<Rightarrow> u32 list" where
  "matrix_write E N ij m =
     (case ij of (i, j) \<Rightarrow> let idx = (i * num_nodes N + j) * 3 in
      m[idx := cpu_to_be32 E (of_nat i), idx + 1 := cpu_to_be32 E (of_nat j),
        idx + 2 := cpu_to_be32 E (ucast (numa_distance N i j))])"

definition distance_matrix :: "qemu_env \<Rightarrow> numa_state \<Rightarrow> u32 list" where
  "distance_matrix E N =
     fold (matrix_write E N) (List.product [0..<num_nodes N] [0..<num_nodes N]) (replicate (num_nodes N * num_nodes N * 3) 0)"

definition create_fdt ::
  "qemu_env \<Rightarrow> bool \<Rightarrow> u64 option \<times> u64 option \<Rightarrow> u32 \<Rightarrow> numa_state \<Rightarrow> VirtMachineState \<Rightarrow> (VirtMachineState \<times> call list) qemu" where
  "create_fdt E tree_ok seeds ph N vms =
     (if \<not> tree_ok then Inl ''create_device_tree() failed''
      else Inr (vms\<lparr>clock_phandle := ph\<rparr>,
        [Setprop ''/'' ''compatible'' (Fdt_string ''linux,dummy-virt''), Setprop ''/'' ''#address-cells'' (Fdt_cells [2]),
         Setprop ''/'' ''#size-cells'' (Fdt_cells [2]), Add_subnode ''/chosen''] @ create_kaslr_seed (fst seeds) ''/chosen'' @
        (if secure vms then [Add_subnode ''/secure-chosen''] @ create_kaslr_seed (snd seeds) ''/secure-chosen'' else []) @
        [Add_subnode ''/apb-pclk'', Setprop ''/apb-pclk'' ''compatible'' (Fdt_string ''fixed-clock''),
         Setprop ''/apb-pclk'' ''#clock-cells'' (Fdt_cells [0]), Setprop ''/apb-pclk'' ''clock-frequency'' (Fdt_cells [24000000]),
         Setprop ''/apb-pclk'' ''clock-output-names'' (Fdt_string ''clk24mhz''), Setprop ''/apb-pclk'' ''phandle'' (Fdt_cells [ph])] @
        (if 0 < num_nodes N \<and> have_numa_distance N then
           [Add_subnode ''/distance-map'', Setprop ''/distance-map'' ''compatible'' (Fdt_string ''numa-distance-map-v1''),
            Setprop ''/distance-map'' ''distance-matrix'' (Fdt_raw (distance_matrix E N))]
         else [])))"

text \<open>A started CPU, the thread layout of the command line, and the handle allocated for each CPU node.\<close>

record arm_cpu =
  mp_affinity :: u64
  dtb_compatible :: string

definition cpu_node :: "nat \<Rightarrow> string" where
  "cpu_node cpu = ''/cpus/cpu@'' @ decimal cpu"

definition map_node :: "nat \<Rightarrow> nat \<Rightarrow> nat \<Rightarrow> string" where
  "map_node cores threads cpu =
     (if threads > 1 then
        ''/cpus/cpu-map/socket'' @ decimal (cpu div (cores * threads)) @ ''/cluster0/core'' @ decimal (cpu div threads mod cores) @
        ''/thread'' @ decimal (cpu mod threads)
      else ''/cpus/cpu-map/socket'' @ decimal (cpu div cores) @ ''/cluster0/core'' @ decimal (cpu mod cores))"

definition cpu_addr_cells :: "arm_env \<Rightarrow> (nat \<Rightarrow> arm_cpu) \<Rightarrow> nat \<Rightarrow> nat" where
  "cpu_addr_cells A cpus ncpus = (if list_ex (\<lambda>c. mp_affinity (cpus c) AND ARM_AFF3_MASK A \<noteq> 0) [0..<ncpus] then 2 else 1)"

definition cpu_node_calls ::
  "VirtMachineClass \<Rightarrow> psci \<Rightarrow> nat \<Rightarrow> nat \<Rightarrow> (nat \<Rightarrow> arm_cpu) \<Rightarrow> CPUArchId list \<Rightarrow> (nat \<Rightarrow> u32) \<Rightarrow> nat \<Rightarrow> call list" where
  "cpu_node_calls vmc conduit addr_cells ncpus cpus possible ph cpu =
     (let node = cpu_node cpu in
      [Add_subnode node, Setprop node ''device_type'' (Fdt_string ''cpu''),
       Setprop node ''compatible'' (Fdt_string (dtb_compatible (cpus cpu)))] @
      (if conduit \<noteq> PSCI_DISABLED \<and> ncpus > 1 then [Setprop node ''enable-method'' (Fdt_string ''psci'')] else []) @
      [Setprop node ''reg'' (if addr_cells = 2 then Fdt_sized [(2, mp_affinity (cpus cpu))]
         else Fdt_cells [ucast (mp_affinity (cpus cpu))])] @
      (case node_id (possible ! cpu) of None \<Rightarrow> [] | Some i \<Rightarrow> [Setprop node ''numa-node-id'' (Fdt_cells [of_nat i])]) @
      (if \<not> no_cpu_topology vmc then [Setprop node ''phandle'' (Fdt_cells [ph cpu])] else []))"

definition fdt_add_cpu_nodes ::
  "arm_env \<Rightarrow> VirtMachineClass \<Rightarrow> psci \<Rightarrow> nat \<times> nat \<Rightarrow> nat \<Rightarrow> (nat \<Rightarrow> arm_cpu) \<Rightarrow> CPUArchId list \<Rightarrow> (nat \<Rightarrow> u32) \<Rightarrow>
    call list result" where
  "fdt_add_cpu_nodes A vmc conduit smp ncpus cpus possible ph =
     (case smp of (cores, threads) \<Rightarrow>
      let addr_cells = cpu_addr_cells A cpus ncpus in
      if length possible < ncpus then Inl OutOfBounds
      else if \<not> no_cpu_topology vmc \<and> cores = 0 \<and> 0 < ncpus then Inl DivideByZero
      else Inr ([Add_subnode ''/cpus'', Setprop ''/cpus'' ''#address-cells'' (Fdt_cells [of_nat addr_cells]),
          Setprop ''/cpus'' ''#size-cells'' (Fdt_cells [0])] @
        concat (map (cpu_node_calls vmc conduit addr_cells ncpus cpus possible ph) (rev [0..<ncpus])) @
        (if \<not> no_cpu_topology vmc then
           [Add_subnode ''/cpus/cpu-map''] @
           concat (map (\<lambda>cpu. [Add_path (map_node cores threads cpu),
             Setprop_phandle (map_node cores threads cpu) ''cpu'' (cpu_node cpu)]) (rev [0..<ncpus]))
         else [])))"

section \<open>Distinct affinities\<close>

text \<open>CPUs are numbered in clusters of a given size.\<close>

definition affinity_law :: "arm_env \<Rightarrow> bool" where
  "affinity_law A \<longleftrightarrow> 0 < ARM_DEFAULT_CPUS_PER_CLUSTER A \<and> 0 < GICV3_TARGETLIST_BITS A \<and> 0 < GIC_TARGETLIST_BITS A \<and>
     (\<forall>idx sz. 0 < sz \<and> idx < 2 ^ 24 \<longrightarrow>
       unat (arm_cpu_mp_affinity A idx sz) = idx div unat sz * 256 + idx mod unat sz)"

lemma affinity_inject:
  assumes "affinity_law A" "a < 2 ^ 24" "b < 2 ^ 24" "virt_cpu_mp_affinity A vmc vms a = virt_cpu_mp_affinity A vmc vms b"
  shows "a = b"
proof -
  define sz where "sz = (if \<not> disallow_affinity_adjustment vmc then
    (if gic_version vms = VIRT_GIC_VERSION_3 then GICV3_TARGETLIST_BITS A else GIC_TARGETLIST_BITS A)
    else ARM_DEFAULT_CPUS_PER_CLUSTER A)"
  have sz: "0 < sz" "\<And>i. virt_cpu_mp_affinity A vmc vms i = arm_cpu_mp_affinity A i sz"
    using assms(1) by (simp_all add: virt_cpu_mp_affinity_def affinity_law_def Let_def sz_def)
  have le: "i mod unat sz < 256" for i
    using sz(1) unat_bounds(1) [of sz] by (metis less_trans mod_less_divisor unat_gt_0 word_gt_0)
  have "a div unat sz * 256 + a mod unat sz = b div unat sz * 256 + b mod unat sz"
    using assms sz unfolding affinity_law_def by metis
  then have "a div unat sz = b div unat sz \<and> a mod unat sz = b mod unat sz"
    by (rule two_digits [OF _ le le])
  then show ?thesis by (metis div_mult_mod_eq)
qed

lemma possible_cpus_distinct:
  assumes "affinity_law A" "maxc \<le> 2 ^ 24" "virt_possible_cpu_arch_ids A vmc ctype maxc vms None = Inr l"
  shows "length l = maxc \<and> distinct (map arch_id l)"
  using assms affinity_inject [OF assms(1)]
  by (auto simp: virt_possible_cpu_arch_ids_def distinct_map inj_on_def comp_def)

section \<open>Starting the CPUs\<close>

fun realized :: "call list \<Rightarrow> nat list" where
  "realized [] = []"
| "realized (Cpu_realize n # cs) = n # realized cs"
| "realized (c # cs) = realized cs"

fun cpu_flags :: "string \<Rightarrow> call list \<Rightarrow> (nat \<times> bool) list" where
  "cpu_flags p [] = []"
| "cpu_flags p (Cpu_bool n q b # cs) = (if q = p then [(n, b)] else []) @ cpu_flags p cs"
| "cpu_flags p (c # cs) = cpu_flags p cs"

fun cpu_ints :: "string \<Rightarrow> call list \<Rightarrow> (nat \<times> nat) list" where
  "cpu_ints p [] = []"
| "cpu_ints p (Cpu_int n q x # cs) = (if q = p then [(n, x)] else []) @ cpu_ints p cs"
| "cpu_ints p (c # cs) = cpu_ints p cs"

fun cpu_links :: "string \<Rightarrow> call list \<Rightarrow> (nat \<times> mspace) list" where
  "cpu_links p [] = []"
| "cpu_links p (Cpu_link n q s # cs) = (if q = p then [(n, s)] else []) @ cpu_links p cs"
| "cpu_links p (c # cs) = cpu_links p cs"

fun new_regions :: "call list \<Rightarrow> mspace list" where
  "new_regions [] = []"
| "new_regions (Region_init s z # cs) = s # new_regions cs"
| "new_regions (c # cs) = new_regions cs"

lemma realized_append [simp]: "realized (xs @ ys) = realized xs @ realized ys"
  by (induction xs rule: realized.induct) simp_all

lemma cpu_flags_append [simp]: "cpu_flags p (xs @ ys) = cpu_flags p xs @ cpu_flags p ys"
  by (induction p xs rule: cpu_flags.induct) simp_all

lemma cpu_ints_append [simp]: "cpu_ints p (xs @ ys) = cpu_ints p xs @ cpu_ints p ys"
  by (induction p xs rule: cpu_ints.induct) simp_all

lemma cpu_links_append [simp]: "cpu_links p (xs @ ys) = cpu_links p xs @ cpu_links p ys"
  by (induction p xs rule: cpu_links.induct) simp_all

lemma new_regions_append [simp]: "new_regions (xs @ ys) = new_regions xs @ new_regions ys"
  by (induction xs rule: new_regions.induct) simp_all

definition cpu_ok :: "cpu_objects \<Rightarrow> VirtMachineState \<Rightarrow> nat \<Rightarrow> bool" where
  "cpu_ok C vms n \<longleftrightarrow> pre_plug_error C n = None \<and> realize_error C n = None \<and> has_prop C n ''memory'' \<and>
     (secure vms \<longrightarrow> has_prop C n ''secure-memory'') \<and>
     (mte vms \<longrightarrow> has_prop C n ''tag-memory'' \<and> (secure vms \<longrightarrow> has_prop C n ''secure-tag-memory''))"

text \<open>One round: it succeeds exactly for a CPU that offers what the options need, and makes these calls.\<close>

definition tag_calls :: "VirtMachineState \<Rightarrow> bool \<Rightarrow> nat \<Rightarrow> call list" where
  "tag_calls vms tag n = (if \<not> mte vms then [] else
     (if tag then [] else [Region_init Tag_sysmem (- 1 div 32)] @
       (if secure vms then [Region_init Secure_tag_sysmem (- 1 div 32), Region_under Secure_tag_sysmem Tag_sysmem] else [])) @
     [Cpu_link n ''tag-memory'' Tag_sysmem] @
     (if secure vms then [Cpu_link n ''secure-tag-memory'' Secure_tag_sysmem] else []))"

definition cpu_calls :: "VirtMachineClass \<Rightarrow> psci \<Rightarrow> cpu_objects \<Rightarrow> VirtMachineState \<Rightarrow> CPUArchId list \<Rightarrow> bool \<Rightarrow> nat \<Rightarrow> call list" where
  "cpu_calls vmc conduit C vms possible tag n =
     [Cpu_new n (ca_type (possible ! n)), Cpu_int n ''mp-affinity'' (unat (arch_id (possible ! n)))] @
     cpu_props vmc conduit C vms n @ [Cpu_link n ''memory'' Sysmem] @
     (if secure vms then [Cpu_link n ''secure-memory'' Secure_sysmem] else []) @ tag_calls vms tag n @ [Cpu_realize n]"

lemma create_cpu_eq:
  "create_cpu vmc conduit C vms possible n (a, tag) = Inr r \<longleftrightarrow>
    cpu_ok C vms n \<and> r = ((a \<and> is_aarch64 C n, tag \<or> mte vms), cpu_calls vmc conduit C vms possible tag n)"
  by (cases "secure vms"; cases "mte vms"; cases tag)
    (auto simp: create_cpu_def cpu_link_def cpu_tag_memory_def fatal_def cpu_ok_def cpu_calls_def tag_calls_def
      split: option.splits)

lemma create_cpus_from_eq:
  "create_cpus_from vmc conduit C vms possible ns (a, tag) = Inr r \<longleftrightarrow>
    (\<forall>n\<in>set ns. cpu_ok C vms n) \<and>
    r = ((a \<and> (\<forall>n\<in>set ns. is_aarch64 C n), tag \<or> mte vms \<and> ns \<noteq> []),
      (case ns of [] \<Rightarrow> [] | m # ms \<Rightarrow> cpu_calls vmc conduit C vms possible tag m @
         concat (map (cpu_calls vmc conduit C vms possible (tag \<or> mte vms)) ms)))"
proof (induction ns arbitrary: a tag r)
  case (Cons n ns)
  have "create_cpus_from vmc conduit C vms possible (n # ns) (a, tag) = Inr r \<longleftrightarrow>
      cpu_ok C vms n \<and> (\<exists>st ds. create_cpus_from vmc conduit C vms possible ns (a \<and> is_aarch64 C n, tag \<or> mte vms) = Inr (st, ds) \<and>
        r = (st, cpu_calls vmc conduit C vms possible tag n @ ds))"
    by (auto simp: create_cpu_eq split: prod.splits)
  then show ?case
    unfolding Cons.IH by (cases ns) (auto simp del: create_cpus_from.simps)
qed auto


lemmas read_if = if_distrib [of realized] if_distrib [of "cpu_ints p" for p] if_distrib [of "cpu_flags p" for p]
  if_distrib [of "cpu_links p" for p] if_distrib [of new_regions]

lemma cpu_calls_reads:
  "realized (cpu_calls vmc conduit C vms possible tag n) = [n]"
  "cpu_ints ''mp-affinity'' (cpu_calls vmc conduit C vms possible tag n) = [(n, unat (arch_id (possible ! n)))]"
  "cpu_flags ''start-powered-off'' (cpu_calls vmc conduit C vms possible tag n) =
    (if conduit = PSCI_DISABLED \<or> n = 0 then [] else [(n, True)])"
  "cpu_links ''tag-memory'' (cpu_calls vmc conduit C vms possible tag n) = (if mte vms then [(n, Tag_sysmem)] else [])"
  "new_regions (cpu_calls vmc conduit C vms possible tag n) =
    (if mte vms \<and> \<not> tag then Tag_sysmem # (if secure vms then [Secure_tag_sysmem] else []) else [])"
  by (simp_all add: cpu_calls_def cpu_props_def tag_calls_def read_if cong: if_cong split del: if_split) simp_all

lemma cpu_reads_concat:
  "realized (concat css) = concat (map realized css)" "cpu_ints p (concat css) = concat (map (cpu_ints p) css)"
  "cpu_flags p (concat css) = concat (map (cpu_flags p) css)" "cpu_links p (concat css) = concat (map (cpu_links p) css)"
  "new_regions (concat css) = concat (map new_regions css)"
  by (induction css) simp_all

definition all_cpu_calls ::
  "VirtMachineClass \<Rightarrow> psci \<Rightarrow> cpu_objects \<Rightarrow> VirtMachineState \<Rightarrow> CPUArchId list \<Rightarrow> nat \<Rightarrow> call list" where
  "all_cpu_calls vmc conduit C vms possible n = (if n = 0 then [] else cpu_calls vmc conduit C vms possible False 0 @
     concat (map (cpu_calls vmc conduit C vms possible (mte vms)) [1..<n]))"

lemma create_cpus_eq:
  assumes "n \<le> length possible"
  shows "create_cpus vmc conduit C vms possible n = Inr r \<longleftrightarrow> (\<forall>c<n. cpu_ok C vms c) \<and>
    r = (((\<forall>c<n. is_aarch64 C c), mte vms \<and> 0 < n), all_cpu_calls vmc conduit C vms possible n)"
proof -
  have all: "(\<forall>c<Suc k. P c) \<longleftrightarrow> P 0 \<and> (\<forall>c\<in>{Suc 0..<Suc k}. P c)" for P and k :: nat
    by (metis Suc_leI atLeastLessThan_iff gr0I zero_less_Suc)
  show ?thesis
    unfolding create_cpus_def create_cpus_from_eq all_cpu_calls_def using assms
    by (cases n) (simp_all add: upt_conv_Cons min_absorb2 all del: upt_Suc)
qed

lemma create_cpus_reads:
  fixes vmc conduit C vms possible n
  defines "cs \<equiv> all_cpu_calls vmc conduit C vms possible n"
  shows "realized cs = [0..<n]"
    "cpu_ints ''mp-affinity'' cs = map (\<lambda>c. (c, unat (arch_id (possible ! c)))) [0..<n]"
    "cpu_flags ''start-powered-off'' cs = (if conduit = PSCI_DISABLED then [] else map (\<lambda>c. (c, True)) [1..<n])"
    "cpu_links ''tag-memory'' cs = (if mte vms then map (\<lambda>c. (c, Tag_sysmem)) [0..<n] else [])"
    "new_regions cs = (if mte vms \<and> 0 < n then Tag_sysmem # (if secure vms then [Secure_tag_sysmem] else []) else [])"
proof -
  have up: "[0..<n] = 0 # [1..<n]" if "0 < n" using that by (simp add: upt_conv_Cons)
  have nz: "concat (map (\<lambda>c. if P \<or> c = 0 then [] else [(c, True)]) [1..<n]) = (if P then [] else map (\<lambda>c. (c, True)) [1..<n])" for P
  proof -
    have "map (\<lambda>c. if P \<or> c = 0 then [] else [(c, True)]) [1..<n] = map (\<lambda>c. if P then [] else [(c, True)]) [1..<n]"
      by (rule map_cong) auto
    then show ?thesis by (cases P) (simp_all only: simp_thms if_True if_False concat_map_singleton, simp)
  qed
  note reads = cpu_reads_concat comp_def cpu_calls_reads concat_map_singleton
  show "realized cs = [0..<n]" "cpu_ints ''mp-affinity'' cs = map (\<lambda>c. (c, unat (arch_id (possible ! c)))) [0..<n]"
    "cpu_flags ''start-powered-off'' cs = (if conduit = PSCI_DISABLED then [] else map (\<lambda>c. (c, True)) [1..<n])"
    "cpu_links ''tag-memory'' cs = (if mte vms then map (\<lambda>c. (c, Tag_sysmem)) [0..<n] else [])"
    "new_regions cs = (if mte vms \<and> 0 < n then Tag_sysmem # (if secure vms then [Secure_tag_sysmem] else []) else [])"
    unfolding cs_def all_cpu_calls_def using nz up by (cases "0 < n"; simp add: reads)+
qed

text \<open>
  C23: Starting the CPUs succeeds exactly if each of them offers what the options need. Then the CPUs are started once each and in
  order with the affinity of their slot, every one but the first is switched off unless the firmware is to do that, the tag
  memory is created once and linked to all, and the machine counts as 64-bit if all CPUs are.
\<close>

theorem cpus_started:
  assumes "n \<le> length possible"
  shows "case create_cpus vmc conduit C vms possible n of
    Inl e \<Rightarrow> \<exists>c<n. \<not> cpu_ok C vms c
  | Inr ((a64, tag), cs) \<Rightarrow> (\<forall>c<n. cpu_ok C vms c) \<and>
      (a64 \<longleftrightarrow> (\<forall>c<n. is_aarch64 C c)) \<and> (tag \<longleftrightarrow> mte vms \<and> 0 < n) \<and> realized cs = [0..<n] \<and>
      cpu_ints ''mp-affinity'' cs = map (\<lambda>c. (c, unat (arch_id (possible ! c)))) [0..<n] \<and>
      cpu_flags ''start-powered-off'' cs = (if conduit = PSCI_DISABLED then [] else map (\<lambda>c. (c, True)) [1..<n]) \<and>
      cpu_links ''tag-memory'' cs = (if mte vms then map (\<lambda>c. (c, Tag_sysmem)) [0..<n] else []) \<and>
      new_regions cs = (if tag then Tag_sysmem # (if secure vms then [Secure_tag_sysmem] else []) else [])"
proof (cases "\<forall>c<n. cpu_ok C vms c")
  case False
  then have "create_cpus vmc conduit C vms possible n \<noteq> Inr r" for r using create_cpus_eq [OF assms] by blast
  then obtain e where "create_cpus vmc conduit C vms possible n = Inl e" by (metis sumE)
  with False show ?thesis by simp
next
  case True
  then have eq: "create_cpus vmc conduit C vms possible n =
      Inr (((\<forall>c<n. is_aarch64 C c), mte vms \<and> 0 < n), all_cpu_calls vmc conduit C vms possible n)"
    using create_cpus_eq [OF assms] by blast
  show ?thesis unfolding eq sum.case prod.case create_cpus_reads using True by blast
qed

section \<open>Sample CPUs\<close>

definition sample_arm :: arm_env where
  "sample_arm = \<lparr>ARM_DEFAULT_CPUS_PER_CLUSTER = 8, GICV3_TARGETLIST_BITS = 16, GIC_TARGETLIST_BITS = 8, ARM_AFF3_MASK = 0xFF00000000,
     arm_cpu_mp_affinity = (\<lambda>idx sz. of_nat (idx div unat sz * 256 + idx mod unat sz))\<rparr>"

lemma sample_arm_law: "affinity_law sample_arm"
proof -
  have "unat (of_nat (idx div m * 256 + idx mod m) :: u64) = idx div m * 256 + idx mod m"
    if "idx < 2 ^ 24" "0 < m" "m < 256" for idx m :: nat
  proof -
    have d: "idx div m < 2 ^ 24" "idx mod m < 256"
      using that div_le_dividend [of idx m] mod_less_divisor [of m idx] by linarith+
    have "idx div m * 256 + idx mod m < 2 ^ 64" using d by simp
    then show ?thesis by (intro unat_of_nat_small) simp
  qed
  then show ?thesis
    using unat_bounds(1) by (auto simp: affinity_law_def sample_arm_def word_less_nat_alt)
qed

definition sample_objects :: cpu_objects where
  "sample_objects = \<lparr>has_prop = (\<lambda>n p. p \<in> set [''memory'', ''has_el2'', ''reset-cbar'']), is_aarch64 = (\<lambda>n. False),
     pre_plug_error = (\<lambda>n. None), realize_error = (\<lambda>n. None)\<rparr>"

definition sample_cpus :: "nat \<Rightarrow> arm_cpu" where
  "sample_cpus n = \<lparr>mp_affinity = of_nat n, dtb_compatible = ''arm,cortex-a15''\<rparr>"

definition sample_possible :: "CPUArchId list" where
  "sample_possible = map (\<lambda>n. \<lparr>ca_type = ''cortex-a15'', arch_id = of_nat n, thread_id = Some n, node_id = None\<rparr>) [0..<8]"

theorem cpus_started_witness:
  "\<exists>a64 tag cs. create_cpus virt_class_defaults PSCI_HVC sample_objects (virt_instance_init ('''', '''') virt_class_defaults) sample_possible 2 =
      Inr ((a64, tag), cs) \<and> realized cs = [0, 1] \<and> cpu_flags ''start-powered-off'' cs = [(1, True)]"
proof -
  let ?vms = "virt_instance_init ('''', '''') virt_class_defaults"
  have len: "2 \<le> length sample_possible" by (simp add: sample_possible_def)
  have "cpu_ok sample_objects ?vms c" for c
    by (simp add: cpu_ok_def sample_objects_def virt_instance_init_def)
  then obtain r where r: "create_cpus virt_class_defaults PSCI_HVC sample_objects ?vms sample_possible 2 = Inr r"
    using create_cpus_eq [OF len] by blast
  obtain a64 tag cs where "r = ((a64, tag), cs)" by (metis prod.collapse)
  with cpus_started [OF len, where vms = ?vms and C = sample_objects and conduit = PSCI_HVC and vmc = virt_class_defaults] r
  have "realized cs = [0..<2]" "cpu_flags ''start-powered-off'' cs = map (\<lambda>c. (c, True)) [1..<2]"
    "create_cpus virt_class_defaults PSCI_HVC sample_objects ?vms sample_possible 2 = Inr ((a64, tag), cs)" by simp_all
  moreover have "[0..<2] = [0, 1::nat]" "[1..<2] = [1::nat]" by (simp_all add: upt_rec)
  ultimately show ?thesis by simp
qed

end
