(* ===== verification/Virt_Tree.thy ===== *)
theory Virt_Tree
  imports Virt_Cpus
begin

unbundle bit_operations_syntax

text \<open>
  What the device tree says about CPUs and memory nodes: the topology paths, the register properties of the CPU nodes and
  the distance map.
\<close>

section \<open>The topology\<close>

lemma cpu_node_inject [simp]: "cpu_node a = cpu_node b \<longleftrightarrow> a = b"
  by (auto simp: cpu_node_def dest: decimal_inject)

definition topo_path :: "nat \<Rightarrow> nat \<times> nat \<times> nat \<Rightarrow> string" where
  "topo_path threads skt = (case skt of (s, k, t) \<Rightarrow>
     ''/cpus/cpu-map/socket'' @ decimal s @ ''/cluster0/core'' @ decimal k @ (if threads > 1 then ''/thread'' @ decimal t else ''''))"

definition topo :: "nat \<Rightarrow> nat \<Rightarrow> nat \<Rightarrow> nat \<times> nat \<times> nat" where
  "topo cores threads cpu = (let th = max 1 threads in (cpu div (cores * th), cpu div th mod cores, cpu mod th))"

lemma map_node_topo: "map_node cores threads cpu = topo_path threads (topo cores threads cpu)"
  by (auto simp: map_node_def topo_path_def topo_def max_def Let_def not_less le_Suc_eq)

lemma topo_number:
  assumes "topo cores threads cpu = (s, k, t)"
  shows "cpu = (s * cores + k) * max 1 threads + t"
proof -
  let ?th = "max 1 threads"
  have "s = cpu div ?th div cores" "k = cpu div ?th mod cores" "t = cpu mod ?th"
    using assms by (auto simp: topo_def Let_def div_mult2_eq mult.commute [of cores])
  then show ?thesis by (metis div_mult_mod_eq)
qed

lemma topo_path_inject:
  assumes "topo_path threads (s, k, t) = topo_path threads (s', k', t')"
  shows "s = s' \<and> k = k' \<and> (threads > 1 \<longrightarrow> t = t')"
proof -
  have "decimal s @ CHR ''/'' # (''cluster0/core'' @ decimal k @ (if threads > 1 then ''/thread'' @ decimal t else ''''))
      = decimal s' @ CHR ''/'' # (''cluster0/core'' @ decimal k' @ (if threads > 1 then ''/thread'' @ decimal t' else ''''))"
    using assms by (simp add: topo_path_def)
  from decimal_slash [OF this] have s: "s = s'"
    and r: "decimal k @ (if threads > 1 then ''/thread'' @ decimal t else '''') =
      decimal k' @ (if threads > 1 then ''/thread'' @ decimal t' else '''')" by simp_all
  show ?thesis
  proof (cases "threads > 1")
    case True
    with r have "decimal k @ CHR ''/'' # (''thread'' @ decimal t) = decimal k' @ CHR ''/'' # (''thread'' @ decimal t')" by simp
    from decimal_slash [OF this] s show ?thesis by (auto dest: decimal_inject)
  next
    case False
    with r s show ?thesis by (auto dest: decimal_inject)
  qed
qed

lemma map_node_inject [simp]: "map_node cores threads a = map_node cores threads b \<longleftrightarrow> a = b"
proof
  assume eq: "map_node cores threads a = map_node cores threads b"
  obtain s k t where a: "topo cores threads a = (s, k, t)" by (metis prod_cases3)
  obtain s' k' t' where b: "topo cores threads b = (s', k', t')" by (metis prod_cases3)
  from eq topo_path_inject [of threads s k t s' k' t'] have i: "s = s'" "k = k'" "threads > 1 \<longrightarrow> t = t'"
    unfolding map_node_topo a b by simp_all
  have "t = t'"
  proof (cases "threads > 1")
    case False
    then have "max 1 threads = 1" by simp
    then show ?thesis using a b by (simp add: topo_def)
  qed (use i in simp)
  then show "a = b" using topo_number [OF a] topo_number [OF b] i by simp
qed simp


section \<open>Reading the CPU nodes\<close>

fun added_paths :: "call list \<Rightarrow> string list" where
  "added_paths [] = []"
| "added_paths (Add_path p # cs) = p # added_paths cs"
| "added_paths (c # cs) = added_paths cs"

fun prop_vals :: "string \<Rightarrow> string \<Rightarrow> call list \<Rightarrow> fdt_val list" where
  "prop_vals node p [] = []"
| "prop_vals node p (Setprop n q v # cs) = (if n = node \<and> q = p then [v] else []) @ prop_vals node p cs"
| "prop_vals node p (c # cs) = prop_vals node p cs"

lemma added_paths_append [simp]: "added_paths (xs @ ys) = added_paths xs @ added_paths ys"
  by (induction xs rule: added_paths.induct) simp_all

lemma prop_vals_append [simp]: "prop_vals node p (xs @ ys) = prop_vals node p xs @ prop_vals node p ys"
  by (induction node p xs rule: prop_vals.induct) simp_all

lemma reads_concat:
  "added_paths (concat css) = concat (map added_paths css)" "prop_vals node p (concat css) = concat (map (prop_vals node p) css)"
  by (induction css) simp_all

lemma cpu_node_calls_paths [simp]: "added_paths (cpu_node_calls vmc conduit k n cpus possible ph cpu) = []"
  by (simp add: cpu_node_calls_def Let_def split: option.split)

lemma cpus_not_node [simp]: "''/cpus'' \<noteq> cpu_node c" "cpu_node c \<noteq> ''/cpus''"
  by (auto simp: cpu_node_def)

text \<open>The properties of one CPU node come from that CPU's round.\<close>

lemma cpu_node_vals:
  assumes "fdt_add_cpu_nodes A vmc conduit (cores, threads) n cpus possible ph = Inr cs" "c < n"
  shows "prop_vals (cpu_node c) p cs =
    prop_vals (cpu_node c) p (cpu_node_calls vmc conduit (cpu_addr_cells A cpus n) n cpus possible ph c)"
proof -
  let ?f = "cpu_node_calls vmc conduit (cpu_addr_cells A cpus n) n cpus possible ph"
  have other: "prop_vals (cpu_node c) p (?f d) = []" if "d \<noteq> c" for d
    using that by (simp add: cpu_node_calls_def Let_def split: option.split)
  have "concat (map (prop_vals (cpu_node c) p \<circ> ?f) (rev [0..<n])) = (prop_vals (cpu_node c) p \<circ> ?f) c"
    by (rule concat_single) (use assms(2) other in auto)
  moreover have "concat (map (prop_vals (cpu_node c) p \<circ> (\<lambda>cpu. [Add_path (map_node cores threads cpu),
      Setprop_phandle (map_node cores threads cpu) ''cpu'' (cpu_node cpu)])) xs) = []" for xs
    by (induction xs) simp_all
  ultimately show ?thesis
    using assms by (auto simp: fdt_add_cpu_nodes_def Let_def reads_concat split: if_splits)
qed

text \<open>
  C29: The topology in the device tree is one path per CPU, no two alike: the socket, core and thread numbers are in range and
  determine the number of the CPU, and the path refers to that CPU's node, which exists and has the handle allocated for it.
\<close>

theorem cpu_topology:
  assumes nodes: "fdt_add_cpu_nodes A vmc conduit (cores, threads) n cpus possible ph = Inr cs" and topo: "\<not> no_cpu_topology vmc"
  shows "distinct (added_paths cs) \<and> length (added_paths cs) = n \<and>
    (\<forall>cpu<n. \<exists>s k t. cpu = (s * cores + k) * max 1 threads + t \<and> k < cores \<and> t < max 1 threads \<and>
      topo_path threads (s, k, t) \<in> set (added_paths cs) \<and>
      Setprop_phandle (topo_path threads (s, k, t)) ''cpu'' (cpu_node cpu) \<in> set cs \<and>
      Add_subnode (cpu_node cpu) \<in> set cs \<and> prop_vals (cpu_node cpu) ''phandle'' cs = [Fdt_cells [ph cpu]])"
proof -
  have pos: "0 < cores" if "0 < n" using nodes topo that by (auto simp: fdt_add_cpu_nodes_def Let_def split: if_splits)
  have [simp]: "concat (map (added_paths \<circ> (\<lambda>cpu. [Add_path (map_node cores threads cpu),
      Setprop_phandle (map_node cores threads cpu) ''cpu'' (cpu_node cpu)])) xs) = map (map_node cores threads) xs" for xs
    by (induction xs) simp_all
  have paths: "added_paths cs = map (map_node cores threads) (rev [0..<n])"
    using nodes topo by (auto simp: fdt_add_cpu_nodes_def Let_def reads_concat comp_def split: if_splits)
  show ?thesis
  proof (intro conjI allI impI)
    show "distinct (added_paths cs)" unfolding paths distinct_map by (simp add: inj_on_def)
    show "length (added_paths cs) = n" unfolding paths by simp
    fix cpu assume cpu: "cpu < n"
    obtain s k t where topo_cpu: "topo cores threads cpu = (s, k, t)" by (metis prod_cases3)
    have "k < cores" "t < max 1 threads"
      using topo_cpu pos cpu by (auto simp: topo_def Let_def)
    moreover have "prop_vals (cpu_node cpu) ''phandle'' cs = [Fdt_cells [ph cpu]]"
      unfolding cpu_node_vals [OF nodes cpu] using topo by (simp add: cpu_node_calls_def Let_def split: option.split)
    moreover have "map_node cores threads cpu = topo_path threads (s, k, t)" unfolding map_node_topo topo_cpu by simp
    moreover have "Setprop_phandle (map_node cores threads cpu) ''cpu'' (cpu_node cpu) \<in> set cs" "Add_subnode (cpu_node cpu) \<in> set cs"
      using nodes topo cpu by (auto simp: fdt_add_cpu_nodes_def Let_def cpu_node_calls_def split: if_splits)
    moreover have "map_node cores threads cpu \<in> set (added_paths cs)" unfolding paths using cpu by simp
    ultimately show "\<exists>s k t. cpu = (s * cores + k) * max 1 threads + t \<and> k < cores \<and> t < max 1 threads \<and>
      topo_path threads (s, k, t) \<in> set (added_paths cs) \<and>
      Setprop_phandle (topo_path threads (s, k, t)) ''cpu'' (cpu_node cpu) \<in> set cs \<and>
      Add_subnode (cpu_node cpu) \<in> set cs \<and> prop_vals (cpu_node cpu) ''phandle'' cs = [Fdt_cells [ph cpu]]"
      using topo_number [OF topo_cpu] by metis
  qed
qed

text \<open>How many 32-bit cells a value takes, and the number it stands for.\<close>

fun fdt_cell_count :: "fdt_val \<Rightarrow> nat" where
  "fdt_cell_count (Fdt_cells xs) = length xs"
| "fdt_cell_count (Fdt_sized xs) = sum_list (map fst xs)"
| "fdt_cell_count v = 0"

fun fdt_number :: "fdt_val \<Rightarrow> nat" where
  "fdt_number (Fdt_cells [x]) = unat x"
| "fdt_number (Fdt_sized [(k, x)]) = unat x"
| "fdt_number v = 0"


lemma ucast_lossless:
  assumes "(x :: u64) AND 0xFF00000000 = 0" "x AND NOT 0xFF00FFFFFF = 0"
  shows "unat (ucast x :: u32) = unat x"
proof -
  have aff3: "(0xFF00000000 :: u64) = push_bit 32 (mask 8)" by (simp add: mask_eq_exp_minus_1 push_bit_eq_mult)
  have all: "(0xFF00FFFFFF :: u64) = take_bit 40 0xFF00FFFFFF" by simp
  have "\<not> bit x n" if "32 \<le> n" "n < 64" for n
  proof (cases "n < 40")
    case True
    then have "bit (0xFF00000000 :: u64) n" unfolding aff3 using that by (simp add: bit_simps) arith
    then show ?thesis using arg_cong [OF assms(1), of "\<lambda>w. bit w n"] by (simp add: bit_and_iff)
  next
    case False
    then have "\<not> bit (0xFF00FFFFFF :: u64) n" by (metis all bit_take_bit_iff)
    moreover have "\<not> bit (x AND NOT 0xFF00FFFFFF) n" unfolding assms(2) by simp
    ultimately show ?thesis using that unfolding bit_and_iff bit_not_iff possible_bit_word by simp
  qed
  then have "take_bit 32 x = x" by (intro bit_word_eqI) (simp add: bit_take_bit_iff, metis not_less)
  then have "unat (take_bit 32 x) = unat x" by simp
  then show ?thesis by (simp add: unsigned_ucast_eq unsigned_take_bit_eq)
qed

text \<open>
  C30: The register property of every CPU node has as many cells as the parent announces and stands for the whole affinity
  number of the CPU: the choice of one cell never drops bits.
\<close>

theorem cpu_regs_faithful:
  assumes nodes: "fdt_add_cpu_nodes A vmc conduit smp n cpus possible ph = Inr cs" and "ARM_AFF3_MASK A = 0xFF00000000"
    and "\<And>c. c < n \<Longrightarrow> mp_affinity (cpus c) AND NOT 0xFF00FFFFFF = 0"
  shows "\<exists>k. prop_vals ''/cpus'' ''#address-cells'' cs = [Fdt_cells [k]] \<and>
    (\<forall>c<n. \<exists>v. prop_vals (cpu_node c) ''reg'' cs = [v] \<and> fdt_cell_count v = unat k \<and> fdt_number v = unat (mp_affinity (cpus c)))"
proof -
  obtain cores threads where smp: "smp = (cores, threads)" by (cases smp)
  let ?k = "cpu_addr_cells A cpus n"
  have k: "?k = 1 \<or> ?k = 2" by (simp add: cpu_addr_cells_def)
  have other: "prop_vals ''/cpus'' p (cpu_node_calls vmc conduit ?k n cpus possible ph d) = []" for p d
    by (simp add: cpu_node_calls_def Let_def split: option.split)
  have [simp]: "concat (map (prop_vals ''/cpus'' p \<circ> (\<lambda>cpu. [Add_path (map_node cores threads cpu),
      Setprop_phandle (map_node cores threads cpu) ''cpu'' (cpu_node cpu)])) xs) = []" for xs p
    by (induction xs) simp_all
  have "prop_vals ''/cpus'' ''#address-cells'' cs = [Fdt_cells [of_nat ?k]]"
    using nodes unfolding smp by (auto simp: fdt_add_cpu_nodes_def Let_def reads_concat other comp_def split: if_splits)
  moreover have "\<exists>v. prop_vals (cpu_node c) ''reg'' cs = [v] \<and> fdt_cell_count v = unat (of_nat ?k :: u32) \<and>
      fdt_number v = unat (mp_affinity (cpus c))" if c: "c < n" for c
  proof (cases "?k = 2")
    case True
    then show ?thesis
      unfolding cpu_node_vals [OF nodes [unfolded smp] c] by (simp add: cpu_node_calls_def Let_def split: option.split)
  next
    case False
    then have "mp_affinity (cpus c) AND ARM_AFF3_MASK A = 0"
      using c by (auto simp: cpu_addr_cells_def list_ex_iff split: if_splits)
    then have "unat (ucast (mp_affinity (cpus c)) :: u32) = unat (mp_affinity (cpus c))"
      using assms(2,3) c by (intro ucast_lossless) simp_all
    then show ?thesis
      unfolding cpu_node_vals [OF nodes [unfolded smp] c] using False k
      by (simp add: cpu_node_calls_def Let_def split: option.split)
  qed
  ultimately show ?thesis by blast
qed

section \<open>The distance map\<close>

definition matrix_entry :: "qemu_env \<Rightarrow> numa_state \<Rightarrow> u32 list \<Rightarrow> nat \<times> nat \<Rightarrow> bool" where
  "matrix_entry E N m ij = (case ij of (i, j) \<Rightarrow> let k = (i * num_nodes N + j) * 3 in
     m ! k = cpu_to_be32 E (of_nat i) \<and> m ! (k + 1) = cpu_to_be32 E (of_nat j) \<and>
     m ! (k + 2) = cpu_to_be32 E (ucast (numa_distance N i j)))"

lemma cell_bound: "i < n \<Longrightarrow> j < n \<Longrightarrow> (i * n + j) * 3 + 2 < n * n * (3 :: nat)"
proof -
  assume "i < n" "j < n"
  then have "i * n + j < Suc i * n" by simp
  also have "\<dots> \<le> n * n" using \<open>i < n\<close> by (intro mult_le_mono1) simp
  finally show ?thesis by simp
qed

lemma length_matrix_write [simp]: "length (matrix_write E N ij m) = length m"
  by (simp add: matrix_write_def Let_def split: prod.split)

lemma write_triple:
  assumes "k * 3 + 2 < length m"
  shows "m[k * 3 := x, k * 3 + 1 := y, k * 3 + 2 := z] ! (l * 3) = (if l = k then x else m ! (l * 3))"
    "m[k * 3 := x, k * 3 + 1 := y, k * 3 + 2 := z] ! (l * 3 + 1) = (if l = k then y else m ! (l * 3 + 1))"
    "m[k * 3 := x, k * 3 + 1 := y, k * 3 + 2 := z] ! (l * 3 + 2) = (if l = k then z else m ! (l * 3 + 2))"
proof -
  have "k * 3 \<noteq> l * 3 + 1" "k * 3 \<noteq> l * 3 + 2" "k * 3 + 1 \<noteq> l * 3" "k * 3 + 1 \<noteq> l * 3 + 2" "k * 3 + 2 \<noteq> l * 3" "k * 3 + 2 \<noteq> l * 3 + 1"
    by presburger+
  then show "m[k * 3 := x, k * 3 + 1 := y, k * 3 + 2 := z] ! (l * 3) = (if l = k then x else m ! (l * 3))"
    "m[k * 3 := x, k * 3 + 1 := y, k * 3 + 2 := z] ! (l * 3 + 1) = (if l = k then y else m ! (l * 3 + 1))"
    "m[k * 3 := x, k * 3 + 1 := y, k * 3 + 2 := z] ! (l * 3 + 2) = (if l = k then z else m ! (l * 3 + 2))"
    using assms by (cases "l = k", simp_all)+
qed

lemma matrix_write_entry:
  assumes "length m = num_nodes N * num_nodes N * 3" "i < num_nodes N" "j < num_nodes N" "j' < num_nodes N"
    and "(i', j') = (i, j) \<or> matrix_entry E N m (i', j')"
  shows "matrix_entry E N (matrix_write E N (i, j) m) (i', j')"
proof -
  let ?n = "num_nodes N"
  have b: "(i * ?n + j) * 3 + 2 < length m" using cell_bound [OF assms(2,3)] assms(1) by simp
  have "(i * ?n + j) div ?n = i" "(i * ?n + j) mod ?n = j" "(i' * ?n + j') div ?n = i'" "(i' * ?n + j') mod ?n = j'"
    using assms(3,4) by simp_all
  then have same: "i' * ?n + j' = i * ?n + j \<longleftrightarrow> (i', j') = (i, j)" by (metis prod.inject)
  show ?thesis
    unfolding matrix_entry_def matrix_write_def Let_def prod.case write_triple [OF b] same
    using assms(5) by (auto simp: matrix_entry_def Let_def)
qed

lemma matrix_fold:
  assumes "length m = num_nodes N * num_nodes N * 3" "\<forall>(a, b) \<in> set ps. a < num_nodes N \<and> b < num_nodes N"
    "i < num_nodes N" "j < num_nodes N" "(i, j) \<in> set ps \<or> matrix_entry E N m (i, j)"
  shows "length (fold (matrix_write E N) ps m) = length m \<and> matrix_entry E N (fold (matrix_write E N) ps m) (i, j)"
  using assms
proof (induction ps arbitrary: m)
  case (Cons p ps)
  obtain a b where p: "p = (a, b)" by (cases p)
  have "(i, j) \<in> set ps \<or> matrix_entry E N (matrix_write E N p m) (i, j)"
    using Cons.prems matrix_write_entry [where i = a and j = b and i' = i and j' = j and m = m and N = N and E = E] by (auto simp: p)
  then show ?case using Cons.IH [of "matrix_write E N p m"] Cons.prems by simp
qed simp

text \<open>
  C33: The NUMA distance map in the device tree is complete and right: the loops fill the whole array and no write touches the
  entry of another pair, so each pair of nodes has its two numbers and its distance.
\<close>

theorem distance_map_complete:
  assumes "create_fdt E ok seeds ph N vms = Inr (vms', cs)" "0 < num_nodes N" "have_numa_distance N"
  shows "\<exists>m. prop_vals ''/distance-map'' ''distance-matrix'' cs = [Fdt_raw m] \<and> length m = num_nodes N * num_nodes N * 3 \<and>
    (\<forall>i<num_nodes N. \<forall>j<num_nodes N. matrix_entry E N m (i, j))"
proof -
  have "length (distance_matrix E N) = num_nodes N * num_nodes N * 3 \<and> matrix_entry E N (distance_matrix E N) (i, j)"
    if "i < num_nodes N" "j < num_nodes N" for i j
    unfolding distance_matrix_def using matrix_fold [where ps = "List.product [0..<num_nodes N] [0..<num_nodes N]"] that by auto
  moreover have "prop_vals ''/distance-map'' ''distance-matrix'' cs = [Fdt_raw (distance_matrix E N)]"
    using assms by (auto simp: create_fdt_def create_kaslr_seed_def split: if_splits option.splits)
  ultimately show ?thesis using assms(2) by blast
qed

theorem distance_map_complete_witness:
  "\<exists>vms' cs m. create_fdt real_env True (None, None) 1 \<lparr>num_nodes = 2, have_numa_distance = True, numa_distance = (\<lambda>i j. if i = j then 10 else 20)\<rparr>
      (virt_instance_init ('''', '''') virt_class_defaults) = Inr (vms', cs) \<and>
    prop_vals ''/distance-map'' ''distance-matrix'' cs = [Fdt_raw m] \<and> m ! 5 = cpu_to_be32 real_env 20"
proof -
  let ?N = "\<lparr>num_nodes = 2, have_numa_distance = True, numa_distance = (\<lambda>i j. if i = j then 10 else 20)\<rparr>"
  obtain vms' cs where c: "create_fdt real_env True (None, None) 1 ?N (virt_instance_init ('''', '''') virt_class_defaults) = Inr (vms', cs)"
    by (simp add: create_fdt_def)
  obtain m where m: "prop_vals ''/distance-map'' ''distance-matrix'' cs = [Fdt_raw m]"
    and e: "\<forall>i<num_nodes ?N. \<forall>j<num_nodes ?N. matrix_entry real_env ?N m (i, j)"
    using distance_map_complete [OF c] by auto
  from e have "matrix_entry real_env ?N m (0, 1)" by simp
  then have "m ! 5 = cpu_to_be32 real_env 20" by (simp add: matrix_entry_def Let_def)
  with c m show ?thesis by blast
qed

section \<open>Sample trees\<close>

theorem cpu_topology_witness:
  "\<exists>cs. fdt_add_cpu_nodes sample_arm virt_class_defaults PSCI_HVC (2, 2) 8 sample_cpus sample_possible of_nat = Inr cs \<and>
    distinct (added_paths cs) \<and> length (added_paths cs) = 8"
proof -
  obtain cs where cs: "fdt_add_cpu_nodes sample_arm virt_class_defaults PSCI_HVC (2, 2) 8 sample_cpus sample_possible of_nat = Inr cs"
    by (simp add: fdt_add_cpu_nodes_def sample_possible_def Let_def)
  have "\<not> no_cpu_topology virt_class_defaults" by (simp add: virt_class_defaults_def)
  from cpu_topology [OF cs this] cs show ?thesis by blast
qed

theorem cpu_regs_faithful_witness:
  "\<exists>cs k. fdt_add_cpu_nodes sample_arm virt_class_defaults PSCI_HVC (2, 2) 8 sample_cpus sample_possible of_nat = Inr cs \<and>
    prop_vals ''/cpus'' ''#address-cells'' cs = [Fdt_cells [k]]"
proof -
  obtain cs where cs: "fdt_add_cpu_nodes sample_arm virt_class_defaults PSCI_HVC (2, 2) 8 sample_cpus sample_possible of_nat = Inr cs"
    by (simp add: fdt_add_cpu_nodes_def sample_possible_def Let_def)
  have mask: "ARM_AFF3_MASK sample_arm = 0xFF00000000" by (simp add: sample_arm_def)
  have "mp_affinity (sample_cpus c) AND NOT 0xFF00FFFFFF = 0" if "c < 8" for c
    using that by (auto simp: sample_cpus_def less_Suc_eq numeral_eq_Suc)
  from cpu_regs_faithful [OF cs mask this] cs show ?thesis by blast
qed

end
