(* ===== verification/Virt_Machine.thy ===== *)
theory Virt_Machine
  imports Virt_Wiring Virt_Tree
begin

text \<open>
  \<^verbatim>\<open>machvirt_init\<close> as a whole: the checks, the firmware, the root of the device tree, the CPUs and the devices, in
  the order of the code; and what the resulting machine and its device tree promise to the guest.
\<close>

section \<open>Initialisation\<close>

text \<open>What \<^verbatim>\<open>machvirt_init\<close> gets from outside the file.\<close>

record board_env =
  type_suffix :: string
  early_map :: "board_map option"
  flash_drive :: bool
  bios_name :: "string option"
  bios_found :: bool
  bios_size :: int
  gic_names :: "string \<times> string"
  its_class :: "string option"
  ged_events :: "u32 \<times> u32 \<times> u32"
  dt_handles :: handles
  clock_handle :: u32
  cpu_handles :: "nat \<Rightarrow> u32"
  tree_ok :: bool
  random_seeds :: "u64 option \<times> u64 option"
  numa :: numa_state
  cpu_objs :: cpu_objects
  cached_cpus :: "CPUArchId list option"
  started_cpus :: "nat \<Rightarrow> arm_cpu"
  smp_layout :: "nat \<times> nat"

record arm_boot_info =
  bi_ram_size :: u64
  bi_nb_cpus :: nat
  bi_board_id :: int
  bi_loader_start :: u64
  bi_skip_dtb_autoload :: bool
  bi_firmware_loaded :: bool

definition machvirt_init ::
  "qemu_env \<Rightarrow> arm_env \<Rightarrow> kvm_host \<Rightarrow> board_env \<Rightarrow> VirtMachineClass \<Rightarrow> machine_opts \<Rightarrow> VirtMachineState \<Rightarrow>
    (VirtMachineState \<times> arm_boot_info \<times> call list) qemu" where
  "machvirt_init E A kvm B vmc mo vms =
     (let sec = (if secure vms then Secure_sysmem else Sysmem) in
      rbind (machvirt_checks E kvm (type_suffix B) (early_map B)
        (virt_firmware_init (flash_drive B) (bios_name B) (bios_found B) (bios_size B) Sysmem sec) mo vms)
        (\<lambda>(vms1, conduit, firmware_loaded, flash, dm).
      rbind (create_fdt E (tree_ok B) (random_seeds B) (clock_handle B) (numa B) vms1) (\<lambda>(vms2, root).
      rbind (as_qemu (virt_possible_cpu_arch_ids A vmc (cpu_type mo) (max_cpus mo) vms2 (cached_cpus B))) (\<lambda>possible.
      if length possible \<noteq> max_cpus mo then Inl ''assertion failed''
      else
      rbind (create_cpus vmc conduit (cpu_objs B) vms2 possible (smp_cpus mo)) (\<lambda>((a64, tag), cpus).
      let timer = fdt_add_timer_nodes E vmc (cpu_v8 mo) (smp_cpus mo) vms2 in
      rbind (as_qemu (fdt_add_cpu_nodes A vmc conduit (smp_layout B) (smp_cpus mo) (started_cpus B) possible (cpu_handles B))) (\<lambda>nodes.
      rbind (machvirt_devices E kvm (gic_names B) (its_class B) (ged_events B) (dt_handles B) vmc firmware_loaded tag dm
        (mo\<lparr>aarch64 := a64\<rparr>) vms2) (\<lambda>(vms3, devices).
      Inr (vms3,
        \<lparr>bi_ram_size = ram_size mo, bi_nb_cpus = smp_cpus mo, bi_board_id = - 1, bi_loader_start = base (vmap vms3 VIRT_MEM),
         bi_skip_dtb_autoload = True, bi_firmware_loaded = firmware_loaded\<rparr>,
        (if secure vms1 then [Region_init Secure_sysmem (- 1), Region_under Secure_sysmem Sysmem] else []) @
        flash @ root @ cpus @ timer @ nodes @ devices @
        (if nvdimm mo then [Map Sysmem ''nvdimm-acpi'' 0 (base (vmap vms3 VIRT_NVDIMM_ACPI))] else []) @
        [Dev_link ''kernel'' ''bootinfo'', Dev_link ''machine_done'' ''virt_machine_done'']))))))))"

section \<open>Quiet calls\<close>

text \<open>Calls that neither wire nor advertise an interrupt nor advertise a register block.\<close>

fun quiet :: "qemu_env \<Rightarrow> call list \<Rightarrow> bool" where
  "quiet E cs \<longleftrightarrow> wired cs = [] \<and> advertised E cs = [] \<and> reg_bases cs = []"

lemma quiet_append [simp]: "quiet E (xs @ ys) \<longleftrightarrow> quiet E xs \<and> quiet E ys"
  by auto

lemma quiet_concat: "(\<And>x. x \<in> set xs \<Longrightarrow> quiet E (f x)) \<Longrightarrow> quiet E (concat (map f xs))"
  by (induction xs) auto

lemma quiet_fdt: "create_fdt E ok seeds ph N vms = Inr (vms', cs) \<Longrightarrow> quiet E cs \<and> vms' = vms\<lparr>clock_phandle := ph\<rparr>"
  by (auto simp: create_fdt_def create_kaslr_seed_def split: if_splits option.splits)

lemma quiet_if: "quiet E (if b then xs else ys) \<longleftrightarrow> (if b then quiet E xs else quiet E ys)"
  by simp

lemma quiet_Cons:
  "quiet E []" "quiet E (Cpu_new n t # cs) = quiet E cs" "quiet E (Cpu_int n p x # cs) = quiet E cs"
  "quiet E (Cpu_bool n p b # cs) = quiet E cs" "quiet E (Cpu_link n p sp # cs) = quiet E cs" "quiet E (Cpu_realize n # cs) = quiet E cs"
  "quiet E (Region_init sp z # cs) = quiet E cs" "quiet E (Region_under sp sp' # cs) = quiet E cs"
  by simp_all

lemma quiet_cpu: "quiet E (cpu_calls vmc conduit C vms possible tag n)"
  by (simp add: cpu_calls_def cpu_props_def tag_calls_def quiet_if quiet_Cons del: quiet.simps)

lemma quiet_cpus:
  assumes "create_cpus vmc conduit C vms possible n = Inr (st, cs)"
  shows "quiet E cs"
proof -
  obtain ns where "create_cpus_from vmc conduit C vms possible ns (True, False) = Inr (st, cs)"
    using assms by (auto simp: create_cpus_def)
  then show ?thesis
    unfolding create_cpus_from_eq by (auto simp: quiet_cpu quiet_Cons(1) intro!: quiet_concat split: list.splits simp del: quiet.simps)
qed

lemma quiet_cpu_nodes:
  assumes "fdt_add_cpu_nodes A vmc conduit smp n cpus possible ph = Inr cs"
  shows "quiet E cs"
proof -
  have node: "quiet E (cpu_node_calls vmc conduit k n cpus possible ph c)" for k c
    by (simp add: cpu_node_calls_def Let_def split: option.split)
  have nodes: "quiet E (concat (map (cpu_node_calls vmc conduit k n cpus possible ph) xs))" for k xs
    by (rule quiet_concat) (rule node)
  have paths: "quiet E (concat (map (\<lambda>c. [Add_path (f c), Setprop_phandle (f c) p (g c)]) xs))" for f g p and xs :: "nat list"
    by (rule quiet_concat) simp
  obtain cores threads where smp: "smp = (cores, threads)" by (cases smp)
  show ?thesis
    using assms nodes [of "cpu_addr_cells A cpus n" "rev [0..<n]"] paths [of "map_node cores threads" "''cpu''" cpu_node "rev [0..<n]"]
    unfolding smp by (auto simp: fdt_add_cpu_nodes_def Let_def split: if_splits)
qed

lemma quiet_timer: "GIC_FDT_IRQ_TYPE_SPI E \<noteq> GIC_FDT_IRQ_TYPE_PPI E \<Longrightarrow> quiet E (fdt_add_timer_nodes E vmc v8 n vms)"
  by (simp add: fdt_add_timer_nodes_def Let_def)

lemma quiet_flash: "virt_flash_map vms m1 m2 = Inr fl \<Longrightarrow> quiet E fl"
  by (auto simp: virt_flash_map_def virt_flash_map1_def Let_def split: if_splits)

lemma checks_flash:
  assumes "machvirt_checks E kvm suffix early (virt_firmware_init d b f z m1 m2) mo vms = Inr (vms1, conduit, loaded, fl, dm)"
  shows "virt_flash_map vms1 m1 m2 = Inr fl \<and> irqmap vms1 = irqmap vms \<and> secure vms1 = secure vms"
  using assms by (auto simp: machvirt_checks_def virt_firmware_init_def as_qemu_def Let_def split: if_splits sum.splits)

lemma flash_clock [simp]:
  "virt_flash_map (vms\<lparr>clock_phandle := ph\<rparr>) m1 m2 = virt_flash_map vms m1 m2"
  by (simp add: virt_flash_map_def)

text \<open>
  C5: A machine that starts has an honest device tree, whatever the options: every shared interrupt that it advertises is wired
  to the GIC, every register block that it advertises is mapped at that address, and no input of the GIC has
  two devices, except when a version 2 controller is combined with the SMMU, which always collide. The private lines from the
  CPUs (timers, PMU, maintenance interrupt) have inputs per CPU and are not counted here.
\<close>

theorem machine_tree_honest:
  assumes init: "machvirt_init E A kvm B vmc mo vms = Inr (vms', boot, cs)"
    and spi: "GIC_FDT_IRQ_TYPE_SPI E \<noteq> GIC_FDT_IRQ_TYPE_PPI E" and irqs: "irqmap vms = a15irqmap"
    and "0 < GIC_INTERNAL E" "GPEX_NUM_IRQS E \<le> 4"
  shows "set (advertised E cs) \<subseteq> of_nat ` set (wired cs) \<and> set (reg_bases cs) \<subseteq> set (mapped cs) \<and>
    (distinct (wired cs) \<longleftrightarrow> \<not> (gic_version vms' = VIRT_GIC_VERSION_2 \<and> iommu vms' = VIRT_IOMMU_SMMUV3 \<and> ph_iommu (dt_handles B) \<noteq> 0))"
proof -
  let ?sec = "if secure vms then Secure_sysmem else Sysmem"
  from init obtain vms1 conduit fw flash dm vms2 root possible a64 tag cpus nodes devices where
    chk: "machvirt_checks E kvm (type_suffix B) (early_map B)
        (virt_firmware_init (flash_drive B) (bios_name B) (bios_found B) (bios_size B) Sysmem ?sec) mo vms = Inr (vms1, conduit, fw, flash, dm)"
    and fdt: "create_fdt E (tree_ok B) (random_seeds B) (clock_handle B) (numa B) vms1 = Inr (vms2, root)"
    and cpu: "create_cpus vmc conduit (cpu_objs B) vms2 possible (smp_cpus mo) = Inr ((a64, tag), cpus)"
    and nod: "as_qemu (fdt_add_cpu_nodes A vmc conduit (smp_layout B) (smp_cpus mo) (started_cpus B) possible (cpu_handles B)) = Inr nodes"
    and dev: "machvirt_devices E kvm (gic_names B) (its_class B) (ged_events B) (dt_handles B) vmc fw tag dm
        (mo\<lparr>aarch64 := a64\<rparr>) vms2 = Inr (vms', devices)"
    and cs: "cs = (if secure vms1 then [Region_init Secure_sysmem (- 1), Region_under Secure_sysmem Sysmem] else []) @
        flash @ root @ cpus @ fdt_add_timer_nodes E vmc (cpu_v8 mo) (smp_cpus mo) vms2 @ nodes @ devices @
        (if nvdimm mo then [Map Sysmem ''nvdimm-acpi'' 0 (base (vmap vms' VIRT_NVDIMM_ACPI))] else []) @
        [Dev_link ''kernel'' ''bootinfo'', Dev_link ''machine_done'' ''virt_machine_done'']"
    unfolding machvirt_init_def Let_def by (auto simp: guard_Inr split del: if_split)
  note fl = checks_flash [OF chk]
  have v2: "vms2 = vms1\<lparr>clock_phandle := clock_handle B\<rparr>" using quiet_fdt [OF fdt] by blast
  have q: "quiet E flash" "quiet E root" "quiet E cpus" "quiet E nodes" "quiet E (fdt_add_timer_nodes E vmc (cpu_v8 mo) (smp_cpus mo) vms2)"
    using quiet_flash fl quiet_fdt [OF fdt] quiet_cpus [OF cpu] quiet_cpu_nodes nod quiet_timer [OF spi] by (auto simp: as_qemu_Inr)
  have irq2: "irqmap vms2 = a15irqmap" and flm: "virt_flash_map vms2 Sysmem (if secure vms2 then Secure_sysmem else Sysmem) = Inr flash"
    using fl irqs by (auto simp: v2)
  note same = devices_same_board [OF dev spi]
  show ?thesis
    using q board_irqs_wired [OF dev spi irq2 assms(4,5)] board_regs_mapped [OF dev spi irq2 flm] same
    unfolding cs by (auto simp: same_board_def)
qed
section \<open>A machine with two CPUs\<close>

definition sample_env :: board_env where
  "sample_env = \<lparr>type_suffix = '''', early_map = Some \<lparr>memmap = base_memmap real_env, highest_gpa = 2 ^ 40 - 1, device_memory = None\<rparr>,
     flash_drive = False, bios_name = None, bios_found = False, bios_size = 0, gic_names = (''arm_gic'', ''arm-gicv3''), its_class = None,
     ged_events = (1, 2, 16), dt_handles = sample_handles, clock_handle = 1, cpu_handles = (\<lambda>n. 0x8000 + of_nat n), tree_ok = True,
     random_seeds = (Some 42, None), numa = \<lparr>num_nodes = 0, have_numa_distance = False, numa_distance = (\<lambda>i j. 10)\<rparr>,
     cpu_objs = sample_objects, cached_cpus = None, started_cpus = sample_cpus, smp_layout = (2, 1)\<rparr>"

lemma sample_checks:
  "machvirt_checks real_env sample_kvm '''' (Some \<lparr>memmap = base_memmap real_env, highest_gpa = 2 ^ 40 - 1, device_memory = None\<rparr>)
     (virt_firmware_init False None False 0 Sysmem Sysmem) sample_opts
     (sample_vms\<lparr>gic_version := VIRT_GIC_VERSION_NOSEL, clock_phandle := 0\<rparr>) =
   Inr (sample_vms\<lparr>clock_phandle := 0\<rparr>, PSCI_HVC, False,
     [Dev_prop ''virt.flash0'' ''num-blocks'' 256, Map Sysmem ''virt.flash0'' 0 0,
      Dev_prop ''virt.flash1'' ''num-blocks'' 256, Map Sysmem ''virt.flash1'' 0 0x4000000], None)"
  by (simp add: machvirt_checks_def finalize_gic_version_def sample_kvm_def sample_opts_def cpu_type_valid_def valid_cpus_def
      virt_firmware_init_def virt_flash_map_def virt_flash_map1_def virt_firmware_choice_def as_qemu_def VIRT_FLASH_SECTOR_SIZE_def KiB_def
      virt_max_cpus_def sample_vms_def virt_instance_init_def real_env_def Let_def)


lemma sample_machine:
  obtains vms' boot cs where "machvirt_init real_env sample_arm sample_kvm sample_env virt_class_defaults sample_opts
    (sample_vms\<lparr>gic_version := VIRT_GIC_VERSION_NOSEL, clock_phandle := 0\<rparr>) = Inr (vms', boot, cs)"
proof -
  let ?vms = "sample_vms\<lparr>gic_version := VIRT_GIC_VERSION_NOSEL, clock_phandle := 0\<rparr>"
  have env: "type_suffix sample_env = ''''" "early_map sample_env = Some \<lparr>memmap = base_memmap real_env, highest_gpa = 2 ^ 40 - 1, device_memory = None\<rparr>"
    "flash_drive sample_env = False" "bios_name sample_env = None" "bios_found sample_env = False" "bios_size sample_env = 0"
    "gic_names sample_env = (''arm_gic'', ''arm-gicv3'')" "its_class sample_env = None" "ged_events sample_env = (1, 2, 16)"
    "dt_handles sample_env = sample_handles" "clock_handle sample_env = 1" "tree_ok sample_env = True" "cached_cpus sample_env = None"
    "cpu_objs sample_env = sample_objects" "smp_layout sample_env = (2, 1)"
    by (simp_all add: sample_env_def)
  have opts: "smp_cpus sample_opts = 2" "max_cpus sample_opts = 2" "sample_opts\<lparr>aarch64 := False\<rparr> = sample_opts"
    by (simp_all add: sample_opts_def)
  have sec: "(if secure ?vms then Secure_sysmem else Sysmem) = Sysmem" by simp
  obtain root where fdt: "create_fdt real_env True (random_seeds sample_env) 1 (numa sample_env) (sample_vms\<lparr>clock_phandle := 0\<rparr>) = Inr (sample_vms, root)"
    by (simp add: create_fdt_def) (simp add: sample_vms_def)
  obtain possible where pos: "virt_possible_cpu_arch_ids sample_arm virt_class_defaults (cpu_type sample_opts) 2 sample_vms None = Inr possible"
    and len: "length possible = 2"
    by (simp add: virt_possible_cpu_arch_ids_def)
  have "cpu_ok sample_objects sample_vms c" for c
    by (simp add: cpu_ok_def sample_objects_def sample_vms_def virt_instance_init_def)
  moreover have m: "mte sample_vms = False" "\<And>c. \<not> is_aarch64 sample_objects c"
    by (simp_all add: sample_vms_def virt_instance_init_def sample_objects_def)
  ultimately obtain cpus where cpu: "create_cpus virt_class_defaults PSCI_HVC sample_objects sample_vms possible 2 = Inr ((False, False), cpus)"
    by (fastforce simp: create_cpus_def create_cpus_from_eq len simp del: create_cpus_from.simps intro: exI [of _ 0])
  obtain nodes where nod: "fdt_add_cpu_nodes sample_arm virt_class_defaults PSCI_HVC (2, 1) 2 (started_cpus sample_env) possible
      (cpu_handles sample_env) = Inr nodes"
    by (simp add: fdt_add_cpu_nodes_def len Let_def)
  obtain vms' devices where dev: "machvirt_devices real_env sample_kvm (''arm_gic'', ''arm-gicv3'') None (1, 2, 16) sample_handles
      virt_class_defaults False False None sample_opts sample_vms = Inr (vms', devices)"
    by (rule sample_board)
  show ?thesis
    by (rule that) (simp only: machvirt_init_def Let_def env sec sample_checks rbind.simps prod.case fdt opts pos as_qemu_Inr len
        simp_thms if_False cpu nod dev)
qed

theorem machine_tree_honest_witness:
  "\<exists>vms' boot cs. machvirt_init real_env sample_arm sample_kvm sample_env virt_class_defaults sample_opts
      (sample_vms\<lparr>gic_version := VIRT_GIC_VERSION_NOSEL, clock_phandle := 0\<rparr>) = Inr (vms', boot, cs) \<and>
    set (advertised real_env cs) \<subseteq> of_nat ` set (wired cs) \<and> set (reg_bases cs) \<subseteq> set (mapped cs)"
proof -
  obtain vms' boot cs where m: "machvirt_init real_env sample_arm sample_kvm sample_env virt_class_defaults sample_opts
      (sample_vms\<lparr>gic_version := VIRT_GIC_VERSION_NOSEL, clock_phandle := 0\<rparr>) = Inr (vms', boot, cs)"
    by (rule sample_machine)
  then show ?thesis using machine_tree_honest [OF m] by (simp add: real_env_def)
qed

end
