(* ===== verification/Virt_Hotplug.thy ===== *)
theory Virt_Hotplug
  imports Virt_Machine
begin

unbundle bit_operations_syntax

text \<open>
  What happens to the board after its start: hot plug of memory, of the virtio IOMMU and of devices on the platform bus, the power
  button, and the callback before the guest boots. What the libraries answer is an input (\<open>hot_env\<close>).
\<close>

section \<open>State\<close>

text \<open>
  The machine with its optional devices, the key device of the GPIO controller (a global variable of the code), and the
  memory modules plugged in.
\<close>

record hot_machine =
  board :: VirtMachineState
  acpi_dev :: bool
  platform_bus_dev :: bool
  gpio_key_dev :: bool
  firmware_loaded :: bool
  nvdimm_enabled :: bool
  virtio_iommu_bdf :: u16
  pciehb_nodename :: string
  dimms :: "nat list"

text \<open>A device with the answers of the dynamic casts.\<close>

record hot_device =
  dev_id :: nat
  is_pc_dimm :: bool
  is_nvdimm :: bool
  is_virtio_iommu_pci :: bool
  is_dynamic_sysbus :: bool
  typename :: string
  dev_bdf :: u16

text \<open>Errors of the memory module library and of the event device, and the handle allocated for an IOMMU.\<close>

record hot_env =
  dimm_pre_plug_error :: "hot_device \<Rightarrow> string option"
  ged_plug_error :: "hot_device \<Rightarrow> string option"
  ged_request_error :: "hot_device \<Rightarrow> string option"
  ged_unplug_error :: "hot_device \<Rightarrow> string option"
  iommu_handle :: u32
  VIRTIO_IOMMU_RESV_MEM_T_MSI :: nat

datatype hot_call =
    Dimm_pre_plug nat
  | Dimm_plug nat
  | Dimm_unplug nat
  | Nvdimm_plug
  | Ged_plug nat
  | Ged_unplug_request nat
  | Ged_unplug nat
  | Unrealize nat
  | Link_sysbus nat
  | Prop_u32 nat string nat
  | Prop_string nat string string
  | Tree call
  | Acpi_power_down
  | Gpio_key_irq

section \<open>Memory modules\<close>

text \<open>A pre-plug function returns an error or nothing, and its calls; it does not change the machine.\<close>

definition virt_memory_pre_plug :: "hot_env \<Rightarrow> hot_device \<Rightarrow> hot_machine \<Rightarrow> string option \<times> hot_call list" where
  "virt_memory_pre_plug H dev m =
     (if \<not> acpi_dev m then (Some ''memory hotplug is not enabled: missing acpi-ged device'', [])
      else if mte (board m) then (Some ''memory hotplug is not enabled: MTE is enabled'', [])
      else if is_nvdimm dev \<and> \<not> nvdimm_enabled m then (Some ''nvdimm is not enabled: add nvdimm=on to -M'', [])
      else (dimm_pre_plug_error H dev, [Dimm_pre_plug (dev_id dev)]))"

text \<open>The event device is used without a test; an error of its handler aborts.\<close>

definition virt_memory_plug :: "hot_env \<Rightarrow> hot_device \<Rightarrow> hot_machine \<Rightarrow> (hot_machine \<times> hot_call list) result" where
  "virt_memory_plug H dev m =
     (let m1 = m\<lparr>dimms := dev_id dev # dimms m\<rparr>;
          cs = [Dimm_plug (dev_id dev)] @ (if is_nvdimm dev then [Nvdimm_plug] else []) in
      if \<not> acpi_dev m then Inl NullDeref
      else if ged_plug_error H dev \<noteq> None then Inl KernelBug
      else Inr (m1, cs @ [Ged_plug (dev_id dev)]))"

definition virt_dimm_unplug_request :: "hot_env \<Rightarrow> hot_device \<Rightarrow> hot_machine \<Rightarrow> string option \<times> hot_call list" where
  "virt_dimm_unplug_request H dev m =
     (if \<not> acpi_dev m then (Some ''memory hotplug is not enabled: missing acpi-ged device'', [])
      else if is_nvdimm dev then (Some ''nvdimm device hot unplug is not supported yet.'', [])
      else (ged_request_error H dev, [Ged_unplug_request (dev_id dev)]))"

definition virt_dimm_unplug :: "hot_env \<Rightarrow> hot_device \<Rightarrow> hot_machine \<Rightarrow> (string option \<times> hot_machine \<times> hot_call list) result" where
  "virt_dimm_unplug H dev m =
     (if \<not> acpi_dev m then Inl NullDeref
      else case ged_unplug_error H dev of
        Some e \<Rightarrow> Inr (Some e, m, [Ged_unplug (dev_id dev)])
      | None \<Rightarrow> Inr (None, m\<lparr>dimms := remove1 (dev_id dev) (dimms m)\<rparr>,
          [Ged_unplug (dev_id dev), Dimm_unplug (dev_id dev), Unrealize (dev_id dev)]))"

section \<open>The virtio IOMMU\<close>

text \<open>The doorbell of the MSI controller, in the fixed memory map.\<close>

definition msi_doorbell :: "qemu_env \<Rightarrow> VirtMSIControllerType \<Rightarrow> (u64 \<times> u64) option" where
  "msi_doorbell E c = (case c of
     VIRT_MSI_CTRL_NONE \<Rightarrow> None
   | VIRT_MSI_CTRL_ITS \<Rightarrow> Some (base (base_memmap E VIRT_GIC_ITS) + 0x10000,
       base (base_memmap E VIRT_GIC_ITS) + msize (base_memmap E VIRT_GIC_ITS) - 1)
   | VIRT_MSI_CTRL_GICV2M \<Rightarrow> (let db_start = base (base_memmap E VIRT_GIC_V2M)
       in Some (db_start, db_start + msize (base_memmap E VIRT_GIC_V2M) - 1)))"

definition create_virtio_iommu_dt_bindings :: "u32 \<Rightarrow> hot_machine \<Rightarrow> hot_machine \<times> call list" where
  "create_virtio_iommu_dt_bindings ph m =
     (let bdf = virtio_iommu_bdf m; node = pciehb_nodename m @ ''/virtio_iommu@'' @ decimal (unat bdf); b = ucast bdf :: u32 in
      (m\<lparr>board := (board m)\<lparr>iommu_phandle := ph\<rparr>\<rparr>,
       [Add_subnode node, Setprop node ''compatible'' (Fdt_string ''virtio,pci-iommu''),
        Setprop node ''reg'' (Fdt_sized [(1, push_bit 8 (ucast bdf)), (1, 0), (1, 0), (1, 0), (1, 0)]),
        Setprop node ''#iommu-cells'' (Fdt_cells [1]), Setprop node ''phandle'' (Fdt_cells [ph]),
        Setprop (pciehb_nodename m) ''iommu-map'' (Fdt_cells [0x0, ph, 0x0, b, b + 1, ph, b + 1, 0xffff - b])]))"

section \<open>Callbacks\<close>

definition virt_machine_device_pre_plug_cb ::
  "qemu_env \<Rightarrow> hot_env \<Rightarrow> hot_device \<Rightarrow> hot_machine \<Rightarrow> string option \<times> hot_call list" where
  "virt_machine_device_pre_plug_cb E H dev m =
     (if is_pc_dimm dev then virt_memory_pre_plug H dev m
      else if is_virtio_iommu_pci dev then
        (case msi_doorbell E (msi_controller (board m)) of
           None \<Rightarrow> (None, [])
         | Some (db_start, db_end) \<Rightarrow>
             (None, [Prop_u32 (dev_id dev) ''len-reserved-regions'' 1,
               Prop_string (dev_id dev) ''reserved-regions[0]''
                 (''0x'' @ hex (unat db_start) @ '':0x'' @ hex (unat db_end) @ '':'' @ decimal (VIRTIO_IOMMU_RESV_MEM_T_MSI H))]))
      else (None, []))"

definition virt_machine_device_plug_cb :: "hot_env \<Rightarrow> hot_device \<Rightarrow> hot_machine \<Rightarrow> (hot_machine \<times> hot_call list) result" where
  "virt_machine_device_plug_cb H dev m =
     (let link = (if platform_bus_dev m \<and> is_dynamic_sysbus dev then [Link_sysbus (dev_id dev)] else []) in
      rbind (if is_pc_dimm dev then virt_memory_plug H dev m else Inr (m, [])) (\<lambda>(m1, mem).
        if is_virtio_iommu_pci dev then
          let m2 = m1\<lparr>board := (board m1)\<lparr>iommu := VIRT_IOMMU_VIRTIO\<rparr>, virtio_iommu_bdf := dev_bdf dev\<rparr>;
              (m3, fdt) = create_virtio_iommu_dt_bindings (iommu_handle H) m2
          in Inr (m3, link @ mem @ map Tree fdt)
        else Inr (m1, link @ mem)))"

definition virt_machine_device_unplug_request_cb :: "hot_env \<Rightarrow> hot_device \<Rightarrow> hot_machine \<Rightarrow> string option \<times> hot_call list" where
  "virt_machine_device_unplug_request_cb H dev m =
     (if is_pc_dimm dev then virt_dimm_unplug_request H dev m
      else (Some (''device unplug request for unsupported device type: '' @ typename dev), []))"

definition virt_machine_device_unplug_cb ::
  "hot_env \<Rightarrow> hot_device \<Rightarrow> hot_machine \<Rightarrow> (string option \<times> hot_machine \<times> hot_call list) result" where
  "virt_machine_device_unplug_cb H dev m =
     (if is_pc_dimm dev then virt_dimm_unplug H dev m
      else Inr (Some (''virt: device unplug for unsupported device type: '' @ typename dev), m, []))"

text \<open>Whether the machine handles the device itself.\<close>

definition virt_machine_get_hotplug_handler :: "hot_device \<Rightarrow> hot_machine \<Rightarrow> bool" where
  "virt_machine_get_hotplug_handler dev m =
     (if is_dynamic_sysbus dev \<or> is_pc_dimm dev then True
      else if is_virtio_iommu_pci dev then \<not> firmware_loaded m \<or> \<not> virt_is_acpi_enabled (board m)
      else False)"

definition virt_powerdown_req :: "hot_machine \<Rightarrow> hot_call list result" where
  "virt_powerdown_req m =
     (if acpi_dev m then Inr [Acpi_power_down] else if gpio_key_dev m then Inr [Gpio_key_irq] else Inl NullDeref)"

section \<open>Before the guest boots\<close>

datatype boot_call =
    Platform_nodes string u64 u64 nat
  | Extra_pci_roots
  | Acpi_setup
  | Smbios_defaults string string string
  | Fw_cfg_file string

text \<open>
  \<open>tables\<close> is what the library builds: an error that ends QEMU, or whether there is an anchor. \<open>name\<close> is the
  name of the machine type.
\<close>

definition virt_build_smbios :: "bool \<Rightarrow> bool qemu \<Rightarrow> string \<Rightarrow> VirtMachineClass \<Rightarrow> boot_call list qemu" where
  "virt_build_smbios kvm tables name vmc =
     (let product = (if kvm then ''KVM Virtual Machine'' else ''QEMU Virtual Machine'') in
      rbind tables (\<lambda>anchor. Inr (
        [Smbios_defaults ''QEMU'' product (if smbios_old_sys_ver vmc then ''1.0'' else name)] @
        (if anchor then [Fw_cfg_file ''etc/smbios/smbios-tables'', Fw_cfg_file ''etc/smbios/smbios-anchor''] else []))))"

text \<open>\<open>user_dtb\<close> tells whether the user gave a device tree, \<open>dtb_size\<close> is what loading the tree returns.\<close>

definition virt_machine_done ::
  "bool \<Rightarrow> int \<Rightarrow> bool \<Rightarrow> bool qemu \<Rightarrow> string \<Rightarrow> VirtMachineClass \<Rightarrow> VirtMachineState \<Rightarrow> boot_call list qemu" where
  "virt_machine_done user_dtb dtb_size kvm tables name vmc vms =
     (let e = vmap vms VIRT_PLATFORM_BUS;
          nodes = (if \<not> user_dtb then [Platform_nodes ''/intc'' (base e) (msize e) (irqmap vms VIRT_PLATFORM_BUS)] else []) in
      if dtb_size < 0 then Inl ''arm_load_dtb failed''
      else rbind (virt_build_smbios kvm tables name vmc) (\<lambda>smbios. Inr (nodes @ [Extra_pci_roots, Acpi_setup] @ smbios)))"

section \<open>Life after the start\<close>

text \<open>
  A device is plugged if the machine is its handler and the pre-plug function does not refuse it; a refusal leaves the machine as it is.
  Ejections come from the event device: without one nothing ejects a memory module.
\<close>

datatype hot_event = Plug hot_device | Request_unplug hot_device | Eject hot_device | Power_button

fun hot_step :: "qemu_env \<Rightarrow> hot_env \<Rightarrow> hot_machine \<Rightarrow> hot_event \<Rightarrow> hot_machine result" where
  "hot_step E H m (Plug dev) =
     (if \<not> virt_machine_get_hotplug_handler dev m \<or> fst (virt_machine_device_pre_plug_cb E H dev m) \<noteq> None then Inr m
      else rbind (virt_machine_device_plug_cb H dev m) (\<lambda>(m', cs). Inr m'))"
| "hot_step E H m (Request_unplug dev) = (case virt_machine_device_unplug_request_cb H dev m of (e, cs) \<Rightarrow> Inr m)"
| "hot_step E H m (Eject dev) =
     (if is_pc_dimm dev \<and> \<not> acpi_dev m then Inr m
      else rbind (virt_machine_device_unplug_cb H dev m) (\<lambda>(e, m', cs). Inr m'))"
| "hot_step E H m Power_button = rbind (virt_powerdown_req m) (\<lambda>cs. Inr m)"

definition hot_inv :: "hot_machine \<Rightarrow> bool" where
  "hot_inv m \<longleftrightarrow> (dimms m \<noteq> [] \<longrightarrow> acpi_dev m \<and> \<not> mte (board m)) \<and> (acpi_dev m \<or> gpio_key_dev m)"

text \<open>The event device accepts the modules that the machine hands to it.\<close>

fun hot_ok :: "hot_env \<Rightarrow> hot_event \<Rightarrow> bool" where
  "hot_ok H (Plug dev) \<longleftrightarrow> (is_pc_dimm dev \<longrightarrow> ged_plug_error H dev = None)"
| "hot_ok H ev \<longleftrightarrow> True"

definition hot_frame :: "hot_machine \<Rightarrow> hot_machine \<Rightarrow> bool" where
  "hot_frame m m' \<longleftrightarrow> acpi_dev m' = acpi_dev m \<and> gpio_key_dev m' = gpio_key_dev m \<and> mte (board m') = mte (board m) \<and>
     vmap (board m') = vmap (board m) \<and> irqmap (board m') = irqmap (board m) \<and> gic_version (board m') = gic_version (board m)"

lemma plug_cb_spec:
  assumes "is_pc_dimm dev \<longrightarrow> acpi_dev m \<and> ged_plug_error H dev = None"
  obtains m' cs where "virt_machine_device_plug_cb H dev m = Inr (m', cs)" "hot_frame m m'"
    "dimms m' = (if is_pc_dimm dev then dev_id dev # dimms m else dimms m)"
    "iommu (board m') = (if is_virtio_iommu_pci dev then VIRT_IOMMU_VIRTIO else iommu (board m))"
  using assms
  by (cases "is_pc_dimm dev"; cases "is_virtio_iommu_pci dev")
    (auto simp: virt_machine_device_plug_cb_def virt_memory_plug_def create_virtio_iommu_dt_bindings_def hot_frame_def Let_def)

lemma pre_plug_None:
  "fst (virt_memory_pre_plug H dev m) = None \<longleftrightarrow> acpi_dev m \<and> \<not> mte (board m) \<and> (is_nvdimm dev \<longrightarrow> nvdimm_enabled m) \<and>
    dimm_pre_plug_error H dev = None"
  by (simp add: virt_memory_pre_plug_def)

lemma hot_step_safe:
  assumes "hot_inv m" "hot_ok H ev"
  shows "\<exists>m'. hot_step E H m ev = Inr m' \<and> hot_inv m' \<and> hot_frame m m'"
proof (cases ev)
  case (Plug dev)
  show ?thesis
  proof (cases "virt_machine_get_hotplug_handler dev m \<and> fst (virt_machine_device_pre_plug_cb E H dev m) = None")
    case True
    then have ok: "is_pc_dimm dev \<longrightarrow> acpi_dev m \<and> \<not> mte (board m)"
      by (auto simp: virt_machine_device_pre_plug_cb_def pre_plug_None)
    then obtain m' cs where "virt_machine_device_plug_cb H dev m = Inr (m', cs)" "hot_frame m m'"
      "dimms m' = (if is_pc_dimm dev then dev_id dev # dimms m else dimms m)"
      using plug_cb_spec assms(2) unfolding Plug by (metis hot_ok.simps(1))
    with True ok assms(1) show ?thesis by (auto simp: Plug hot_inv_def hot_frame_def split: if_splits)
  qed (use assms in \<open>auto simp: Plug hot_frame_def\<close>)
next
  case (Eject dev)
  show ?thesis
  proof (cases "is_pc_dimm dev \<and> acpi_dev m")
    case True
    with assms(1) show ?thesis
      by (cases "ged_unplug_error H dev")
        (auto simp: Eject virt_machine_device_unplug_cb_def virt_dimm_unplug_def hot_inv_def hot_frame_def)
  qed (use assms in \<open>auto simp: Eject virt_machine_device_unplug_cb_def hot_frame_def\<close>)
qed (use assms in \<open>auto simp: hot_inv_def virt_powerdown_req_def hot_frame_def split: prod.split\<close>)

interpretation hot: safe_steps "hot_step E H" hot_inv "hot_ok H" for E H
  by unfold_locales (use hot_step_safe in blast)

lemma hot_run_frame:
  assumes "hot_inv m" "list_all (hot_ok H) evs" "run_steps (hot_step E H) m evs = Inr m'"
  shows "hot_frame m m'"
  using assms
proof (induction evs arbitrary: m)
  case (Cons ev evs)
  then obtain u where u: "hot_step E H m ev = Inr u" "hot_inv u" "hot_frame m u"
    using hot_step_safe [of m H ev E] by auto
  then have "hot_frame u m'" using Cons by simp
  with u(3) show ?case by (simp add: hot_frame_def)
qed (simp add: hot_frame_def)

section \<open>From the start of the machine\<close>

text \<open>The devices that the start created, read off its calls: the event device by its interrupt line, the key by its pin.\<close>

definition has_ged :: "call list \<Rightarrow> bool" where
  "has_ged cs = list_ex (\<lambda>c. case c of Gic_in d k n \<Rightarrow> d = ''acpi-ged'' | _ \<Rightarrow> False) cs"

definition has_key :: "call list \<Rightarrow> bool" where
  "has_key cs = list_ex (\<lambda>c. case c of Gpio_out d k t \<Rightarrow> d = ''gpio-key'' | _ \<Rightarrow> False) cs"

definition has_bus :: "call list \<Rightarrow> bool" where
  "has_bus cs = list_ex (\<lambda>c. case c of Gic_in d k n \<Rightarrow> d = ''platform-bus-device'' | _ \<Rightarrow> False) cs"

definition hot_start :: "machine_opts \<Rightarrow> VirtMachineState \<times> arm_boot_info \<times> call list \<Rightarrow> hot_machine" where
  "hot_start mo r = (case r of (vms, boot, cs) \<Rightarrow>
     \<lparr>board = vms, acpi_dev = has_ged cs, platform_bus_dev = has_bus cs, gpio_key_dev = has_key cs,
      firmware_loaded = bi_firmware_loaded boot, nvdimm_enabled = nvdimm mo, virtio_iommu_bdf = 0,
      pciehb_nodename = node_at ''/pcie'' (base (vmap vms VIRT_PCIE_MMIO)), dimms = []\<rparr>)"

lemma has_append [simp]: "has_ged (xs @ ys) \<longleftrightarrow> has_ged xs \<or> has_ged ys" "has_key (xs @ ys) \<longleftrightarrow> has_key xs \<or> has_key ys"
  "has_ged (Map_ram sp n b z # xs) = has_ged xs" "has_key (Map_ram sp n b z # xs) = has_key xs"
  by (simp_all add: has_ged_def has_key_def)

lemma button_created:
  "has_ged (create_acpi_ged evts n nv vms)" "has_key (create_gpio_devices E ph vms VIRT_GPIO sp)"
  by (simp_all add: has_ged_def has_key_def create_acpi_ged_def create_gpio_devices_def create_gpio_keys_def Let_def split: prod.split)

lemma devices_button:
  assumes "machvirt_devices E kvm names itsclass evts H vmc fw tag dm mo vms = Inr (vms', cs)"
  shows "has_ged cs \<or> has_key cs"
proof -
  have "has_ged (if b then create_acpi_ged evts n nv v else create_gpio_devices E ph v' VIRT_GPIO sp) \<or>
      has_key (if b then create_acpi_ged evts n nv v else create_gpio_devices E ph v' VIRT_GPIO sp)" for b n nv v ph v' sp
    by (simp add: button_created)
  then show ?thesis
    using assms by (clarsimp simp: machvirt_devices_def Let_def split del: if_split) blast
qed

lemma machine_button:
  assumes "machvirt_init E A kvm B vmc mo vms = Inr r"
  shows "hot_inv (hot_start mo r)"
proof -
  obtain fw tag dm mo' vms2 vms3 devices pre post boot where
    "machvirt_devices E kvm (gic_names B) (its_class B) (ged_events B) (dt_handles B) vmc fw tag dm mo' vms2 = Inr (vms3, devices)"
    "r = (vms3, boot, pre @ devices @ post)"
    using assms unfolding machvirt_init_def Let_def guard_Inr rbind_Inr_conv
    by (clarsimp simp: guard_Inr split del: if_split) (metis append_assoc)
  then show ?thesis using devices_button by (fastforce simp: hot_inv_def hot_start_def)
qed

text \<open>
  C22: From a machine that has started, any sequence of plugging, unplug requests, ejections by the event device and presses of the power button runs
  without a fault: no callback uses a device that was not created. Memory modules are plugged in only while the
  event device exists and memory tagging is off, and the address map, the interrupts and the GIC stay as they were.
\<close>

theorem hotplug_safe:
  assumes "machvirt_init E A kvm B vmc mo vms = Inr (vms', boot, cs)" "list_all (hot_ok H) evs"
  shows "\<exists>m. run_steps (hot_step E H) (hot_start mo (vms', boot, cs)) evs = Inr m \<and>
    (dimms m \<noteq> [] \<longrightarrow> acpi_dev m \<and> \<not> mte vms') \<and> (\<exists>b. virt_powerdown_req m = Inr b) \<and>
    vmap (board m) = vmap vms' \<and> irqmap (board m) = irqmap vms' \<and> gic_version (board m) = gic_version vms'"
proof -
  have start: "hot_inv (hot_start mo (vms', boot, cs))" using machine_button [OF assms(1)] .
  obtain m where m: "run_steps (hot_step E H) (hot_start mo (vms', boot, cs)) evs = Inr m" "hot_inv m"
    using hot.run_safe [OF start assms(2)] by blast
  have "hot_frame (hot_start mo (vms', boot, cs)) m" by (rule hot_run_frame [OF start assms(2) m(1)])
  with m show ?thesis by (auto simp: hot_inv_def hot_frame_def hot_start_def virt_powerdown_req_def)
qed

definition sample_dimm :: hot_device where
  "sample_dimm = \<lparr>dev_id = 7, is_pc_dimm = True, is_nvdimm = False, is_virtio_iommu_pci = False, is_dynamic_sysbus = False,
     typename = ''pc-dimm'', dev_bdf = 0\<rparr>"

definition sample_iommu :: hot_device where
  "sample_iommu = \<lparr>dev_id = 8, is_pc_dimm = False, is_nvdimm = False, is_virtio_iommu_pci = True, is_dynamic_sysbus = False,
     typename = ''virtio-iommu-pci'', dev_bdf = 0x18\<rparr>"

definition sample_hot :: hot_env where
  "sample_hot = \<lparr>dimm_pre_plug_error = (\<lambda>d. None), ged_plug_error = (\<lambda>d. None), ged_request_error = (\<lambda>d. None),
     ged_unplug_error = (\<lambda>d. None), iommu_handle = 9, VIRTIO_IOMMU_RESV_MEM_T_MSI = 1\<rparr>"

theorem hotplug_safe_witness:
  "\<exists>r m. machvirt_init real_env sample_arm sample_kvm sample_env virt_class_defaults sample_opts
      (sample_vms\<lparr>gic_version := VIRT_GIC_VERSION_NOSEL, clock_phandle := 0\<rparr>) = Inr r \<and>
    run_steps (hot_step real_env sample_hot) (hot_start sample_opts r) [Plug sample_dimm, Plug sample_iommu, Power_button] = Inr m"
proof -
  obtain vms' boot cs where m: "machvirt_init real_env sample_arm sample_kvm sample_env virt_class_defaults sample_opts
      (sample_vms\<lparr>gic_version := VIRT_GIC_VERSION_NOSEL, clock_phandle := 0\<rparr>) = Inr (vms', boot, cs)"
    by (rule sample_machine)
  have "list_all (hot_ok sample_hot) [Plug sample_dimm, Plug sample_iommu, Power_button]" by (simp add: sample_hot_def)
  from hotplug_safe [OF m this] m show ?thesis by blast
qed

section \<open>The map of the virtio IOMMU\<close>

text \<open>What an \<^verbatim>\<open>iommu-map\<close> says about a requester: the entries are (first id, handle, first target, length).\<close>

fun iommu_lookup :: "u32 list \<Rightarrow> nat \<Rightarrow> (u32 \<times> nat) option" where
  "iommu_lookup (r # ph # i # n # xs) rid =
     (if unat r \<le> rid \<and> rid < unat r + unat n then Some (ph, unat i + (rid - unat r)) else iommu_lookup xs rid)"
| "iommu_lookup xs rid = None"

text \<open>
  C31: The virtio IOMMU translates every other device: after it is plugged in, the map of the PCIe host sends each of the 65536
  requester ids to the IOMMU under its own number, and leaves out exactly the IOMMU itself.
\<close>

theorem virtio_iommu_map:
  assumes "is_virtio_iommu_pci dev" "\<not> is_pc_dimm dev"
  shows "\<exists>m' cs cells. virt_machine_device_plug_cb H dev m = Inr (m', cs) \<and>
    Tree (Setprop (pciehb_nodename m) ''iommu-map'' (Fdt_cells cells)) \<in> set cs \<and>
    (\<forall>rid<0x10000. iommu_lookup cells rid = (if rid = unat (dev_bdf dev) then None else Some (iommu_handle H, rid)))"
proof -
  let ?b = "ucast (dev_bdf dev) :: u32"
  let ?cells = "[0x0, iommu_handle H, 0x0, ?b, ?b + 1, iommu_handle H, ?b + 1, 0xffff - ?b]"
  have b: "unat ?b = unat (dev_bdf dev)" "unat ?b < 0x10000"
    using unat_bounds(2) [of "dev_bdf dev"] by (simp_all add: unat_ucast_up)
  have s: "unat (?b + 1) = unat ?b + 1" using b(2) by (simp add: unat_word_ariths)
  have d: "unat (0xffff - ?b) = 0xffff - unat ?b" using b(2) by (subst unat_sub) (simp_all add: word_le_nat_alt)
  have "iommu_lookup ?cells rid = (if rid = unat (dev_bdf dev) then None else Some (iommu_handle H, rid))" if "rid < 0x10000" for rid
    using that b(2) unfolding iommu_lookup.simps s d by (auto simp: b(1))
  moreover obtain m' cs where "virt_machine_device_plug_cb H dev m = Inr (m', cs)"
    "Tree (Setprop (pciehb_nodename m) ''iommu-map'' (Fdt_cells ?cells)) \<in> set cs"
    using assms by (auto simp: virt_machine_device_plug_cb_def create_virtio_iommu_dt_bindings_def Let_def)
  ultimately show ?thesis by blast
qed

definition sample_hot_machine :: hot_machine where
  "sample_hot_machine = \<lparr>board = sample_vms\<lparr>iommu := VIRT_IOMMU_SMMUV3\<rparr>, acpi_dev = False, platform_bus_dev = True, gpio_key_dev = True,
     firmware_loaded = False, nvdimm_enabled = False, virtio_iommu_bdf = 0, pciehb_nodename = ''/pcie@10000000'', dimms = []\<rparr>"

theorem virtio_iommu_map_witness:
  "\<exists>m' cs cells. virt_machine_device_plug_cb sample_hot sample_iommu sample_hot_machine = Inr (m', cs) \<and>
    Tree (Setprop ''/pcie@10000000'' ''iommu-map'' (Fdt_cells cells)) \<in> set cs \<and>
    iommu_lookup cells 0x18 = None \<and> iommu_lookup cells 0x19 = Some (9, 0x19)"
proof -
  have "is_virtio_iommu_pci sample_iommu" "\<not> is_pc_dimm sample_iommu" by (simp_all add: sample_iommu_def)
  from virtio_iommu_map [OF this, of sample_hot sample_hot_machine] obtain m' cs cells where
    "virt_machine_device_plug_cb sample_hot sample_iommu sample_hot_machine = Inr (m', cs)"
    "Tree (Setprop ''/pcie@10000000'' ''iommu-map'' (Fdt_cells cells)) \<in> set cs"
    and look: "\<forall>rid<0x10000. iommu_lookup cells rid = (if rid = 0x18 then None else Some (9, rid))"
    by (auto simp: sample_hot_machine_def sample_hot_def sample_iommu_def)
  moreover have "iommu_lookup cells 0x18 = None" "iommu_lookup cells 0x19 = Some (9, 0x19)" using look by simp_all
  ultimately show ?thesis by blast
qed

text \<open>
  C36: A second IOMMU is not refused. On a machine that already has the SMMU a virtio IOMMU passes the pre-plug check and is plugged in;
  the machine then counts as having the virtio IOMMU only, and reading its \<^verbatim>\<open>iommu\<close> property runs into an assertion.
\<close>

theorem second_iommu_accepted:
  assumes "iommu (board m) = VIRT_IOMMU_SMMUV3" "is_virtio_iommu_pci dev" "\<not> is_pc_dimm dev"
    and "virt_machine_get_hotplug_handler dev m"
  shows "\<exists>m'. hot_step E H m (Plug dev) = Inr m' \<and> iommu (board m') = VIRT_IOMMU_VIRTIO \<and> virt_get_iommu (board m') = Inl KernelBug"
proof -
  have "fst (virt_machine_device_pre_plug_cb E H dev m) = None"
    using assms(2,3) by (simp add: virt_machine_device_pre_plug_cb_def split: option.split prod.split)
  moreover obtain m' cs where "virt_machine_device_plug_cb H dev m = Inr (m', cs)" "iommu (board m') = VIRT_IOMMU_VIRTIO"
    by (rule plug_cb_spec [of dev m H]) (use assms(2,3) in simp_all)
  ultimately show ?thesis using assms(4) by (simp add: virt_get_iommu_def)
qed

theorem second_iommu_accepted_witness:
  "\<exists>m'. hot_step real_env sample_hot sample_hot_machine (Plug sample_iommu) = Inr m' \<and> virt_get_iommu (board m') = Inl KernelBug"
  using second_iommu_accepted [of sample_hot_machine sample_iommu real_env sample_hot]
  by (auto simp: sample_hot_machine_def sample_iommu_def virt_machine_get_hotplug_handler_def)

text \<open>The reserved region of the IOMMU is the doorbell page or pages of the MSI controller.\<close>

lemma doorbell_inside:
  assumes "msi_doorbell E c = Some (a, b)"
  shows "\<exists>r \<in> {VIRT_GIC_ITS, VIRT_GIC_V2M}. base (base_memmap E r) \<le> a \<and> a \<le> b \<and>
    b = base (base_memmap E r) + msize (base_memmap E r) - 1"
  using assms by (cases c) (auto simp: msi_doorbell_def Let_def)

end
