(* ===== verification/Spec2Isabelle.thy ===== *)
theory Spec2Isabelle
  imports Uart_Net Uart_Probe Pcie_Limits Pcie_Cdev User_Copy Fan_Locks Temp_Driver Notifier Virt_Props Virt_Hotplug
begin

text \<open>
  Verification of the virtual device drivers under \<^verbatim>\<open>src/infected/modules\<close> and of the QEMU
  board they run on.

  \<^bold>\<open>The program.\<close> The repository holds five Linux modules, a user program and a modified QEMU board.
  \<^item> \<^verbatim>\<open>uart_net\<close> is a network device over a PL011 serial line. A packet becomes a header byte, an
    escaped two-byte length, the escaped data and a footer byte. The transmit function hands one packet
    to a work item that fills the FIFO; the interrupt handler queues the work and schedules the poll
    function, whose state machine rebuilds packets from the bytes of the FIFO.
  \<^item> \<^verbatim>\<open>pcie\<close> offers a 32 GB device mapping over 8 GB of reserved memory. A page fault maps a 4 MB
    chunk; when no frame is free the handler evicts the first resident chunk to a block device.
    \<^verbatim>\<open>user_copy\<close> copies through the mapping and back.
  \<^item> \<^verbatim>\<open>virt_fan\<close> exports fan speeds and duty cycles as hwmon attributes. A timer queues a work item
    that sends the buffered duty cycles to the controller, through a transport chosen at build time.
  \<^item> \<^verbatim>\<open>virt_temp\<close> is a temperature attribute over one word; \<^verbatim>\<open>notifier_chain\<close> registers
    three callbacks and calls one chain.
  \<^item> \<^verbatim>\<open>hw/arm/virt.c\<close> of QEMU 6.2, changed to have a second UART, decides where the devices of the
    machine lie and which interrupts they raise. The second UART is the device that \<^verbatim>\<open>uart_net\<close> drives.

  \<^bold>\<open>Theories and sources.\<close> Paths are relative to \<^verbatim>\<open>src/infected/modules\<close>.
  \<^item> \<open>Kernel_Prelude\<close>: machine integers, \<open>fault\<close> (what a C function does instead of returning), the
    sequencing \<open>rbind\<close>, error numbers, decimal printing, \<open>clamp_val\<close>, and two contracts as locales:
    \<open>safe_steps\<close> (a step function keeps an invariant and never faults) and \<open>inductive_invariant\<close> (an
    invariant of a step relation).
  \<^item> \<open>Uart_Types\<close>, \<open>Uart_Rx\<close>, \<open>Uart_Tx\<close>, \<open>Uart_Driver\<close>, \<open>Uart_Probe\<close>: \<^verbatim>\<open>uart_net/uart_net.c\<close>.
    The record \<open>uartnet_priv\<close> is the C structure; \<open>uart_sys\<close> adds the network device, the registers,
    the interrupt and the trace of calls. One definition per case of the two \<^verbatim>\<open>switch\<close> statements;
    \<open>poll_loop\<close> and \<open>tx_loop\<close> are the loops around them; \<open>uart_step\<close> is the set of calls the kernel
    can make. \<open>Uart_Link\<close> connects a transmitter and a receiver, \<open>Uart_Net\<close> states what the whole promises.
    \<open>Uart_Probe\<close> is the life of the device from \<^verbatim>\<open>uartnet_probe\<close> to \<^verbatim>\<open>uartnet_remove\<close>; there every access to the private
    data is checked against the area that \<^verbatim>\<open>alloc_netdev\<close> reserved for it, which the code asks to be 0 bytes long.
  \<^item> \<open>Pcie_Types\<close>, \<open>Pcie_Swap\<close>, \<open>Pcie_Mm\<close>, \<open>Pcie_Cdev\<close>: \<^verbatim>\<open>pcie/pcie.h\<close>,
    \<^verbatim>\<open>pcie_swap.c\<close>, \<^verbatim>\<open>pcie_mm.c\<close>, \<^verbatim>\<open>pcie_cdev.c\<close>, \<^verbatim>\<open>pcie_main.c\<close>,
    \<^verbatim>\<open>pcie_proc.c\<close>. The record \<open>pcie\<close> holds both descriptor tables, the page table, the contents of
    the frames and of the swap device; \<open>kernel\<close> the answers of the block layer and of the page table
    functions. \<open>Pcie_Memory\<close> is the mapping as a process sees it, \<open>Pcie_Paging\<close> its guarantees,
    \<open>Pcie_Limits\<close> where they end. \<open>User_Copy\<close>: \<^verbatim>\<open>pcie/user_copy.c\<close>.
  \<^item> \<open>Fan_Trans\<close>: \<^verbatim>\<open>virt_fan/virt_trans.c\<close> (\<open>virt_fan_read\<close>, \<open>virt_fan_write\<close>),
    \<^verbatim>\<open>virt_fan/fan_trans.c\<close> (\<open>i2c_fan_read\<close>, \<open>i2c_fan_write\<close>) and the retry loops of
    \<^verbatim>\<open>virt_fan.c\<close>. \<open>Fan_Bus\<close>: what goes over the bus. \<open>Fan_Driver\<close>: the rest of
    \<^verbatim>\<open>virt_fan.c\<close>. \<open>Fan_Safety\<close>: sequences of attribute accesses, timer expiries and work items.
    \<open>Fan_Locks\<close>: the two mutexes and the accesses to what they protect under interleaving, as an
    inductive step relation.
  \<^item> \<open>Temp_Driver\<close>: \<^verbatim>\<open>virt_temp/virt_temp.c\<close>. \<open>Notifier\<close>: \<^verbatim>\<open>notifier_chain/test_notifier.c\<close>.
  \<^item> The board, \<^verbatim>\<open>uart_net/scripts/qemu-6.2.0/hw/arm/virt.c\<close> with \<^verbatim>\<open>include/hw/arm/virt.h\<close>. \<open>Virt_Map\<close>: the
    memory and interrupt maps and \<^verbatim>\<open>virt_set_memmap\<close>. \<open>Virt_Config\<close>: the machine versions, string properties and the
    choice of the GIC. \<open>Virt_Props\<close>: the machine class, the flags and sequences of options. \<open>Virt_Devices\<close> and
    \<open>Virt_Board\<close>: the functions that create one device each, as the sequence of device, device tree and wiring calls they
    make, and the checks of \<^verbatim>\<open>machvirt_init\<close>. \<open>Virt_Cpus\<close>: affinities, the loop that creates the CPUs, \<^verbatim>\<open>create_fdt\<close> and
    \<^verbatim>\<open>fdt_add_cpu_nodes\<close>. \<open>Virt_Machine\<close>: \<^verbatim>\<open>machvirt_init\<close> as a whole. \<open>Virt_Hotplug\<close>: the hot plug callbacks, the
    power button and the callback before boot. \<open>Virt_Layout\<close>, \<open>Virt_Wiring\<close> and \<open>Virt_Tree\<close> hold properties of the map, of
    the interrupts and registers, and of the CPU and NUMA nodes.

  \<^bold>\<open>Conventions.\<close> State is passed explicitly in records. A function that can return an error number returns
  it as an integer, as the C function does; a function that can crash returns \<open>Inl\<close> of a fault. Fixed-width
  values are words where they wrap or are manipulated bitwise, and numbers elsewhere, with the wrap written
  out for \<^verbatim>\<open>unsigned long\<close> in the PCIe driver. Code outside the repository is an argument: \<open>uart_env\<close>,
  \<open>probe_env\<close>, \<open>kernel\<close>, \<open>cdev_env\<close>, the I2C functions and the packet error code, \<^verbatim>\<open>kstrtoul\<close>, the
  notifier chains, the answers of KVM and of the QEMU libraries.

  \<^bold>\<open>Interfaces and their instances.\<close>
  \<^item> \<open>safe_steps\<close>: \<open>rx\<close> (the receiver fed with bytes), \<open>drv\<close> (the UART driver under kernel calls), \<open>device\<close> (the same
    with probe, remove and the bounds of the private data), \<open>options\<close> (the board's
    options), \<open>hot\<close> (its life after the start) and, as a sublocale of \<open>fan_driver\<close>, \<open>steps\<close>.
  \<^item> \<open>inductive_invariant\<close>: \<open>virt_locks\<close> and \<open>i2c_locks\<close>, the locks of the fan driver with each transport.
  \<^item> \<open>safe_memory\<close> and its extension \<open>flat_memory\<close>: \<open>map\<close> and \<open>data\<close>, the device mapping.
  \<^item> \<open>fan_transport\<close>: \<open>virt\<close> and \<open>i2c\<close>. Its extension \<open>fan_driver\<close> carries the lemmas on the driver for
    any transport: \<open>virt_driver\<close> and \<open>i2c_driver\<close>.
  \<^item> \<open>flag_table\<close>: \<open>flags\<close>, the table of the board's flags as independent variables.

  \<^bold>\<open>What is shown.\<close>
  \<^item> UART: from probe to remove, no sequence of kernel calls and no byte sequence makes the driver fault if the
    allocator rounds the private area up far enough, and the first access faults if not; after remove nothing is
    left behind. A packet sent by one driver is delivered by the interrupt handler and poll function of the other,
    however the bytes are split over the interrupts, and the receiver accepts a frame unchanged exactly when it
    holds no escape character in its data or length; every non-empty packet is transmitted completely, within as many rounds as
    bytes are left, and then counted; a second request meanwhile is counted as dropped; the poll function respects its
    budget and unmasks the interrupts exactly when it uses less.
  \<^item> PCIe: the mapping refines a flat memory of 32 GB, under successful transfers and chunks entered at their
    first page; the handler never reaches \<^verbatim>\<open>BUG\<close>; which frame and which victim is chosen; the cost of
    a sequential pass; the copy program returns what it wrote.
  \<^item> Fan: every sequence of events keeps the arrays well formed and faults exactly when an allocation in the timer
    fails; a duty cycle that is set is
    sent and read back; a reply over I2C is accepted only with a right packet error code; no two threads
    access the same data at the same time; the I2C build never deadlocks.
  \<^item> Board: the fixed regions of the memory map are disjoint; the floating ones are aligned, disjoint and above all memory
    exactly when they fit into 64 bits, which the code does not check; the address width asked of KVM covers the map. The
    choice of the GIC is equivalent to what the options mean, one unresolved case included; the redistributors
    suffice for the CPUs. Starting the CPUs succeeds exactly if they offer what the options need. In the device tree of a
    machine that starts, every interrupt is wired and every register block mapped, the topology has one path per CPU, the
    affinities are complete and the distance map is right. After that no sequence of plugging and ejecting faults.
    Options of the command line never overrun a buffer, and the last one counts.
  \<^item> Where the code falls short the theorem states what happens: packets that the link corrupts, a zero-length
    packet that keeps the work item busy for ever, the interrupt lost between the unmasking and
    \<^verbatim>\<open>napi_enable\<close>, the transmit interrupt lost when the poll function's update of the mask overlaps a transmit request, failed transfers that nobody sees, a chunk entered in its middle, a reset under a live
    mapping, the deadlock between the attribute reader and the work item with the virtual transport, the
    I2C write repeated fifty times, the writable module parameter that leads past the array, the second IOMMU that the board
    accepts, the copy of more than 32 GB that leaves the mapping.

  \<^bold>\<open>Bounds and fuel.\<close> \<open>tx_loop\<close> and the loop of \<open>uartnet_tx_task\<close> take fuel, and running out is the fault
  \<open>Diverges\<close>; the number of bytes left plus one is shown to be enough. \<open>poll_loop\<close> recurses on the
  FIFO. \<open>retry\<close> makes at most \<open>FAN_FAIL_MAX_RETRY\<close> rounds, as the code does. The copy loops of the user program
  take fuel, and one more round than there are buffers to copy is shown to be enough. All other loops of the model are structural.

  \<^bold>\<open>Not modelled.\<close> Spin locks of \<^verbatim>\<open>uart_net\<close>: each entry point is one step, although the transmit function, the work item and
  the poll function share no lock. The two overlaps that do harm are split and stated on their own (in the open
  function, and in the poll function's update of the interrupt mask); the other theorems on the driver are about entry points that do not overlap. The
  messages that \<^verbatim>\<open>user_copy\<close> prints before an error exit. Tables that only register functions with the kernel or with QEMU (device match tables,
  \<^verbatim>\<open>net_device_ops\<close>, \<^verbatim>\<open>TypeInfo\<close>, the macros that define the machine versions). Build files and scripts hold no program
  logic.
\<close>

end
